theory Spec2Isabelle
  imports
    Complex_Main
    "HOL-Library.Char_ord"
    "HOL-Library.List_Lexorder"
    "HOL-Library.AList"
    "HOL-Library.Multiset"
begin

section \<open>Values of the host language\<close>

text \<open>
  The services (\<^verbatim>\<open>expense-data.ts\<close>, \<^verbatim>\<open>income-data.ts\<close>, \<^verbatim>\<open>analytics-data.ts\<close>) are
  TypeScript. Their values are modelled as follows.
  \<^item> A \<^verbatim>\<open>number\<close> that is an amount or a sum of amounts is a \<^typ>\<open>real\<close>: arithmetic is
    exact, rounding of IEEE doubles is outside the model. A number that can be \<^verbatim>\<open>NaN\<close> or
    an infinity is a \<^typ>\<open>real option\<close>, \<open>None\<close> when it is no finite number.
  \<^item> A \<^verbatim>\<open>string\<close> is a \<^typ>\<open>string\<close>: a list of characters with the codes 0 to 255, read
    as the UTF-16 code units \<^verbatim>\<open>U+0000\<close> to \<^verbatim>\<open>U+00FF\<close>. \<open>\<le>\<close> on strings is the lexicographic
    order on the codes, which is what \<^verbatim>\<open>>=\<close> and \<^verbatim>\<open><=\<close> compute on strings. Strings with
    other code units are not values of the type.
  \<^item> An optional property is an \<^typ>\<open>'a option\<close>, \<open>None\<close> for \<^verbatim>\<open>undefined\<close>.
  \<^item> A \<^verbatim>\<open>Record<string, T>\<close> is a plain object used as a dictionary. Its own properties
    are an association list in insertion order; reading a key that is not its own goes
    to \<^verbatim>\<open>Object.prototype\<close> (\<open>getProp\<close> below), and \<^verbatim>\<open>Object.entries\<close> lists the keys that
    are array indices first (\<open>entries\<close> below).
\<close>

datatype error = TypeError

text \<open>Truthiness of an optional string: \<^verbatim>\<open>undefined\<close> and \<^verbatim>\<open>""\<close> are falsy.\<close>

fun truthy :: "string option \<Rightarrow> bool" where
  "truthy None = False"
| "truthy (Some s) = (s \<noteq> [])"

text \<open>
  \<^verbatim>\<open>String.prototype.toLowerCase\<close>. Among the code units \<^verbatim>\<open>U+0000\<close> to \<^verbatim>\<open>U+00FF\<close> the
  letters with a lower-case mapping are \<^verbatim>\<open>A\<close> to \<^verbatim>\<open>Z\<close> and \<^verbatim>\<open>U+00C0\<close> to \<^verbatim>\<open>U+00DE\<close>
  without the multiplication sign \<^verbatim>\<open>U+00D7\<close>; each goes to the code unit 32 places up,
  every other character stays.
\<close>

definition upperCaseLetters :: string where
  "upperCaseLetters = ''ABCDEFGHIJKLMNOPQRSTUVWXYZ'' @
     [CHR 0xC0, CHR 0xC1, CHR 0xC2, CHR 0xC3, CHR 0xC4, CHR 0xC5, CHR 0xC6, CHR 0xC7,
      CHR 0xC8, CHR 0xC9, CHR 0xCA, CHR 0xCB, CHR 0xCC, CHR 0xCD, CHR 0xCE, CHR 0xCF,
      CHR 0xD0, CHR 0xD1, CHR 0xD2, CHR 0xD3, CHR 0xD4, CHR 0xD5, CHR 0xD6,
      CHR 0xD8, CHR 0xD9, CHR 0xDA, CHR 0xDB, CHR 0xDC, CHR 0xDD, CHR 0xDE]"

definition lowerCaseLetters :: string where
  "lowerCaseLetters = ''abcdefghijklmnopqrstuvwxyz'' @
     [CHR 0xE0, CHR 0xE1, CHR 0xE2, CHR 0xE3, CHR 0xE4, CHR 0xE5, CHR 0xE6, CHR 0xE7,
      CHR 0xE8, CHR 0xE9, CHR 0xEA, CHR 0xEB, CHR 0xEC, CHR 0xED, CHR 0xEE, CHR 0xEF,
      CHR 0xF0, CHR 0xF1, CHR 0xF2, CHR 0xF3, CHR 0xF4, CHR 0xF5, CHR 0xF6,
      CHR 0xF8, CHR 0xF9, CHR 0xFA, CHR 0xFB, CHR 0xFC, CHR 0xFD, CHR 0xFE]"

definition toLowerChar :: "char \<Rightarrow> char" where
  "toLowerChar c =
     (case map_of (zip upperCaseLetters lowerCaseLetters) c of
        None \<Rightarrow> c
      | Some l \<Rightarrow> l)"

definition toLowerCase :: "string \<Rightarrow> string" where
  "toLowerCase s = map toLowerChar s"

text \<open>\<^verbatim>\<open>String.prototype.includes\<close>: the query occurs as a contiguous substring.\<close>

fun startsWith :: "string \<Rightarrow> string \<Rightarrow> bool" where
  "startsWith s [] = True"
| "startsWith [] (q # qs) = False"
| "startsWith (c # s) (q # qs) = (c = q \<and> startsWith s qs)"

fun includes' :: "string \<Rightarrow> string \<Rightarrow> bool" where
  "includes' [] q = (q = [])"
| "includes' (c # s) q = (startsWith (c # s) q \<or> includes' s q)"

text \<open>\<^verbatim>\<open>String(n)\<close> for a non-negative integer \<open>n\<close>: its decimal digits.\<close>

fun numberToString :: "nat \<Rightarrow> string" where
  "numberToString n =
     (if n < 10 then [char_of (48 + n)]
      else numberToString (n div 10) @ [char_of (48 + n mod 10)])"

declare numberToString.simps [simp del]

text \<open>
  \<^verbatim>\<open>Array.prototype.findIndex\<close>: the index of the first element that satisfies the
  predicate, \<open>-1\<close> when there is none.
\<close>

fun findIndex :: "('a \<Rightarrow> bool) \<Rightarrow> 'a list \<Rightarrow> int" where
  "findIndex P [] = - 1"
| "findIndex P (x # xs) =
     (if P x then 0 else (let i = findIndex P xs in if i = - 1 then - 1 else i + 1))"

text \<open>\<^verbatim>\<open>xs.splice(index, 1)\<close> for an index inside the array.\<close>

definition splice1 :: "nat \<Rightarrow> 'a list \<Rightarrow> 'a list" where
  "splice1 index xs = take index xs @ drop (Suc index) xs"

section \<open>Records of the store\<close>

text \<open>
  \<^verbatim>\<open>Expense\<close> and \<^verbatim>\<open>Income\<close> share \<^verbatim>\<open>id\<close>, \<^verbatim>\<open>amount\<close>, \<^verbatim>\<open>date\<close> and \<^verbatim>\<open>description\<close>;
  an expense has a \<^verbatim>\<open>category\<close>, an income a \<^verbatim>\<open>source\<close>. The constant field
  \<^verbatim>\<open>type: "expense"\<close> carries no information and is left out. The interface declares
  \<^verbatim>\<open>description: string\<close>, but the API variant of \<^verbatim>\<open>getExpenses\<close> guards against a record
  without it (\<^verbatim>\<open>e.description?.toLowerCase()\<close>), so the field is optional here and
  \<open>None\<close> is a missing description.
\<close>

record Entry =
  id' :: string
  amount :: real
  date :: string
  description :: "string option"

record Expense = Entry +
  category :: string

datatype Source = Salary | Freelance | Investments | Other

fun sourceName :: "Source \<Rightarrow> string" where
  "sourceName Salary = ''Salary''"
| "sourceName Freelance = ''Freelance''"
| "sourceName Investments = ''Investments''"
| "sourceName Other = ''Other''"

record Income = Entry +
  source :: Source

text \<open>
  \<^verbatim>\<open>Partial<Omit<Expense, "id" | "type">>\<close> and \<^verbatim>\<open>Partial<Omit<Income, "id">>\<close>: the
  properties an update carries; \<open>None\<close> is a property the update does not have. An
  optional property of a \<^verbatim>\<open>Partial\<close> type may also be there with the value
  \<^verbatim>\<open>undefined\<close>, which the object spread copies like any other value. For the
  description, the one field a record can lack, this is \<open>Some None\<close>.
\<close>

record Updates =
  new_amount :: "real option"
  new_date :: "string option"
  new_description :: "string option option"

record ExpenseUpdates = Updates +
  new_category :: "string option"

record IncomeUpdates = Updates +
  new_source :: "Source option"

section \<open>The mock store: add, update, delete\<close>

text \<open>
  The module-level arrays \<^verbatim>\<open>expenses\<close> and \<^verbatim>\<open>incomeData\<close> are passed in and returned.
  \<^verbatim>\<open>Date.now()\<close> is an input of \<open>addExpense\<close> and \<open>addIncome\<close>: the clock reading in
  milliseconds at the call. The argument of \<open>addExpense\<close> is a record whose \<open>id'\<close> is
  overwritten, as the object spread followed by \<^verbatim>\<open>id: String(Date.now())\<close> does.
\<close>

definition addExpense :: "nat \<Rightarrow> Expense \<Rightarrow> Expense list \<Rightarrow> Expense \<times> Expense list" where
  "addExpense now expense expenses =
     (let newExpense = expense\<lparr>id' := numberToString now\<rparr>
      in (newExpense, expenses @ [newExpense]))"

definition addIncome :: "nat \<Rightarrow> Income \<Rightarrow> Income list \<Rightarrow> Income \<times> Income list" where
  "addIncome now income incomeData =
     (let newIncome = income\<lparr>id' := numberToString now\<rparr>
      in (newIncome, incomeData @ [newIncome]))"

text \<open>\<^verbatim>\<open>{ ...expenses[index], ...updates }\<close>: the properties of the update win.\<close>

definition spreadExpense :: "Expense \<Rightarrow> ExpenseUpdates \<Rightarrow> Expense" where
  "spreadExpense e u =
     e\<lparr>amount := (case new_amount u of None \<Rightarrow> amount e | Some v \<Rightarrow> v),
       date := (case new_date u of None \<Rightarrow> date e | Some v \<Rightarrow> v),
       description := (case new_description u of None \<Rightarrow> description e | Some v \<Rightarrow> v),
       category := (case new_category u of None \<Rightarrow> category e | Some v \<Rightarrow> v)\<rparr>"

definition spreadIncome :: "Income \<Rightarrow> IncomeUpdates \<Rightarrow> Income" where
  "spreadIncome i u =
     i\<lparr>amount := (case new_amount u of None \<Rightarrow> amount i | Some v \<Rightarrow> v),
       date := (case new_date u of None \<Rightarrow> date i | Some v \<Rightarrow> v),
       description := (case new_description u of None \<Rightarrow> description i | Some v \<Rightarrow> v),
       source := (case new_source u of None \<Rightarrow> source i | Some v \<Rightarrow> v)\<rparr>"

text \<open>The first component of the result is the returned value, \<open>None\<close> for \<^verbatim>\<open>null\<close>.\<close>

definition updateExpense ::
  "string \<Rightarrow> ExpenseUpdates \<Rightarrow> Expense list \<Rightarrow> Expense option \<times> Expense list" where
  "updateExpense i updates expenses =
     (let index = findIndex (\<lambda>e. id' e = i) expenses
      in if index = - 1 then (None, expenses)
         else (let expenses' =
                     expenses[nat index := spreadExpense (expenses ! nat index) updates]
               in (Some (expenses' ! nat index), expenses')))"

definition deleteExpense :: "string \<Rightarrow> Expense list \<Rightarrow> bool \<times> Expense list" where
  "deleteExpense i expenses =
     (let index = findIndex (\<lambda>e. id' e = i) expenses
      in if index = - 1 then (False, expenses)
         else (True, splice1 (nat index) expenses))"

definition updateIncome ::
  "string \<Rightarrow> IncomeUpdates \<Rightarrow> Income list \<Rightarrow> Income option \<times> Income list" where
  "updateIncome i updates incomeData =
     (let index = findIndex (\<lambda>x. id' x = i) incomeData
      in if index = - 1 then (None, incomeData)
         else (let incomeData' =
                     incomeData[nat index := spreadIncome (incomeData ! nat index) updates]
               in (Some (incomeData' ! nat index), incomeData')))"

definition deleteIncome :: "string \<Rightarrow> Income list \<Rightarrow> bool \<times> Income list" where
  "deleteIncome i incomeData =
     (let index = findIndex (\<lambda>x. id' x = i) incomeData
      in if index = - 1 then (False, incomeData)
         else (True, splice1 (nat index) incomeData))"

text \<open>A sequence of \<open>addExpense\<close> calls, each with its clock reading.\<close>

fun addExpenses :: "(nat \<times> Expense) list \<Rightarrow> Expense list \<Rightarrow> Expense list" where
  "addExpenses [] expenses = expenses"
| "addExpenses ((now, e) # calls) expenses = addExpenses calls (snd (addExpense now e expenses))"

fun addIncomes :: "(nat \<times> Income) list \<Rightarrow> Income list \<Rightarrow> Income list" where
  "addIncomes [] incomeData = incomeData"
| "addIncomes ((now, x) # calls) incomeData = addIncomes calls (snd (addIncome now x incomeData))"

section \<open>Dates and the sort of the filtered lists\<close>

text \<open>
  \<^verbatim>\<open>new Date(s).getTime()\<close> for the date-only form \<^verbatim>\<open>YYYY-MM-DD\<close> of the data model: the
  milliseconds from the epoch to midnight UTC of that day, computed as ECMAScript's
  \<^verbatim>\<open>MakeDay\<close> and \<^verbatim>\<open>DayFromYear\<close> do. Every other string is given \<open>None\<close>, which stands for
  \<^verbatim>\<open>NaN\<close>; what an engine makes of other date formats is outside the model, and the facts
  below that depend on the order of a sorted list assume dates of this form.
\<close>

definition isDigit :: "char \<Rightarrow> bool" where
  "isDigit c = (CHR ''0'' \<le> c \<and> c \<le> CHR ''9'')"

definition digitValue :: "char \<Rightarrow> nat" where
  "digitValue c = of_char c - 48"

definition numberOf :: "string \<Rightarrow> nat" where
  "numberOf s = foldl (\<lambda>n c. 10 * n + digitValue c) 0 s"

definition isLeapYear :: "nat \<Rightarrow> bool" where
  "isLeapYear y = (y mod 4 = 0 \<and> (y mod 100 \<noteq> 0 \<or> y mod 400 = 0))"

definition daysInMonth :: "nat \<Rightarrow> nat \<Rightarrow> nat" where
  "daysInMonth y m =
     (if m = 2 then (if isLeapYear y then 29 else 28)
      else if m = 4 \<or> m = 6 \<or> m = 9 \<or> m = 11 then 30 else 31)"

definition parseDate :: "string \<Rightarrow> (nat \<times> nat \<times> nat) option" where
  "parseDate s =
     (if length s = 10 \<and> s ! 4 = CHR ''-'' \<and> s ! 7 = CHR ''-''
         \<and> list_all isDigit (take 4 s) \<and> list_all isDigit (take 2 (drop 5 s))
         \<and> list_all isDigit (drop 8 s)
      then (let y = numberOf (take 4 s); m = numberOf (take 2 (drop 5 s));
                d = numberOf (drop 8 s)
            in if 1 \<le> m \<and> m \<le> 12 \<and> 1 \<le> d \<and> d \<le> daysInMonth y m then Some (y, m, d)
               else None)
      else None)"

text \<open>The order of year, month and day.\<close>

definition ymdLess :: "nat \<times> nat \<times> nat \<Rightarrow> nat \<times> nat \<times> nat \<Rightarrow> bool" where
  "ymdLess a b = (case (a, b) of ((y, m, d), (y', m', d')) \<Rightarrow>
      y < y' \<or> y = y' \<and> (m < m' \<or> m = m' \<and> d < d'))"

definition DayFromYear :: "int \<Rightarrow> int" where
  "DayFromYear y =
     365 * (y - 1970) + (y - 1969) div 4 - (y - 1901) div 100 + (y - 1601) div 400"

definition daysBeforeMonth :: "nat \<Rightarrow> nat \<Rightarrow> nat" where
  "daysBeforeMonth y m = sum_list (map (daysInMonth y) [1..<m])"

definition MakeDay :: "nat \<Rightarrow> nat \<Rightarrow> nat \<Rightarrow> int" where
  "MakeDay y m d = DayFromYear (int y) + int (daysBeforeMonth y m) + int d - 1"

definition msPerDay :: int where
  "msPerDay = 86400000"

definition getTime :: "string \<Rightarrow> int option" where
  "getTime s =
     (case parseDate s of None \<Rightarrow> None | Some (y, m, d) \<Rightarrow> Some (MakeDay y m d * msPerDay))"

definition validDate :: "string \<Rightarrow> bool" where
  "validDate s = (parseDate s \<noteq> None)"

text \<open>
  \<^verbatim>\<open>Array.prototype.sort\<close> with a comparator. The result of the comparator is a number,
  \<open>None\<close> for \<^verbatim>\<open>NaN\<close>, which the sort takes as \<open>+0\<close>. The sort is stable, so for a
  consistent comparator its result is the one of the stable insertion sort below; for
  an inconsistent one (a date that does not parse) the language leaves the order to the
  engine.
\<close>

fun positive :: "real option \<Rightarrow> bool" where
  "positive None = False"
| "positive (Some v) = (0 < v)"

fun insertSorted :: "('a \<Rightarrow> 'a \<Rightarrow> real option) \<Rightarrow> 'a \<Rightarrow> 'a list \<Rightarrow> 'a list" where
  "insertSorted compareFn x [] = [x]"
| "insertSorted compareFn x (y # ys) =
     (if positive (compareFn x y) then y # insertSorted compareFn x ys else x # y # ys)"

definition sortArray :: "('a \<Rightarrow> 'a \<Rightarrow> real option) \<Rightarrow> 'a list \<Rightarrow> 'a list" where
  "sortArray compareFn xs = foldr (insertSorted compareFn) xs []"

text \<open>\<^verbatim>\<open>(a, b) => new Date(b.date).getTime() - new Date(a.date).getTime()\<close>\<close>

definition byDateDesc :: "'a Entry_scheme \<Rightarrow> 'a Entry_scheme \<Rightarrow> real option" where
  "byDateDesc a b =
     (case (getTime (date b), getTime (date a)) of
        (Some tb, Some ta) \<Rightarrow> Some (real_of_int (tb - ta))
      | _ \<Rightarrow> None)"

text \<open>
  For dates of the data model the comparator is the comparison of the keys \<open>dateKey\<close>;
  \<open>datesValid\<close> says that every record of a list has such a date.
\<close>

definition dateKey :: "'a Entry_scheme \<Rightarrow> int" where
  "dateKey e = - the (getTime (date e))"

definition datesValid :: "'a Entry_scheme list \<Rightarrow> bool" where
  "datesValid xs = list_all (\<lambda>e. validDate (date e)) xs"

text \<open>
  \<^verbatim>\<open>a.localeCompare(b)\<close> on date strings and month keys: digits and hyphens at the same
  places, where the collation order is the order of the character codes.
\<close>

definition localeCompare :: "string \<Rightarrow> string \<Rightarrow> real option" where
  "localeCompare a b = Some (if a < b then - 1 else if a = b then 0 else 1)"

section \<open>Filters\<close>

text \<open>
  \<^verbatim>\<open>ExpenseFilter\<close> and \<^verbatim>\<open>IncomeFilter\<close> are object types with optional properties, and
  \<^verbatim>\<open>getSpendingTrends\<close> hands one object of type \<^verbatim>\<open>ExpenseFilter & IncomeFilter\<close> to both
  \<^verbatim>\<open>getExpenses\<close> and \<^verbatim>\<open>getIncome\<close>. One record holds all the properties; \<open>getExpenses\<close>
  does not read \<open>sourceF\<close>, \<open>getIncome\<close> reads neither \<open>categoryF\<close> nor \<open>searchQuery\<close>.
\<close>

record Filter =
  startDate :: "string option"
  endDate :: "string option"
  categoryF :: "string option"
  sourceF :: "string option"
  minAmount :: "real option"
  maxAmount :: "real option"
  searchQuery :: "string option"

type_synonym ExpenseFilter = Filter
type_synonym IncomeFilter = Filter

text \<open>
  \<^verbatim>\<open>xs.filter(callback)\<close> with a callback that may throw: the first exception ends the
  call.
\<close>

fun filterE :: "('a \<Rightarrow> error + bool) \<Rightarrow> 'a list \<Rightarrow> error + 'a list" where
  "filterE p [] = Inr []"
| "filterE p (x # xs) =
     (case p x of
        Inl err \<Rightarrow> Inl err
      | Inr keep \<Rightarrow>
          (case filterE p xs of
             Inl err \<Rightarrow> Inl err
           | Inr ys \<Rightarrow> Inr (if keep then x # ys else ys)))"

text \<open>
  The five blocks on \<^verbatim>\<open>startDate\<close>, \<^verbatim>\<open>endDate\<close>, \<^verbatim>\<open>category\<close>, \<^verbatim>\<open>minAmount\<close> and
  \<^verbatim>\<open>maxAmount\<close>, the same in the mock-store variant and the API variant of
  \<^verbatim>\<open>getExpenses\<close>. \<open>the\<close> is the non-null assertion \<^verbatim>\<open>!\<close> of the source, under its guard.
\<close>

definition narrowExpenses :: "ExpenseFilter \<Rightarrow> Expense list \<Rightarrow> Expense list" where
  "narrowExpenses f expenses =
     (let filtered = expenses;
          filtered = (if truthy (startDate f)
                      then filter (\<lambda>e. the (startDate f) \<le> date e) filtered else filtered);
          filtered = (if truthy (endDate f)
                      then filter (\<lambda>e. date e \<le> the (endDate f)) filtered else filtered);
          filtered = (if truthy (categoryF f)
                      then filter (\<lambda>e. toLowerCase (category e) = toLowerCase (the (categoryF f)))
                             filtered
                      else filtered);
          filtered = (if minAmount f \<noteq> None
                      then filter (\<lambda>e. the (minAmount f) \<le> amount e) filtered else filtered);
          filtered = (if maxAmount f \<noteq> None
                      then filter (\<lambda>e. amount e \<le> the (maxAmount f)) filtered else filtered)
      in filtered)"

text \<open>
  The callback of the \<^verbatim>\<open>searchQuery\<close> block in the mock-store variant:
  \<^verbatim>\<open>e.description.toLowerCase().includes(query) || e.category.toLowerCase().includes(query)\<close>.
  Reading \<^verbatim>\<open>toLowerCase\<close> of a missing description throws a \<^verbatim>\<open>TypeError\<close>.
\<close>

definition matchesSearch :: "string \<Rightarrow> Expense \<Rightarrow> error + bool" where
  "matchesSearch query e =
     (case description e of
        None \<Rightarrow> Inl TypeError
      | Some d \<Rightarrow>
          Inr (includes' (toLowerCase d) query \<or> includes' (toLowerCase (category e)) query))"

text \<open>
  The same callback in the API variant:
  \<^verbatim>\<open>(e.description?.toLowerCase().includes(query) || false) || e.category.toLowerCase().includes(query)\<close>.
\<close>

definition matchesSearchApi :: "string \<Rightarrow> Expense \<Rightarrow> bool" where
  "matchesSearchApi query e =
     ((case description e of None \<Rightarrow> False | Some d \<Rightarrow> includes' (toLowerCase d) query)
      \<or> includes' (toLowerCase (category e)) query)"

text \<open>\<^verbatim>\<open>getExpenses\<close> of the mock store; \<open>None\<close> is a call without a filter.\<close>

definition getExpenses :: "Expense list \<Rightarrow> ExpenseFilter option \<Rightarrow> error + Expense list" where
  "getExpenses expenses flt =
     (case flt of
        None \<Rightarrow> Inr (sortArray byDateDesc expenses)
      | Some f \<Rightarrow>
          (let filtered = narrowExpenses f expenses
           in if truthy (searchQuery f)
              then (let query = toLowerCase (the (searchQuery f))
                    in case filterE (matchesSearch query) filtered of
                         Inl err \<Rightarrow> Inl err
                       | Inr filtered \<Rightarrow> Inr (sortArray byDateDesc filtered))
              else Inr (sortArray byDateDesc filtered)))"

text \<open>
  \<^verbatim>\<open>getExpenses\<close> of the API variant. Its first argument is the array of the response
  body; \<open>None\<close> when there is no user session, the request fails or the response is not
  ok, where the function returns the empty array. The body of the function is inside
  \<^verbatim>\<open>try\<close>/\<^verbatim>\<open>catch\<close>, so it returns an array in every case.
\<close>

definition getExpensesApi :: "Expense list option \<Rightarrow> ExpenseFilter option \<Rightarrow> Expense list" where
  "getExpensesApi response flt =
     (case response of
        None \<Rightarrow> []
      | Some expenses \<Rightarrow>
          (case flt of
             None \<Rightarrow> sortArray byDateDesc expenses
           | Some f \<Rightarrow>
               (let expenses = narrowExpenses f expenses;
                    expenses = (if truthy (searchQuery f)
                                then filter (matchesSearchApi (toLowerCase (the (searchQuery f))))
                                       expenses
                                else expenses)
                in sortArray byDateDesc expenses)))"

text \<open>\<^verbatim>\<open>getIncome\<close>; \<^verbatim>\<open>i.source\<close> is the name of the source.\<close>

definition getIncome :: "Income list \<Rightarrow> IncomeFilter option \<Rightarrow> Income list" where
  "getIncome incomeData flt =
     (case flt of
        None \<Rightarrow> sortArray byDateDesc incomeData
      | Some f \<Rightarrow>
          (let filtered = incomeData;
               filtered = (if truthy (startDate f)
                           then filter (\<lambda>i. the (startDate f) \<le> date i) filtered else filtered);
               filtered = (if truthy (endDate f)
                           then filter (\<lambda>i. date i \<le> the (endDate f)) filtered else filtered);
               filtered = (if truthy (sourceF f)
                           then filter (\<lambda>i. toLowerCase (sourceName (source i))
                                              = toLowerCase (the (sourceF f))) filtered
                           else filtered);
               filtered = (if minAmount f \<noteq> None
                           then filter (\<lambda>i. the (minAmount f) \<le> amount i) filtered
                           else filtered);
               filtered = (if maxAmount f \<noteq> None
                           then filter (\<lambda>i. amount i \<le> the (maxAmount f)) filtered
                           else filtered)
           in sortArray byDateDesc filtered))"

section \<open>Objects used as dictionaries\<close>

text \<open>
  The dictionaries of the services (\<^verbatim>\<open>byCategory\<close>, \<^verbatim>\<open>byMonth\<close>, \<^verbatim>\<open>bySource\<close>,
  \<^verbatim>\<open>categories\<close>, \<^verbatim>\<open>categoryColors\<close>, \<^verbatim>\<open>dataByDate\<close>, \<^verbatim>\<open>dataByMonth\<close>) are plain objects,
  created by \<^verbatim>\<open>{}\<close> or an object literal, so their prototype is \<^verbatim>\<open>Object.prototype\<close>.
  \<open>objectPrototype\<close> lists the names of its properties: eleven functions and the
  accessor \<^verbatim>\<open>__proto__\<close>, whose getter returns \<^verbatim>\<open>Object.prototype\<close> itself for a plain
  object.
\<close>

type_synonym 'v object = "(string \<times> 'v) list"

definition objectPrototype :: "string list" where
  "objectPrototype =
     [''constructor'', ''__defineGetter__'', ''__defineSetter__'', ''hasOwnProperty'',
      ''__lookupGetter__'', ''__lookupSetter__'', ''isPrototypeOf'', ''propertyIsEnumerable'',
      ''toString'', ''valueOf'', ''__proto__'', ''toLocaleString'']"

text \<open>
  What a property of a dictionary with values of type \<open>'a\<close> can hold when it is read:
  \<^item> \<open>Val v\<close>, a value of the declared type;
  \<^item> \<open>Member k\<close>, the function or object that \<^verbatim>\<open>Object.prototype\<close> has under the name
    \<open>k\<close>;
  \<^item> \<open>Concat x v\<close>, the string \<^verbatim>\<open>x + v\<close> for a number \<open>v\<close> and an \<open>x\<close> that is not a number:
    the text of \<open>x\<close> followed by the digits of \<open>v\<close>. The text of a member is
    \<^verbatim>\<open>function name() { [native code] }\<close> or \<^verbatim>\<open>[object Object]\<close>, so such a string is not
    empty and is not the text of a number.
\<close>

datatype 'a val = Val 'a | Member string | Concat "'a val" real

text \<open>\<^verbatim>\<open>obj[k]\<close>: the own property, else the inherited one, else \<^verbatim>\<open>undefined\<close>.\<close>

definition getProp :: "'a val object \<Rightarrow> string \<Rightarrow> 'a val option" where
  "getProp obj k =
     (case map_of obj k of
        Some x \<Rightarrow> Some x
      | None \<Rightarrow> if k \<in> set objectPrototype then Some (Member k) else None)"

text \<open>
  \<^verbatim>\<open>x || 0\<close>: \<^verbatim>\<open>undefined\<close> and the number \<open>0\<close> are falsy; a function, an object and a
  string that is not empty are truthy.
\<close>

definition orZero :: "real val option \<Rightarrow> real val" where
  "orZero x =
     (case x of
        None \<Rightarrow> Val 0
      | Some (Val v) \<Rightarrow> if v = 0 then Val 0 else Val v
      | Some y \<Rightarrow> y)"

text \<open>
  \<^verbatim>\<open>x + v\<close> for a number \<open>v\<close>: the sum when \<open>x\<close> is a number, the concatenation of the
  two texts otherwise.
\<close>

fun jsPlus :: "real val \<Rightarrow> real \<Rightarrow> real val" where
  "jsPlus (Val a) v = Val (a + v)"
| "jsPlus x v = Concat x v"

text \<open>
  \<^verbatim>\<open>obj[k] = (obj[k] || 0) + v\<close>. A key that is new goes to the end, a key that is there
  keeps its place. For the key \<^verbatim>\<open>__proto__\<close> the assignment calls the setter of
  \<^verbatim>\<open>Object.prototype\<close>, which ignores a value that is neither an object nor \<^verbatim>\<open>null\<close>
  (here a string): the object stays as it is.
\<close>

definition addTo :: "real val object \<Rightarrow> string \<Rightarrow> real \<Rightarrow> real val object" where
  "addTo obj k v =
     (let x = jsPlus (orZero (getProp obj k)) v
      in if k = ''__proto__'' then obj else AList.update k x obj)"

text \<open>
  \<^verbatim>\<open>if (!obj[k]) { obj[k] = zero }\<close> followed by an update of \<^verbatim>\<open>obj[k]\<close> in place, for
  values that are objects (and so truthy). For a key of \<open>objectPrototype\<close> the value read
  is the inherited function or object, which is truthy: no own property is made, and the
  update goes to a property of that function or object, which no service reads.
\<close>

definition upsert :: "'v object \<Rightarrow> string \<Rightarrow> 'v \<Rightarrow> ('v \<Rightarrow> 'v) \<Rightarrow> 'v object" where
  "upsert obj k zero change =
     (if k \<in> set objectPrototype then obj
      else (let obj = (if map_of obj k = None then AList.update k zero obj else obj)
            in AList.update k (change (the (map_of obj k))) obj))"

text \<open>
  \<^verbatim>\<open>Object.entries(obj)\<close>: the own properties; first the keys that are array indices
  (the decimal digits, without leading zero, of an integer below \<open>2\<^sup>3\<^sup>2 - 1\<close>) in ascending
  order of the index, then the other keys in insertion order.
\<close>

definition isArrayIndex :: "string \<Rightarrow> bool" where
  "isArrayIndex k =
     (k \<noteq> [] \<and> list_all isDigit k \<and> (k = ''0'' \<or> CHR ''1'' \<le> hd k)
      \<and> numberOf k < 4294967295)"

definition entries :: "'v object \<Rightarrow> (string \<times> 'v) list" where
  "entries obj =
     sort_key (\<lambda>(k, v). numberOf k) (filter (\<lambda>(k, v). isArrayIndex k) obj)
     @ filter (\<lambda>(k, v). \<not> isArrayIndex k) obj"

text \<open>
  \<^verbatim>\<open>Number(x)\<close>, the conversion that \<^verbatim>\<open>x / t\<close> and \<^verbatim>\<open>x - y\<close> apply to \<open>x\<close>: a number is
  itself; a member of \<^verbatim>\<open>Object.prototype\<close> is converted through its text, and a string
  that is not the text of a number is \<^verbatim>\<open>NaN\<close>.
\<close>

fun toNumber :: "real val \<Rightarrow> real option" where
  "toNumber (Val v) = Some v"
| "toNumber x = None"

text \<open>\<^verbatim>\<open>x - y\<close>: \<^verbatim>\<open>NaN\<close> when one of the two is.\<close>

definition jsMinus :: "real val \<Rightarrow> real val \<Rightarrow> real option" where
  "jsMinus x y =
     (case (toNumber x, toNumber y) of
        (Some a, Some b) \<Rightarrow> Some (a - b)
      | _ \<Rightarrow> None)"

section \<open>Summaries\<close>

text \<open>
  Division of two numbers. For a divisor that is zero the quotient of the source is
  \<^verbatim>\<open>NaN\<close> or an infinity and not a finite number: \<open>None\<close>.
\<close>

definition jsDivide :: "real \<Rightarrow> real \<Rightarrow> real option" where
  "jsDivide a b = (if b = 0 then None else Some (a / b))"

text \<open>
  \<^verbatim>\<open>x / t\<close> for a value \<open>x\<close> read from a dictionary: the division converts \<open>x\<close> to a
  number first, and a quotient of \<^verbatim>\<open>NaN\<close> is \<^verbatim>\<open>NaN\<close>.
\<close>

definition jsQuotient :: "real val \<Rightarrow> real \<Rightarrow> real option" where
  "jsQuotient x t = (case toNumber x of None \<Rightarrow> None | Some a \<Rightarrow> jsDivide a t)"

text \<open>\<^verbatim>\<open>q * 100\<close> for a quotient \<open>q\<close>: no finite number when \<open>q\<close> is none.\<close>

definition times100 :: "real option \<Rightarrow> real option" where
  "times100 q = map_option (\<lambda>v. v * 100) q"

text \<open>
  The results of the summary functions. A field whose name is taken by another record
  carries the initial of its interface: \<open>byMonthI\<close> is \<^verbatim>\<open>IncomeSummary.byMonth\<close>,
  \<open>totalIncomeB\<close> is \<^verbatim>\<open>BalanceSummary.totalIncome\<close>, and so on. The interfaces declare the
  values of the dictionaries, \<^verbatim>\<open>amount\<close> and \<^verbatim>\<open>color\<close> as \<^verbatim>\<open>number\<close> and \<^verbatim>\<open>string\<close>; what
  the code stores there is a \<^typ>\<open>real val\<close> and a \<^typ>\<open>string val\<close>.
\<close>

record ExpenseSummary =
  totalExpenses :: real
  averageExpense :: "real option"
  expenseCount :: nat
  byCategory :: "real val object"
  byMonth :: "real val object"

record IncomeSummary =
  totalIncome :: real
  averageIncome :: "real option"
  incomeCount :: nat
  bySource :: "real val object"
  byMonthI :: "real val object"

record BalanceSummary =
  totalIncomeB :: real
  totalExpensesB :: real
  balance :: real
  savingsRate :: "real option"

record SpendingByCategory =
  categoryS :: string
  amountS :: "real val"
  percentage :: "real option"
  color :: "string val"

record TrendDataPoint =
  dateT :: string
  incomeT :: real
  expensesT :: real
  balanceT :: real

record TopCategory =
  name :: string
  amountC :: "real val"

record MonthlyBreakdown =
  month :: string
  incomeM :: real
  expensesM :: real
  savings :: real
  topCategories :: "TopCategory list"

text \<open>\<^verbatim>\<open>getExpenseSummary\<close>; \<^verbatim>\<open>date.substring(0, 7)\<close> is \<open>take 7\<close>.\<close>

definition getExpenseSummary ::
  "Expense list \<Rightarrow> ExpenseFilter option \<Rightarrow> error + ExpenseSummary" where
  "getExpenseSummary expenses flt =
     (case getExpenses expenses flt of
        Inl err \<Rightarrow> Inl err
      | Inr filtered \<Rightarrow>
          (let totalExpenses = foldl (\<lambda>sum e. sum + amount e) 0 filtered;
               (byCategory, byMonth) =
                 foldl (\<lambda>(byCategory, byMonth) expense.
                          (let byCategory = addTo byCategory (category expense) (amount expense);
                               month = take 7 (date expense);
                               byMonth = addTo byMonth month (amount expense)
                           in (byCategory, byMonth)))
                   ([], []) filtered
           in Inr \<lparr>totalExpenses = totalExpenses,
                    averageExpense =
                      (if length filtered > 0
                       then jsDivide totalExpenses (real (length filtered)) else Some 0),
                    expenseCount = length filtered,
                    byCategory = byCategory,
                    byMonth = byMonth\<rparr>))"

definition getIncomeSummary :: "Income list \<Rightarrow> IncomeFilter option \<Rightarrow> IncomeSummary" where
  "getIncomeSummary incomeData flt =
     (let filtered = getIncome incomeData flt;
          totalIncome = foldl (\<lambda>sum i. sum + amount i) 0 filtered;
          (bySource, byMonth) =
            foldl (\<lambda>(bySource, byMonth) income.
                     (let bySource = addTo bySource (sourceName (source income)) (amount income);
                          month = take 7 (date income);
                          byMonth = addTo byMonth month (amount income)
                      in (bySource, byMonth)))
              ([], []) filtered
      in \<lparr>totalIncome = totalIncome,
           averageIncome =
             (if length filtered > 0
              then jsDivide totalIncome (real (length filtered)) else Some 0),
           incomeCount = length filtered,
           bySource = bySource,
           byMonthI = byMonth\<rparr>)"

section \<open>Analytics\<close>

definition getBalanceSummary ::
  "Expense list \<Rightarrow> Income list \<Rightarrow> ExpenseFilter option \<Rightarrow> IncomeFilter option
     \<Rightarrow> error + BalanceSummary" where
  "getBalanceSummary expenses incomeData expenseFilter incomeFilter =
     (case getExpenseSummary expenses expenseFilter of
        Inl err \<Rightarrow> Inl err
      | Inr expenseSummary \<Rightarrow>
          (let incomeSummary = getIncomeSummary incomeData incomeFilter;
               balance = totalIncome incomeSummary - totalExpenses expenseSummary;
               savingsRate =
                 (if totalIncome incomeSummary > 0
                  then times100 (jsDivide (totalIncome incomeSummary - totalExpenses expenseSummary)
                                   (totalIncome incomeSummary))
                  else Some 0)
           in Inr \<lparr>totalIncomeB = totalIncome incomeSummary,
                    totalExpensesB = totalExpenses expenseSummary,
                    balance = balance,
                    savingsRate = savingsRate\<rparr>))"

definition categoryColors :: "string val object" where
  "categoryColors =
     [(''Groceries'', Val ''#10b981''), (''Rent'', Val ''#6366f1''),
      (''Transportation'', Val ''#f59e0b''), (''Utilities'', Val ''#8b5cf6''),
      (''Entertainment'', Val ''#ec4899''), (''Dining'', Val ''#f97316''),
      (''Healthcare'', Val ''#ef4444''), (''Shopping'', Val ''#06b6d4''),
      (''Subscriptions'', Val ''#84cc16'')]"

text \<open>
  \<^verbatim>\<open>categoryColors[category] || "#64748b"\<close>: \<^verbatim>\<open>undefined\<close> and the empty string are
  falsy, an inherited function or object is truthy.
\<close>

definition colorOf :: "string \<Rightarrow> string val" where
  "colorOf c =
     (case getProp categoryColors c of
        None \<Rightarrow> Val ''#64748b''
      | Some (Val s) \<Rightarrow> if s = [] then Val ''#64748b'' else Val s
      | Some x \<Rightarrow> x)"

definition getSpendingByCategory ::
  "Expense list \<Rightarrow> ExpenseFilter option \<Rightarrow> error + SpendingByCategory list" where
  "getSpendingByCategory expenses flt =
     (case getExpenseSummary expenses flt of
        Inl err \<Rightarrow> Inl err
      | Inr summary \<Rightarrow>
          (let total = totalExpenses summary
           in Inr (sortArray (\<lambda>a b. jsMinus (amountS b) (amountS a))
                     (map (\<lambda>(category, amount).
                             \<lparr>categoryS = category,
                              amountS = amount,
                              percentage =
                                (if total > 0 then times100 (jsQuotient amount total) else Some 0),
                              color = colorOf category\<rparr>)
                        (entries (byCategory summary))))))"

text \<open>
  \<^verbatim>\<open>getSpendingTrends\<close>. The values of \<^verbatim>\<open>dataByDate\<close> are the pairs of \<^verbatim>\<open>income\<close> and
  \<^verbatim>\<open>expenses\<close>. The one filter goes to \<open>getExpenses\<close> and to \<open>getIncome\<close>.
\<close>

definition getSpendingTrends ::
  "Expense list \<Rightarrow> Income list \<Rightarrow> Filter option \<Rightarrow> error + TrendDataPoint list" where
  "getSpendingTrends expenseStore incomeData flt =
     (case getExpenses expenseStore flt of
        Inl err \<Rightarrow> Inl err
      | Inr expenses \<Rightarrow>
          (let income = getIncome incomeData flt;
               dataByDate = [];
               dataByDate =
                 foldl (\<lambda>obj e. upsert obj (date e) (0, 0) (\<lambda>(inc, spent). (inc, spent + amount e)))
                   dataByDate expenses;
               dataByDate =
                 foldl (\<lambda>obj i. upsert obj (date i) (0, 0) (\<lambda>(inc, spent). (inc + amount i, spent)))
                   dataByDate income
           in Inr (sortArray (\<lambda>a b. localeCompare (dateT a) (dateT b))
                     (map (\<lambda>(date, (inc, spent)).
                             \<lparr>dateT = date, incomeT = inc, expensesT = spent, balanceT = inc - spent\<rparr>)
                        (entries dataByDate)))))"

text \<open>
  \<^verbatim>\<open>xs.slice(0, n)\<close> for an integer \<open>n\<close>: a negative \<open>n\<close> counts from the end.
\<close>

definition slice0 :: "int \<Rightarrow> 'a list \<Rightarrow> 'a list" where
  "slice0 n xs = (if n < 0 then take (length xs - nat (- n)) xs else take (nat n) xs)"

text \<open>
  \<^verbatim>\<open>xs.forEach(callback)\<close> with a callback that updates a local object and may throw: the
  first exception ends the call.
\<close>

fun forEachE :: "('s \<Rightarrow> 'a \<Rightarrow> error + 's) \<Rightarrow> 's \<Rightarrow> 'a list \<Rightarrow> error + 's" where
  "forEachE callback s [] = Inr s"
| "forEachE callback s (x # xs) =
     (case callback s x of
        Inl err \<Rightarrow> Inl err
      | Inr s' \<Rightarrow> forEachE callback s' xs)"

text \<open>
  \<^verbatim>\<open>getMonthlyBreakdown\<close>. It takes no filter and reads both stores whole. Its argument
  is \<open>None\<close> when the caller leaves \<^verbatim>\<open>months\<close> out, which then is 6. The values of
  \<^verbatim>\<open>dataByMonth\<close> are the triples of \<^verbatim>\<open>income\<close>, \<^verbatim>\<open>expenses\<close> and \<^verbatim>\<open>categories\<close>. In the
  loop over the expenses, a month key of \<open>objectPrototype\<close> (\<^verbatim>\<open>valueOf\<close> has 7 characters)
  reads an inherited function, which has no \<^verbatim>\<open>categories\<close>: reading a property of
  \<^verbatim>\<open>undefined\<close> throws a \<^verbatim>\<open>TypeError\<close>.
\<close>

definition topOf :: "real val object \<Rightarrow> TopCategory list" where
  "topOf categories =
     take 3 (sortArray (\<lambda>a b. jsMinus (amountC b) (amountC a))
               (map (\<lambda>(name, amount). \<lparr>name = name, amountC = amount\<rparr>) (entries categories)))"

definition monthsOrDefault :: "int option \<Rightarrow> int" where
  "monthsOrDefault monthsArg = (case monthsArg of None \<Rightarrow> 6 | Some n \<Rightarrow> n)"

definition getMonthlyBreakdown ::
  "Expense list \<Rightarrow> Income list \<Rightarrow> int option \<Rightarrow> error + MonthlyBreakdown list" where
  "getMonthlyBreakdown expenseStore incomeData monthsArg =
     (let months = monthsOrDefault monthsArg
      in case getExpenses expenseStore None of
           Inl err \<Rightarrow> Inl err
         | Inr expenses \<Rightarrow>
             (let income = getIncome incomeData None;
                  dataByMonth = []
              in case forEachE
                        (\<lambda>obj e.
                           (let month = take 7 (date e)
                            in if month \<in> set objectPrototype then Inl TypeError
                               else Inr (upsert obj month (0, 0, [])
                                           (\<lambda>(inc, spent, categories).
                                              (inc, spent + amount e,
                                               addTo categories (category e) (amount e))))))
                        dataByMonth expenses of
                   Inl err \<Rightarrow> Inl err
                 | Inr dataByMonth \<Rightarrow>
                     (let dataByMonth =
                            foldl (\<lambda>obj i.
                                     (let month = take 7 (date i)
                                      in upsert obj month (0, 0, [])
                                           (\<lambda>(inc, spent, categories).
                                              (inc + amount i, spent, categories))))
                              dataByMonth income
                      in Inr (slice0 months
                                (sortArray (\<lambda>a b. localeCompare (month b) (month a))
                                   (map (\<lambda>(month, (inc, spent, categories)).
                                           \<lparr>month = month, incomeM = inc, expensesM = spent,
                                            savings = inc - spent,
                                            topCategories = topOf categories\<rparr>)
                                      (entries dataByMonth)))))))"

section \<open>Quantities the statements speak of\<close>

text \<open>
  The loops of the analytics, named. \<open>totalsBy\<close> is the \<^verbatim>\<open>forEach\<close> that adds a value to
  the entry of a key, \<open>grouped\<close> the \<^verbatim>\<open>forEach\<close> that creates the entry of a key when it
  is missing and then changes it; \<open>dataByDateOf\<close> and \<open>dataByMonthOf\<close> are the objects
  \<^verbatim>\<open>dataByDate\<close> and \<^verbatim>\<open>dataByMonth\<close> after the two loops of \<open>getSpendingTrends\<close> and of
  \<open>getMonthlyBreakdown\<close>, the latter when the loop over the expenses does not throw.
\<close>

definition totalsBy ::
  "('a \<Rightarrow> string) \<Rightarrow> ('a \<Rightarrow> real) \<Rightarrow> real val object \<Rightarrow> 'a list \<Rightarrow> real val object" where
  "totalsBy key val obj xs = foldl (\<lambda>obj x. addTo obj (key x) (val x)) obj xs"

definition grouped ::
  "('a \<Rightarrow> string) \<Rightarrow> 'v \<Rightarrow> ('a \<Rightarrow> 'v \<Rightarrow> 'v) \<Rightarrow> 'v object \<Rightarrow> 'a list \<Rightarrow> 'v object" where
  "grouped key z step obj xs = foldl (\<lambda>obj x. upsert obj (key x) z (step x)) obj xs"

definition dataByDateOf :: "Expense list \<Rightarrow> Income list \<Rightarrow> (real \<times> real) object" where
  "dataByDateOf expenses income =
     grouped date (0, 0) (\<lambda>i (inc, spent). (inc + amount i, spent))
       (grouped date (0, 0) (\<lambda>e (inc, spent). (inc, spent + amount e)) [] expenses) income"

text \<open>The month key of a record: \<^verbatim>\<open>date.substring(0, 7)\<close>.\<close>

definition monthOf :: "'a Entry_scheme \<Rightarrow> string" where
  "monthOf x = take 7 (date x)"

definition dataByMonthOf ::
  "Expense list \<Rightarrow> Income list \<Rightarrow> (real \<times> real \<times> real val object) object" where
  "dataByMonthOf expenses income =
     grouped monthOf (0, 0, [])
       (\<lambda>i (inc, spent, categories). (inc + amount i, spent, categories))
       (grouped monthOf (0, 0, [])
          (\<lambda>e (inc, spent, categories).
             (inc, spent + amount e, addTo categories (category e) (amount e)))
          [] expenses)
       income"

text \<open>
  The sums the specification names: the amounts of the records of a list on a date, in
  a month, and in a month and a category.
\<close>

definition onDate :: "string \<Rightarrow> 'a Entry_scheme list \<Rightarrow> real" where
  "onDate d xs = sum_list (map amount (filter (\<lambda>x. date x = d) xs))"

definition inMonth :: "string \<Rightarrow> 'a Entry_scheme list \<Rightarrow> real" where
  "inMonth m xs = sum_list (map amount (filter (\<lambda>x. monthOf x = m) xs))"

definition inMonthCategory :: "string \<Rightarrow> string \<Rightarrow> Expense list \<Rightarrow> real" where
  "inMonthCategory m c xs =
     sum_list (map amount (filter (\<lambda>e. monthOf e = m \<and> category e = c) xs))"

text \<open>
  What the specification asks of \<^verbatim>\<open>topCategories\<close>, written from its words: the entries
  \<open>shown\<close> are the first 3, or all when there are fewer, of a list that has one entry for
  each category of the month's expenses, with the total of the category in the month as
  its amount, a number, in descending order of amount.
\<close>

definition topCategoriesOf :: "string \<Rightarrow> Expense list \<Rightarrow> TopCategory list \<Rightarrow> bool" where
  "topCategoriesOf m expenses shown =
     (\<exists>others.
        distinct (map name (shown @ others))
      \<and> set (map name (shown @ others)) = category ` {e \<in> set expenses. monthOf e = m}
      \<and> (\<forall>t\<in>set (shown @ others). amountC t = Val (inMonthCategory m (name t) expenses))
      \<and> sorted_wrt (\<lambda>x y. inMonthCategory m (name y) expenses
                             \<le> inMonthCategory m (name x) expenses) (shown @ others)
      \<and> length shown = min 3 (length (shown @ others)))"

text \<open>
  The categories of the records are names that \<^verbatim>\<open>Object.prototype\<close> does not have: the
  lists on which the dictionaries keyed by category hold numbers.
\<close>

definition categoriesOwn :: "Expense list \<Rightarrow> bool" where
  "categoriesOwn xs = list_all (\<lambda>e. category e \<notin> set objectPrototype) xs"

section \<open>What a filter asks of a record\<close>

text \<open>
  The condition of a filter on an expense, written from the specification: every
  property of the filter that is present must hold. A string property is present when it
  is defined and not the empty string (the forms hand over \<^verbatim>\<open>""\<close> for a field that is
  left empty), a number property when it is defined.
\<close>

fun whenPresent :: "'a option \<Rightarrow> ('a \<Rightarrow> bool) \<Rightarrow> bool" where
  "whenPresent None P = True"
| "whenPresent (Some v) P = P v"

fun whenNonEmpty :: "string option \<Rightarrow> (string \<Rightarrow> bool) \<Rightarrow> bool" where
  "whenNonEmpty None P = True"
| "whenNonEmpty (Some s) P = (s = [] \<or> P s)"

definition searchHit :: "string \<Rightarrow> Expense \<Rightarrow> bool" where
  "searchHit q e =
     ((case description e of None \<Rightarrow> False | Some d \<Rightarrow> includes' (toLowerCase d) (toLowerCase q))
      \<or> includes' (toLowerCase (category e)) (toLowerCase q))"

definition satisfies :: "ExpenseFilter \<Rightarrow> Expense \<Rightarrow> bool" where
  "satisfies f e =
     (whenNonEmpty (startDate f) (\<lambda>s. s \<le> date e)
      \<and> whenNonEmpty (endDate f) (\<lambda>s. date e \<le> s)
      \<and> whenNonEmpty (categoryF f) (\<lambda>c. toLowerCase (category e) = toLowerCase c)
      \<and> whenPresent (minAmount f) (\<lambda>v. v \<le> amount e)
      \<and> whenPresent (maxAmount f) (\<lambda>v. amount e \<le> v)
      \<and> whenNonEmpty (searchQuery f) (\<lambda>q. searchHit q e))"

text \<open>The condition of the five blocks of \<open>narrowExpenses\<close> together.\<close>

definition narrows :: "ExpenseFilter \<Rightarrow> Expense \<Rightarrow> bool" where
  "narrows f e =
     (whenNonEmpty (startDate f) (\<lambda>s. s \<le> date e)
      \<and> whenNonEmpty (endDate f) (\<lambda>s. date e \<le> s)
      \<and> whenNonEmpty (categoryF f) (\<lambda>c. toLowerCase (category e) = toLowerCase c)
      \<and> whenPresent (minAmount f) (\<lambda>v. v \<le> amount e)
      \<and> whenPresent (maxAmount f) (\<lambda>v. amount e \<le> v))"

text \<open>The condition under which the mock-store variant keeps a record.\<close>

definition keeps :: "ExpenseFilter \<Rightarrow> Expense \<Rightarrow> bool" where
  "keeps f e = (narrows f e
     \<and> (truthy (searchQuery f) \<longrightarrow> matchesSearch (toLowerCase (the (searchQuery f))) e = Inr True))"

text \<open>A call without a filter asks nothing.\<close>

fun satisfiesOpt :: "ExpenseFilter option \<Rightarrow> Expense \<Rightarrow> bool" where
  "satisfiesOpt None e = True"
| "satisfiesOpt (Some f) e = satisfies f e"

text \<open>
  The condition of a filter on an income record: the five properties of an
  \<^verbatim>\<open>IncomeFilter\<close>, \<open>sourceF\<close> as equality of the lower-cased names. An income filter has
  no \<^verbatim>\<open>category\<close> and no \<^verbatim>\<open>searchQuery\<close>.
\<close>

definition satisfiesIncome :: "IncomeFilter \<Rightarrow> Income \<Rightarrow> bool" where
  "satisfiesIncome f i =
     (whenNonEmpty (startDate f) (\<lambda>s. s \<le> date i)
      \<and> whenNonEmpty (endDate f) (\<lambda>s. date i \<le> s)
      \<and> whenNonEmpty (sourceF f) (\<lambda>s. toLowerCase (sourceName (source i)) = toLowerCase s)
      \<and> whenPresent (minAmount f) (\<lambda>v. v \<le> amount i)
      \<and> whenPresent (maxAmount f) (\<lambda>v. amount i \<le> v))"

fun satisfiesIncomeOpt :: "IncomeFilter option \<Rightarrow> Income \<Rightarrow> bool" where
  "satisfiesIncomeOpt None i = True"
| "satisfiesIncomeOpt (Some f) i = satisfiesIncome f i"

text \<open>Every record of the list has a description.\<close>

definition described :: "Expense list \<Rightarrow> bool" where
  "described xs = list_all (\<lambda>e. description e \<noteq> None) xs"

section \<open>Sample data\<close>

text \<open>Records of the mock store and filters, used to evaluate the functions.\<close>

definition rentExpense :: Expense where
  "rentExpense = \<lparr>id' = ''1'', amount = 1200, date = ''2026-02-01'',
     description = Some ''Monthly apartment rent'', category = ''Rent''\<rparr>"

definition groceriesExpense :: Expense where
  "groceriesExpense = \<lparr>id' = ''2'', amount = 85.5, date = ''2026-02-02'',
     description = Some ''Weekly grocery shopping'', category = ''Groceries''\<rparr>"

definition uberExpense :: Expense where
  "uberExpense = \<lparr>id' = ''3'', amount = 45, date = ''2026-02-03'',
     description = Some ''Uber rides'', category = ''Transportation''\<rparr>"

definition electricityExpense :: Expense where
  "electricityExpense = \<lparr>id' = ''4'', amount = 120, date = ''2026-02-03'',
     description = Some ''Electricity bill'', category = ''Utilities''\<rparr>"

definition bulkExpense :: Expense where
  "bulkExpense = \<lparr>id' = ''14'', amount = 75, date = ''2026-01-28'',
     description = Some ''Bulk shopping'', category = ''Groceries''\<rparr>"

definition undescribedExpense :: Expense where
  "undescribedExpense = \<lparr>id' = ''21'', amount = 30, date = ''2026-02-09'',
     description = None, category = ''Bills''\<rparr>"

text \<open>
  Records that \<^verbatim>\<open>addExpense\<close> accepts (its \<^verbatim>\<open>category\<close> is any string): a payment to a
  constructor filed under the category \<^verbatim>\<open>constructor\<close>, a record with the category
  \<^verbatim>\<open>__proto__\<close>, and a record whose category \<^verbatim>\<open>CAF\<close>\<^verbatim>\<open>U+00C9\<close> has a letter outside ASCII.
\<close>

definition constructorExpense :: Expense where
  "constructorExpense = \<lparr>id' = ''22'', amount = 100, date = ''2026-02-10'',
     description = Some ''Kitchen wall'', category = ''constructor''\<rparr>"

definition protoExpense :: Expense where
  "protoExpense = \<lparr>id' = ''23'', amount = 100, date = ''2026-02-11'',
     description = Some ''Prototype parts'', category = ''__proto__''\<rparr>"

definition cafeExpense :: Expense where
  "cafeExpense = \<lparr>id' = ''24'', amount = 4.5, date = ''2026-02-12'',
     description = Some ''Espresso'', category = ''CAF'' @ [CHR 0xC9]\<rparr>"

definition sampleExpenses :: "Expense list" where
  "sampleExpenses =
     [rentExpense, groceriesExpense, uberExpense, electricityExpense, bulkExpense]"

definition salaryIncome :: Income where
  "salaryIncome = \<lparr>id' = ''1'', amount = 5500, date = ''2026-02-01'',
     description = Some ''Monthly salary'', source = Salary\<rparr>"

definition freelanceIncome :: Income where
  "freelanceIncome = \<lparr>id' = ''2'', amount = 800, date = ''2026-02-05'',
     description = Some ''Web development project'', source = Freelance\<rparr>"

definition dividendIncome :: Income where
  "dividendIncome = \<lparr>id' = ''6'', amount = 250, date = ''2026-01-20'',
     description = Some ''Dividend payment'', source = Investments\<rparr>"

definition sampleIncome :: "Income list" where
  "sampleIncome = [salaryIncome, freelanceIncome, dividendIncome]"

text \<open>Seven months of salary, one record a month, from January to July 2026.\<close>

definition salaryOn :: "string \<Rightarrow> string \<Rightarrow> Income" where
  "salaryOn i d = \<lparr>id' = i, amount = 5500, date = d,
     description = Some ''Monthly salary'', source = Salary\<rparr>"

definition sevenSalaries :: "Income list" where
  "sevenSalaries =
     [salaryOn ''31'' ''2026-01-01'', salaryOn ''32'' ''2026-02-01'',
      salaryOn ''33'' ''2026-03-01'', salaryOn ''34'' ''2026-04-01'',
      salaryOn ''35'' ''2026-05-01'', salaryOn ''36'' ''2026-06-01'',
      salaryOn ''37'' ''2026-07-01'']"

definition amountUpdate :: ExpenseUpdates where
  "amountUpdate = \<lparr>new_amount = Some 90, new_date = None, new_description = None,
     new_category = None\<rparr>"

definition undefinedDescription :: ExpenseUpdates where
  "undefinedDescription = \<lparr>new_amount = None, new_date = None, new_description = Some None,
     new_category = None\<rparr>"

definition sourceUpdate :: IncomeUpdates where
  "sourceUpdate = \<lparr>new_amount = None, new_date = None, new_description = None,
     new_source = Some Other\<rparr>"

definition noFilter :: Filter where
  "noFilter = \<lparr>startDate = None, endDate = None, categoryF = None, sourceF = None,
     minAmount = None, maxAmount = None, searchQuery = None\<rparr>"

definition groceriesFilter :: Filter where
  "groceriesFilter = noFilter\<lparr>categoryF := Some ''groceries''\<rparr>"

definition februaryFilter :: Filter where
  "februaryFilter =
     noFilter\<lparr>startDate := Some ''2026-02-01'', endDate := Some ''2026-02-28''\<rparr>"

definition billSearch :: Filter where
  "billSearch = noFilter\<lparr>searchQuery := Some ''Bill''\<rparr>"

definition cafeFilter :: Filter where
  "cafeFilter = noFilter\<lparr>categoryF := Some (''caf'' @ [CHR 0xE9])\<rparr>"

definition travelFilter :: Filter where
  "travelFilter = noFilter\<lparr>categoryF := Some ''Travel''\<rparr>"

section \<open>Facts about the store operations\<close>

lemma findIndex_ge: "- 1 \<le> findIndex P xs"
  by (induction xs) (auto simp: Let_def)

lemma findIndex_none: "findIndex P xs = - 1 \<longleftrightarrow> (\<forall>x\<in>set xs. \<not> P x)"
proof (induction xs)
  case Nil
  show ?case by simp
next
  case (Cons x xs)
  have "- 1 \<le> findIndex P xs" by (rule findIndex_ge)
  then have "findIndex P xs + 1 \<noteq> - 1" by arith
  with Cons show ?case by (auto simp: Let_def)
qed

lemma findIndex_split:
  assumes "findIndex P xs \<noteq> - 1"
  shows "\<exists>pre r post. xs = pre @ r # post \<and> P r \<and> (\<forall>x\<in>set pre. \<not> P x)
           \<and> nat (findIndex P xs) = length pre"
  using assms
proof (induction xs)
  case Nil
  then show ?case by simp
next
  case (Cons x xs)
  show ?case
  proof (cases "P x")
    case True
    then have "x # xs = [] @ x # xs \<and> P x \<and> (\<forall>y\<in>set []. \<not> P y)
        \<and> nat (findIndex P (x # xs)) = length ([] :: 'a list)"
      by simp
    then show ?thesis by blast
  next
    case False
    with Cons.prems have ne: "findIndex P xs \<noteq> - 1"
      by (auto simp: Let_def split: if_splits)
    from Cons.IH [OF ne] obtain pre r post where
      h: "xs = pre @ r # post" "P r" "\<forall>y\<in>set pre. \<not> P y" "nat (findIndex P xs) = length pre"
      by blast
    have ge: "0 \<le> findIndex P xs" using findIndex_ge [of P xs] ne by arith
    have "x # xs = (x # pre) @ r # post" using h(1) by simp
    moreover have "\<forall>y\<in>set (x # pre). \<not> P y" using h(3) False by simp
    moreover have "nat (findIndex P (x # xs)) = length (x # pre)"
      using False ne ge h(4) by (simp add: Let_def nat_add_distrib)
    ultimately show ?thesis using h(2) by blast
  qed
qed

lemma splice1_split: "splice1 (length pre) (pre @ r # post) = pre @ post"
  by (simp add: splice1_def)

lemma deleteExpense_absent:
  "\<forall>e\<in>set expenses. id' e \<noteq> i \<Longrightarrow> deleteExpense i expenses = (False, expenses)"
  using findIndex_none [of "\<lambda>e. id' e = i" expenses] by (simp add: deleteExpense_def)

lemma updateExpense_absent:
  "\<forall>e\<in>set expenses. id' e \<noteq> i \<Longrightarrow> updateExpense i u expenses = (None, expenses)"
  using findIndex_none [of "\<lambda>e. id' e = i" expenses] by (simp add: updateExpense_def)

lemma deleteIncome_absent:
  "\<forall>x\<in>set incomeData. id' x \<noteq> i \<Longrightarrow> deleteIncome i incomeData = (False, incomeData)"
  using findIndex_none [of "\<lambda>x. id' x = i" incomeData] by (simp add: deleteIncome_def)

lemma updateIncome_absent:
  "\<forall>x\<in>set incomeData. id' x \<noteq> i \<Longrightarrow> updateIncome i u incomeData = (None, incomeData)"
  using findIndex_none [of "\<lambda>x. id' x = i" incomeData] by (simp add: updateIncome_def)

lemma deleteExpense_present:
  assumes "\<exists>e\<in>set expenses. id' e = i"
  shows "\<exists>pre r post. expenses = pre @ r # post \<and> id' r = i
           \<and> (\<forall>e\<in>set pre. id' e \<noteq> i) \<and> deleteExpense i expenses = (True, pre @ post)"
proof -
  from assms have ne: "findIndex (\<lambda>e. id' e = i) expenses \<noteq> - 1"
    by (simp add: findIndex_none)
  from findIndex_split [OF ne] obtain pre r post where
    h: "expenses = pre @ r # post" "id' r = i" "\<forall>e\<in>set pre. id' e \<noteq> i"
       "nat (findIndex (\<lambda>e. id' e = i) expenses) = length pre"
    by blast
  have "deleteExpense i expenses = (True, splice1 (length pre) expenses)"
    using ne h(4) by (simp add: deleteExpense_def Let_def)
  also have "splice1 (length pre) expenses = pre @ post"
    unfolding h(1) by (rule splice1_split)
  finally show ?thesis using h(1,2,3) by blast
qed

lemma deleteIncome_present:
  assumes "\<exists>x\<in>set incomeData. id' x = i"
  shows "\<exists>pre r post. incomeData = pre @ r # post \<and> id' r = i
           \<and> (\<forall>x\<in>set pre. id' x \<noteq> i) \<and> deleteIncome i incomeData = (True, pre @ post)"
proof -
  from assms have ne: "findIndex (\<lambda>x. id' x = i) incomeData \<noteq> - 1"
    by (simp add: findIndex_none)
  from findIndex_split [OF ne] obtain pre r post where
    h: "incomeData = pre @ r # post" "id' r = i" "\<forall>x\<in>set pre. id' x \<noteq> i"
       "nat (findIndex (\<lambda>x. id' x = i) incomeData) = length pre"
    by blast
  have "deleteIncome i incomeData = (True, splice1 (length pre) incomeData)"
    using ne h(4) by (simp add: deleteIncome_def Let_def)
  also have "splice1 (length pre) incomeData = pre @ post"
    unfolding h(1) by (rule splice1_split)
  finally show ?thesis using h(1,2,3) by blast
qed

section \<open>Facts about dates: the order of the strings is the order of the days\<close>

lemma div_step:
  fixes a n :: int
  assumes "0 < n"
  shows "(a + 1) div n = a div n + (if (a + 1) mod n = 0 then 1 else 0)"
proof -
  define q where "q = a div n"
  define r where "r = a mod n"
  have a: "a = q * n + r" by (simp add: q_def r_def)
  have r: "0 \<le> r" "r < n" using assms by (simp_all add: r_def)
  show ?thesis
  proof (cases "r + 1 = n")
    case True
    have "a + 1 = (q + 1) * n" using a True by (simp add: algebra_simps)
    then have "(a + 1) div n = q + 1" "(a + 1) mod n = 0" using assms by simp_all
    then show ?thesis by (simp add: q_def)
  next
    case False
    then have lt: "r + 1 < n" using r by arith
    have eq: "a + 1 = q * n + (r + 1)" using a by simp
    have d: "(a + 1) div n = q" unfolding eq using lt r assms by simp
    have m: "(a + 1) mod n = r + 1" unfolding eq using lt r assms by simp
    show ?thesis using d m r by (simp add: q_def)
  qed
qed

lemma mod4: "(int y - 1968) mod 4 = 0 \<longleftrightarrow> y mod 4 = 0"
  by presburger
lemma mod100: "(int y - 1900) mod 100 = 0 \<longleftrightarrow> y mod 100 = 0"
  by presburger
lemma mod400: "(int y - 1600) mod 400 = 0 \<longleftrightarrow> y mod 400 = 0"
  by presburger

lemma DayFromYear_Suc:
  "DayFromYear (int y + 1) = DayFromYear (int y) + (if isLeapYear y then 366 else 365)"
proof -
  have a: "(int y + 1 - 1969) div 4 = (int y - 1969) div 4 + (if y mod 4 = 0 then 1 else 0)"
    using div_step [of 4 "int y - 1969"] mod4 [of y] by (simp add: algebra_simps)
  have b: "(int y + 1 - 1901) div 100 = (int y - 1901) div 100 + (if y mod 100 = 0 then 1 else 0)"
    using div_step [of 100 "int y - 1901"] mod100 [of y] by (simp add: algebra_simps)
  have c: "(int y + 1 - 1601) div 400 = (int y - 1601) div 400 + (if y mod 400 = 0 then 1 else 0)"
    using div_step [of 400 "int y - 1601"] mod400 [of y] by (simp add: algebra_simps)
  have d: "y mod 400 = 0 \<Longrightarrow> y mod 100 = 0" by presburger
  have e: "y mod 100 = 0 \<Longrightarrow> y mod 4 = 0" by presburger
  show ?thesis
    unfolding DayFromYear_def isLeapYear_def a b c using d e by auto
qed

lemma DayFromYear_mono: "y \<le> y' \<Longrightarrow> DayFromYear (int y) \<le> DayFromYear (int y')"
proof (induction y' rule: nat_induct_at_least[of y])
  case base show ?case by simp
next
  case (Suc n)
  have "DayFromYear (int (Suc n)) = DayFromYear (int n + 1)" by (simp add: add.commute)
  then show ?case using Suc DayFromYear_Suc[of n] by (simp split: if_splits)
qed

lemma daysBeforeMonth_Suc: "1 \<le> m \<Longrightarrow> daysBeforeMonth y (Suc m) = daysBeforeMonth y m + daysInMonth y m"
  by (simp add: daysBeforeMonth_def)

lemma daysBeforeMonth_mono: "m \<le> m' \<Longrightarrow> daysBeforeMonth y m \<le> daysBeforeMonth y m'"
proof (induction m' rule: nat_induct_at_least[of m])
  case base show ?case by simp
next
  case (Suc n)
  show ?case
  proof (cases "1 \<le> n")
    case True then show ?thesis using Suc daysBeforeMonth_Suc[of n y] by simp
  next
    case False then show ?thesis using Suc by (simp add: daysBeforeMonth_def)
  qed
qed

lemma daysBeforeMonth_13: "daysBeforeMonth y 13 = (if isLeapYear y then 366 else 365)"
  by (simp add: daysBeforeMonth_def daysInMonth_def upt_rec)


lemma MakeDay_less:
  assumes v: "1 \<le> m" "m \<le> 12" "1 \<le> d" "d \<le> daysInMonth y m"
    and v': "1 \<le> m'" "m' \<le> 12" "1 \<le> d'" "d' \<le> daysInMonth y' m'"
    and lt: "y < y' \<or> y = y' \<and> (m < m' \<or> m = m' \<and> d < d')"
  shows "MakeDay y m d < MakeDay y' m' d'"
proof -
  have end_of_month: "daysBeforeMonth y m + d \<le> daysBeforeMonth y (Suc m)"
    using v daysBeforeMonth_Suc [of m y] by simp
  consider "y < y'" | "y = y'" "m < m'" | "y = y'" "m = m'" "d < d'"
    using lt by blast
  then show ?thesis
  proof cases
    case 1
    have "daysBeforeMonth y (Suc m) \<le> daysBeforeMonth y 13"
      using v by (intro daysBeforeMonth_mono) simp
    then have "int (daysBeforeMonth y m + d) \<le> (if isLeapYear y then 366 else 365)"
      using end_of_month daysBeforeMonth_13 [of y] by (simp split: if_splits)
    then have "MakeDay y m d < DayFromYear (int y + 1)"
      unfolding MakeDay_def DayFromYear_Suc by (simp split: if_splits)
    also have "DayFromYear (int y + 1) \<le> DayFromYear (int y')"
      using DayFromYear_mono [of "Suc y" y'] 1 by (simp add: add.commute)
    also have "\<dots> \<le> MakeDay y' m' d'"
      using v' by (simp add: MakeDay_def)
    finally show ?thesis .
  next
    case 2
    have "daysBeforeMonth y (Suc m) \<le> daysBeforeMonth y m'"
      using 2 by (intro daysBeforeMonth_mono) simp
    then show ?thesis
      using end_of_month v' 2 by (simp add: MakeDay_def)
  next
    case 3
    then show ?thesis by (simp add: MakeDay_def)
  qed
qed

lemma isDigit_value: "isDigit c \<Longrightarrow> digitValue c \<le> 9"
  by (auto simp: isDigit_def digitValue_def less_eq_char_def)

lemma isDigit_less: "isDigit c \<Longrightarrow> isDigit c' \<Longrightarrow> c < c' \<longleftrightarrow> digitValue c < digitValue c'"
  by (auto simp: isDigit_def digitValue_def less_eq_char_def less_char_def)

lemma isDigit_eq: "isDigit c \<Longrightarrow> isDigit c' \<Longrightarrow> c = c' \<longleftrightarrow> digitValue c = digitValue c'"
proof -
  assume "isDigit c" "isDigit c'"
  then have "48 \<le> (of_char c :: nat)" "48 \<le> (of_char c' :: nat)"
    by (simp_all add: isDigit_def less_eq_char_def)
  then have "digitValue c = digitValue c' \<longleftrightarrow> (of_char c :: nat) = of_char c'"
    unfolding digitValue_def by arith
  then show ?thesis by simp
qed

lemma foldl_digits:
  "foldl (\<lambda>n c. 10 * n + digitValue c) k s = k * 10 ^ length s + numberOf s"
proof (induction s arbitrary: k)
  case Nil
  show ?case by (simp add: numberOf_def)
next
  case (Cons c s)
  show ?case
    using Cons [of "10 * k + digitValue c"] Cons [of "digitValue c"]
    by (simp add: numberOf_def algebra_simps)
qed

lemma numberOf_Cons: "numberOf (c # s) = digitValue c * 10 ^ length s + numberOf s"
  using foldl_digits [of "digitValue c" s] by (simp add: numberOf_def)

lemma numberOf_bound: "list_all isDigit s \<Longrightarrow> numberOf s < 10 ^ length s"
proof (induction s)
  case Nil
  show ?case by (simp add: numberOf_def)
next
  case (Cons c s)
  then have "digitValue c \<le> 9" "numberOf s < 10 ^ length s"
    by (simp_all add: isDigit_value)
  then have "digitValue c * 10 ^ length s + numberOf s < 9 * 10 ^ length s + 10 ^ length s"
    by (meson add_le_less_mono mult_le_mono1)
  then show ?case by (simp add: numberOf_Cons)
qed

lemma positional_less:
  fixes a a' r r' B :: nat
  assumes "r < B" "r' < B"
  shows "a * B + r < a' * B + r' \<longleftrightarrow> a < a' \<or> a = a' \<and> r < r'"
proof -
  have up: "x < x' \<Longrightarrow> s < B \<Longrightarrow> x * B + s < x' * B + s'" for x x' s s' :: nat
  proof -
    assume "x < x'" "s < B"
    then have "x * B + s < Suc x * B" by simp
    also have "Suc x * B \<le> x' * B" using \<open>x < x'\<close> by (intro mult_le_mono1) simp
    finally show ?thesis by simp
  qed
  consider "a < a'" | "a = a'" | "a' < a" by arith
  then show ?thesis
  proof cases
    case 1
    then show ?thesis using up [of a a' r r'] assms by simp
  next
    case 2
    then show ?thesis by simp
  next
    case 3
    then have "a' * B + r' < a * B + r" using up [of a' a r' r] assms by simp
    then show ?thesis using 3 by simp
  qed
qed

lemma digits_less:
  "length xs = length ys \<Longrightarrow> list_all isDigit xs \<Longrightarrow> list_all isDigit ys
     \<Longrightarrow> xs < ys \<longleftrightarrow> numberOf xs < numberOf ys"
proof (induction xs ys rule: list_induct2)
  case Nil
  show ?case by simp
next
  case (Cons x xs y ys)
  then have d: "isDigit x" "isDigit y" and r: "list_all isDigit xs" "list_all isDigit ys"
    by simp_all
  have b: "numberOf xs < 10 ^ length ys" "numberOf ys < 10 ^ length ys"
    using numberOf_bound [OF r(1)] numberOf_bound [OF r(2)] Cons.hyps by simp_all
  have "numberOf (x # xs) < numberOf (y # ys)
      \<longleftrightarrow> digitValue x < digitValue y \<or> digitValue x = digitValue y \<and> numberOf xs < numberOf ys"
    unfolding numberOf_Cons using positional_less [OF b] Cons.hyps by simp
  then show ?case
    using Cons.IH [OF r] isDigit_less [OF d] isDigit_eq [OF d] by simp
qed

lemma digits_eq:
  assumes "length xs = length ys" "list_all isDigit xs" "list_all isDigit ys"
  shows "xs = ys \<longleftrightarrow> numberOf xs = numberOf ys"
proof
  assume "numberOf xs = numberOf ys"
  then have "\<not> xs < ys" "\<not> ys < xs"
    using digits_less [OF assms] digits_less [OF assms(1) [symmetric] assms(3) assms(2)]
    by simp_all
  then show "xs = ys" by simp
qed simp

lemma append_less:
  "length xs = length ys \<Longrightarrow> xs @ us < ys @ vs \<longleftrightarrow> xs < ys \<or> xs = ys \<and> us < (vs :: 'a :: linorder list)"
  by (induction xs ys rule: list_induct2) auto


lemma validDate_shape:
  assumes "validDate s"
  shows "s = take 4 s @ CHR ''-'' # take 2 (drop 5 s) @ CHR ''-'' # drop 8 s"
proof -
  from assms have l: "length s = 10" and h: "s ! 4 = CHR ''-''" "s ! 7 = CHR ''-''"
    by (simp_all add: validDate_def parseDate_def split: if_splits)
  have "s = take 4 s @ s ! 4 # drop 5 s"
    using id_take_nth_drop [of 4 s] l by simp
  moreover have "drop 5 s = take 2 (drop 5 s) @ drop 5 s ! 2 # drop 3 (drop 5 s)"
    using id_take_nth_drop [of 2 "drop 5 s"] l by simp
  moreover have "drop 5 s ! 2 = s ! 7" using l by simp
  ultimately show ?thesis using h by simp
qed

lemma parseDate_less:
  assumes "parseDate s = Some a" "parseDate t = Some b"
  shows "s < t \<longleftrightarrow> ymdLess a b"
proof -
  have vs: "validDate s" and vt: "validDate t" using assms by (simp_all add: validDate_def)
  let ?Y = "take 4 s" and ?M = "take 2 (drop 5 s)" and ?D = "drop 8 s"
  let ?Y' = "take 4 t" and ?M' = "take 2 (drop 5 t)" and ?D' = "drop 8 t"
  from assms(1) have ls: "length s = 10" and ds: "list_all isDigit ?Y" "list_all isDigit ?M"
      "list_all isDigit ?D" and a: "a = (numberOf ?Y, numberOf ?M, numberOf ?D)"
    by (auto simp: parseDate_def Let_def split: if_splits)
  from assms(2) have lt: "length t = 10" and dt: "list_all isDigit ?Y'" "list_all isDigit ?M'"
      "list_all isDigit ?D'" and b: "b = (numberOf ?Y', numberOf ?M', numberOf ?D')"
    by (auto simp: parseDate_def Let_def split: if_splits)
  have lY: "length ?Y = length ?Y'" and lM: "length ?M = length ?M'"
    and lD: "length ?D = length ?D'"
    using ls lt by simp_all
  have "s < t \<longleftrightarrow> ?Y @ CHR ''-'' # ?M @ CHR ''-'' # ?D < ?Y' @ CHR ''-'' # ?M' @ CHR ''-'' # ?D'"
    using validDate_shape [OF vs] validDate_shape [OF vt] by simp
  also have "\<dots> \<longleftrightarrow> ?Y < ?Y' \<or> ?Y = ?Y' \<and> (?M < ?M' \<or> ?M = ?M' \<and> ?D < ?D')"
    by (simp add: append_less [OF lY] append_less [OF lM])
  also have "\<dots> \<longleftrightarrow> ymdLess a b"
    unfolding a b ymdLess_def
    using digits_less [OF lY ds(1) dt(1)] digits_less [OF lM ds(2) dt(2)]
      digits_less [OF lD ds(3) dt(3)] digits_eq [OF lY ds(1) dt(1)] digits_eq [OF lM ds(2) dt(2)]
    by simp
  finally show ?thesis .
qed

lemma parseDate_inj:
  assumes "parseDate s = Some a" "parseDate t = Some a"
  shows "s = t"
proof -
  have "\<not> ymdLess a a" by (auto simp: ymdLess_def)
  then have "\<not> s < t" "\<not> t < s"
    using parseDate_less [OF assms] parseDate_less [OF assms(2) assms(1)] by simp_all
  then show ?thesis by simp
qed

lemma getTime_less:
  assumes "validDate s" "validDate t"
  shows "s < t \<longleftrightarrow> the (getTime s) < the (getTime t)"
proof -
  from assms obtain y m d y' m' d' where
    p: "parseDate s = Some (y, m, d)" "parseDate t = Some (y', m', d')"
    by (auto simp: validDate_def)
  from p(1) have v: "1 \<le> m" "m \<le> 12" "1 \<le> d" "d \<le> daysInMonth y m"
    by (auto simp: parseDate_def Let_def split: if_splits)
  from p(2) have v': "1 \<le> m'" "m' \<le> 12" "1 \<le> d'" "d' \<le> daysInMonth y' m'"
    by (auto simp: parseDate_def Let_def split: if_splits)
  have g: "the (getTime s) = MakeDay y m d * msPerDay"
    "the (getTime t) = MakeDay y' m' d' * msPerDay"
    using p by (simp_all add: getTime_def)
  have lex: "s < t \<longleftrightarrow> ymdLess (y, m, d) (y', m', d')"
    by (rule parseDate_less [OF p])
  show ?thesis
  proof
    assume "s < t"
    then have "MakeDay y m d < MakeDay y' m' d'"
      using lex MakeDay_less [OF v v'] by (simp add: ymdLess_def)
    then show "the (getTime s) < the (getTime t)" by (simp add: g msPerDay_def)
  next
    assume r: "the (getTime s) < the (getTime t)"
    show "s < t"
    proof (rule ccontr)
      assume "\<not> s < t"
      then have "t < s \<or> t = s" by auto
      then show False
      proof
        assume "t < s"
        then have "ymdLess (y', m', d') (y, m, d)"
          using parseDate_less [OF p(2) p(1)] by simp
        then have "MakeDay y' m' d' < MakeDay y m d"
          using MakeDay_less [OF v' v] by (simp add: ymdLess_def)
        then show False using r by (simp add: g msPerDay_def)
      next
        assume "t = s"
        then show False using r by simp
      qed
    qed
  qed
qed

lemma getTime_le:
  assumes "validDate s" "validDate t"
  shows "s \<le> t \<longleftrightarrow> the (getTime s) \<le> the (getTime t)"
  using getTime_less [OF assms(2) assms(1)] by (simp add: not_less [symmetric])

lemma getTime_eq:
  assumes "validDate s" "validDate t"
  shows "s = t \<longleftrightarrow> the (getTime s) = the (getTime t)"
  using getTime_le [OF assms] getTime_le [OF assms(2) assms(1)] by auto

section \<open>Facts about the sort by date\<close>

lemma insertSorted_insort_key:
  "(\<And>y. y \<in> set ys \<Longrightarrow> positive (cmp x y) \<longleftrightarrow> \<not> k x \<le> (k y :: 'k :: linorder))
     \<Longrightarrow> insertSorted cmp x ys = insort_key k x ys"
  by (induction ys) auto

lemma sortArray_sort_key:
  "(\<And>x y. x \<in> set xs \<Longrightarrow> y \<in> set xs \<Longrightarrow> positive (cmp x y) \<longleftrightarrow> \<not> k x \<le> (k y :: 'k :: linorder))
     \<Longrightarrow> sortArray cmp xs = sort_key k xs"
proof (induction xs)
  case Nil
  show ?case by (simp add: sortArray_def)
next
  case (Cons x xs)
  have ih: "sortArray cmp xs = sort_key k xs"
    by (rule Cons.IH) (simp add: Cons.prems)
  have "insertSorted cmp x (sort_key k xs) = insort_key k x (sort_key k xs)"
    by (rule insertSorted_insort_key) (simp add: Cons.prems)
  then show ?case using ih by (simp add: sortArray_def)
qed

lemma byDateDesc_positive:
  assumes "validDate (date a)" "validDate (date b)"
  shows "positive (byDateDesc a b) \<longleftrightarrow> \<not> dateKey a \<le> dateKey b"
proof -
  from assms obtain ta tb where "getTime (date a) = Some ta" "getTime (date b) = Some tb"
    by (auto simp: validDate_def getTime_def split: option.splits)
  then show ?thesis by (auto simp: byDateDesc_def dateKey_def)
qed

lemma sortArray_byDateDesc:
  "datesValid xs \<Longrightarrow> sortArray byDateDesc xs = sort_key dateKey xs"
  by (rule sortArray_sort_key) (simp add: byDateDesc_positive datesValid_def list_all_iff)

lemma dateKey_le:
  "validDate (date a) \<Longrightarrow> validDate (date b) \<Longrightarrow> dateKey a \<le> dateKey b \<longleftrightarrow> date b \<le> date a"
  by (simp add: dateKey_def getTime_le)

lemma dateKey_eq:
  "validDate (date a) \<Longrightarrow> validDate (date b) \<Longrightarrow> dateKey a = dateKey b \<longleftrightarrow> date a = date b"
  by (simp add: dateKey_def getTime_eq)

lemma sorted_dateKey:
  assumes "datesValid xs"
  shows "sorted (map dateKey xs) \<longleftrightarrow> sorted_wrt (\<lambda>a b. date b \<le> date a) xs"
proof -
  have v: "\<And>e. e \<in> set xs \<Longrightarrow> validDate (date e)"
    using assms by (simp add: datesValid_def list_all_iff)
  have "sorted (map dateKey xs) \<longleftrightarrow> sorted_wrt (\<lambda>a b. dateKey a \<le> dateKey b) xs"
    by (simp add: sorted_wrt_map)
  also have "\<dots> \<longleftrightarrow> sorted_wrt (\<lambda>a b. date b \<le> date a) xs"
  proof
    assume "sorted_wrt (\<lambda>a b. dateKey a \<le> dateKey b) xs"
    then show "sorted_wrt (\<lambda>a b. date b \<le> date a) xs"
      by (rule sorted_wrt_mono_rel [rotated]) (simp add: v dateKey_le)
  next
    assume "sorted_wrt (\<lambda>a b. date b \<le> date a) xs"
    then show "sorted_wrt (\<lambda>a b. dateKey a \<le> dateKey b) xs"
      by (rule sorted_wrt_mono_rel [rotated]) (simp add: v dateKey_le)
  qed
  finally show ?thesis .
qed

lemma datesValid_filter: "datesValid xs \<Longrightarrow> datesValid (filter P xs)"
  by (simp add: datesValid_def list_all_iff)

lemma datesValid_sort: "datesValid xs \<Longrightarrow> datesValid (sortArray byDateDesc xs)"
  by (simp add: sortArray_byDateDesc) (simp add: datesValid_def list_all_iff)

lemma sortArray_sorted:
  "datesValid xs \<Longrightarrow> sorted_wrt (\<lambda>a b. date b \<le> date a) (sortArray byDateDesc xs)"
  using sorted_dateKey [OF datesValid_sort, of xs] by (simp add: sortArray_byDateDesc)

lemma sortArray_mset: "datesValid xs \<Longrightarrow> mset (sortArray byDateDesc xs) = mset xs"
  by (simp add: sortArray_byDateDesc)

lemma sortArray_set: "datesValid xs \<Longrightarrow> set (sortArray byDateDesc xs) = set xs"
  by (simp add: sortArray_byDateDesc)

lemma sortArray_filter:
  "datesValid xs \<Longrightarrow> filter P (sortArray byDateDesc xs) = sortArray byDateDesc (filter P xs)"
  by (simp add: sortArray_byDateDesc datesValid_filter filter_sort)

lemma sortArray_stable:
  assumes "datesValid xs"
  shows "filter (\<lambda>e. date e = d) (sortArray byDateDesc xs) = filter (\<lambda>e. date e = d) xs"
proof (cases "\<exists>a\<in>set xs. date a = d")
  case True
  then obtain a where a: "a \<in> set xs" "date a = d" by blast
  have v: "\<And>e. e \<in> set xs \<Longrightarrow> validDate (date e)"
    using assms by (simp add: datesValid_def list_all_iff)
  have k: "(date e = d) = (dateKey e = dateKey a)" if "e \<in> set xs" for e
    using dateKey_eq [OF v [OF that] v [OF a(1)]] a(2) by simp
  have "filter (\<lambda>e. date e = d) (sort_key dateKey xs)
      = filter (\<lambda>e. dateKey e = dateKey a) (sort_key dateKey xs)"
    by (rule filter_cong) (simp_all add: k)
  also have "\<dots> = filter (\<lambda>e. dateKey e = dateKey a) xs"
    by (rule sort_key_stable)
  also have "\<dots> = filter (\<lambda>e. date e = d) xs"
    by (rule filter_cong) (simp_all add: k)
  finally show ?thesis by (simp add: sortArray_byDateDesc assms)
next
  case False
  then have "filter (\<lambda>e. date e = d) xs = []" by (simp add: filter_empty_conv)
  moreover have "filter (\<lambda>e. date e = d) (sortArray byDateDesc xs) = []"
    using False by (simp add: filter_empty_conv sortArray_set assms)
  ultimately show ?thesis by simp
qed

lemma sortArray_id:
  assumes "datesValid xs" "sorted_wrt (\<lambda>a b. date b \<le> date a) xs"
  shows "sortArray byDateDesc xs = xs"
  using assms sorted_dateKey [OF assms(1)]
  by (simp add: sortArray_byDateDesc sort_key_id_if_sorted)

lemma sortArray_idem:
  "datesValid xs \<Longrightarrow> sortArray byDateDesc (sortArray byDateDesc xs) = sortArray byDateDesc xs"
  by (rule sortArray_id) (simp_all add: datesValid_sort sortArray_sorted)

lemma mset_insertSorted: "mset (insertSorted cmp x ys) = add_mset x (mset ys)"
  by (induction ys) auto

lemma mset_sortArray: "mset (sortArray cmp xs) = mset xs"
  by (induction xs) (simp_all add: sortArray_def mset_insertSorted)

lemma set_sortArray: "set (sortArray cmp xs) = set xs"
  using mset_sortArray [of cmp xs] by (metis set_mset_mset)

lemma length_sortArray: "length (sortArray cmp xs) = length xs"
  using mset_sortArray [of cmp xs] by (metis size_mset)


section \<open>Facts about the filters\<close>

lemma stage_string:
  "(if truthy s then filter (\<lambda>e. P (the s) e) xs else xs)
     = filter (\<lambda>e. whenNonEmpty s (\<lambda>v. P v e)) xs"
  by (cases s) auto

lemma stage_number:
  "(if v \<noteq> None then filter (\<lambda>e. P (the v) e) xs else xs)
     = filter (\<lambda>e. whenPresent v (\<lambda>w. P w e)) xs"
  by (cases v) auto

lemma narrowExpenses_filter: "narrowExpenses f xs = filter (narrows f) xs"
proof -
  have 1: "(if truthy (startDate f) then filter (\<lambda>e. the (startDate f) \<le> date e) ys else ys)
      = filter (\<lambda>e. whenNonEmpty (startDate f) (\<lambda>s. s \<le> date e)) ys" for ys :: "Expense list"
    by (rule stage_string [of _ "\<lambda>s e. s \<le> date e"])
  have 2: "(if truthy (endDate f) then filter (\<lambda>e. date e \<le> the (endDate f)) ys else ys)
      = filter (\<lambda>e. whenNonEmpty (endDate f) (\<lambda>s. date e \<le> s)) ys" for ys :: "Expense list"
    by (rule stage_string [of _ "\<lambda>s e. date e \<le> s"])
  have 3: "(if truthy (categoryF f)
            then filter (\<lambda>e. toLowerCase (category e) = toLowerCase (the (categoryF f))) ys
            else ys)
      = filter (\<lambda>e. whenNonEmpty (categoryF f) (\<lambda>c. toLowerCase (category e) = toLowerCase c)) ys"
    for ys :: "Expense list"
    by (rule stage_string [of _ "\<lambda>c e. toLowerCase (category e) = toLowerCase c"])
  have 4: "(if minAmount f \<noteq> None then filter (\<lambda>e. the (minAmount f) \<le> amount e) ys else ys)
      = filter (\<lambda>e. whenPresent (minAmount f) (\<lambda>v. v \<le> amount e)) ys" for ys :: "Expense list"
    by (rule stage_number [of _ "\<lambda>v e. v \<le> amount e"])
  have 5: "(if maxAmount f \<noteq> None then filter (\<lambda>e. amount e \<le> the (maxAmount f)) ys else ys)
      = filter (\<lambda>e. whenPresent (maxAmount f) (\<lambda>v. amount e \<le> v)) ys" for ys :: "Expense list"
    by (rule stage_number [of _ "\<lambda>v e. amount e \<le> v"])
  show ?thesis
    unfolding narrowExpenses_def Let_def 1 2 3 4 5 filter_filter
    by (rule filter_cong) (auto simp: narrows_def)
qed

lemma filterE_matchesSearch:
  "filterE (matchesSearch q) xs =
     (if described xs then Inr (filter (\<lambda>e. matchesSearch q e = Inr True) xs) else Inl TypeError)"
proof (induction xs)
  case Nil
  show ?case by (simp add: described_def)
next
  case (Cons x xs)
  show ?case
  proof (cases "description x")
    case None
    then show ?thesis by (simp add: matchesSearch_def described_def)
  next
    case (Some d)
    then show ?thesis using Cons by (auto simp: matchesSearch_def described_def)
  qed
qed

lemma matchesSearch_hit:
  "description e \<noteq> None \<Longrightarrow> matchesSearch (toLowerCase q) e = Inr True \<longleftrightarrow> searchHit q e"
  by (auto simp: matchesSearch_def searchHit_def)

lemma matchesSearchApi_hit: "matchesSearchApi (toLowerCase q) e = searchHit q e"
  by (simp add: matchesSearchApi_def searchHit_def)

lemma satisfies_narrows:
  "satisfies f e \<longleftrightarrow> narrows f e \<and> whenNonEmpty (searchQuery f) (\<lambda>q. searchHit q e)"
  by (auto simp: satisfies_def narrows_def)

lemma described_filter: "described xs \<Longrightarrow> described (filter P xs)"
  by (simp add: described_def list_all_iff)

lemma satisfiesOpt_Some: "satisfiesOpt (Some f) = satisfies f"
  by (rule ext) simp

lemma getExpenses_described:
  assumes "described xs"
  shows "getExpenses xs flt = Inr (sortArray byDateDesc (filter (satisfiesOpt flt) xs))"
proof (cases flt)
  case None
  then show ?thesis by (simp add: getExpenses_def)
next
  case (Some f)
  show ?thesis
  proof (cases "truthy (searchQuery f)")
    case False
    then have "\<And>e. whenNonEmpty (searchQuery f) (\<lambda>q. searchHit q e)"
      by (cases "searchQuery f") auto
    then have "filter (satisfies f) xs = filter (narrows f) xs"
      by (intro filter_cong) (simp_all add: satisfies_narrows)
    then show ?thesis using Some False
      by (simp add: getExpenses_def narrowExpenses_filter satisfiesOpt_Some)
  next
    case True
    then obtain q where q: "searchQuery f = Some q" "q \<noteq> []"
      by (cases "searchQuery f") auto
    have d: "described (filter (narrows f) xs)" using assms by (rule described_filter)
    have "filter (\<lambda>e. matchesSearch (toLowerCase q) e = Inr True) (filter (narrows f) xs)
        = filter (satisfies f) xs"
      unfolding filter_filter
    proof (rule filter_cong [OF refl])
      fix e assume "e \<in> set xs"
      then have "description e \<noteq> None" using assms by (simp add: described_def list_all_iff)
      then show "(narrows f e \<and> matchesSearch (toLowerCase q) e = Inr True) = satisfies f e"
        using q by (simp add: satisfies_narrows matchesSearch_hit)
    qed
    then show ?thesis using Some True q d
      by (simp add: getExpenses_def narrowExpenses_filter filterE_matchesSearch satisfiesOpt_Some)
  qed
qed


lemma toLowerCase_empty: "toLowerCase q = [] \<longleftrightarrow> q = []"
  by (simp add: toLowerCase_def)

lemma includes_empty: "includes' [] q \<longleftrightarrow> q = []"
  by simp

lemma startsWith_iff: "startsWith s q \<longleftrightarrow> (\<exists>r. s = q @ r)"
  by (induction s q rule: startsWith.induct) auto

lemma includes_iff: "includes' s q \<longleftrightarrow> (\<exists>p r. s = p @ q @ r)"
proof (induction s)
  case Nil
  show ?case by simp
next
  case (Cons c s)
  have "(\<exists>p r. c # s = p @ q @ r) \<longleftrightarrow> (\<exists>r. c # s = q @ r) \<or> (\<exists>p r. s = p @ q @ r)"
  proof
    assume "\<exists>p r. c # s = p @ q @ r"
    then obtain p r where h: "c # s = p @ q @ r" by blast
    show "(\<exists>r. c # s = q @ r) \<or> (\<exists>p r. s = p @ q @ r)"
    proof (cases p)
      case Nil
      then show ?thesis using h by auto
    next
      case (Cons a p')
      then have "s = p' @ q @ r" using h by simp
      then show ?thesis by blast
    qed
  next
    assume "(\<exists>r. c # s = q @ r) \<or> (\<exists>p r. s = p @ q @ r)"
    then show "\<exists>p r. c # s = p @ q @ r"
    proof
      assume "\<exists>r. c # s = q @ r"
      then obtain r where "c # s = [] @ q @ r" by auto
      then show ?thesis by blast
    next
      assume "\<exists>p r. s = p @ q @ r"
      then obtain p r where "c # s = (c # p) @ q @ r" by auto
      then show ?thesis by blast
    qed
  qed
  then show ?case using Cons by (simp add: startsWith_iff)
qed

lemma described_sort: "described (sortArray cmp xs) = described xs"
  by (simp add: described_def list_all_iff set_sortArray)

lemma getExpenses_cases:
  "getExpenses xs (Some f) =
     (if truthy (searchQuery f) \<and> \<not> described (filter (narrows f) xs) then Inl TypeError
      else Inr (sortArray byDateDesc (filter (keeps f) xs)))"
proof (cases "truthy (searchQuery f)")
  case False
  then have "filter (keeps f) xs = filter (narrows f) xs"
    by (intro filter_cong) (simp_all add: keeps_def)
  then show ?thesis using False by (simp add: getExpenses_def narrowExpenses_filter)
next
  case True
  have "filter (\<lambda>e. matchesSearch (toLowerCase (the (searchQuery f))) e = Inr True)
      (filter (narrows f) xs) = filter (keeps f) xs"
    unfolding filter_filter using True by (intro filter_cong) (simp_all add: keeps_def)
  then show ?thesis using True
    by (simp add: getExpenses_def narrowExpenses_filter filterE_matchesSearch)
qed

lemma keeps_described:
  "truthy (searchQuery f) \<Longrightarrow> described (filter (keeps f) xs)"
  by (auto simp: described_def list_all_iff keeps_def matchesSearch_def split: option.splits)

section \<open>Facts about the results of the two filters\<close>

lemma satisfiesIncomeOpt_Some: "satisfiesIncomeOpt (Some f) = satisfiesIncome f"
  by (rule ext) simp

lemma getIncome_filter:
  "getIncome xs flt = sortArray byDateDesc (filter (satisfiesIncomeOpt flt) xs)"
proof (cases flt)
  case None
  then show ?thesis by (simp add: getIncome_def)
next
  case (Some f)
  have 1: "(if truthy (startDate f) then filter (\<lambda>i. the (startDate f) \<le> date i) ys else ys)
      = filter (\<lambda>i. whenNonEmpty (startDate f) (\<lambda>s. s \<le> date i)) ys" for ys :: "Income list"
    by (rule stage_string [of _ "\<lambda>s i. s \<le> date i"])
  have 2: "(if truthy (endDate f) then filter (\<lambda>i. date i \<le> the (endDate f)) ys else ys)
      = filter (\<lambda>i. whenNonEmpty (endDate f) (\<lambda>s. date i \<le> s)) ys" for ys :: "Income list"
    by (rule stage_string [of _ "\<lambda>s i. date i \<le> s"])
  have 3: "(if truthy (sourceF f)
            then filter (\<lambda>i. toLowerCase (sourceName (source i)) = toLowerCase (the (sourceF f))) ys
            else ys)
      = filter (\<lambda>i. whenNonEmpty (sourceF f)
                        (\<lambda>s. toLowerCase (sourceName (source i)) = toLowerCase s)) ys"
    for ys :: "Income list"
    by (rule stage_string [of _ "\<lambda>s i. toLowerCase (sourceName (source i)) = toLowerCase s"])
  have 4: "(if minAmount f \<noteq> None then filter (\<lambda>i. the (minAmount f) \<le> amount i) ys else ys)
      = filter (\<lambda>i. whenPresent (minAmount f) (\<lambda>v. v \<le> amount i)) ys" for ys :: "Income list"
    by (rule stage_number [of _ "\<lambda>v i. v \<le> amount i"])
  have 5: "(if maxAmount f \<noteq> None then filter (\<lambda>i. amount i \<le> the (maxAmount f)) ys else ys)
      = filter (\<lambda>i. whenPresent (maxAmount f) (\<lambda>v. amount i \<le> v)) ys" for ys :: "Income list"
    by (rule stage_number [of _ "\<lambda>v i. amount i \<le> v"])
  have "getIncome xs (Some f) = sortArray byDateDesc (filter (satisfiesIncome f) xs)"
    unfolding getIncome_def option.case Let_def 1 2 3 4 5
    unfolding filter_filter
    by (rule arg_cong [where f = "sortArray byDateDesc"], rule filter_cong)
       (auto simp: satisfiesIncome_def)
  then show ?thesis using Some by (simp add: satisfiesIncomeOpt_Some)
qed

lemma getExpenses_Inr:
  assumes "getExpenses xs flt = Inr result"
  shows "result = sortArray byDateDesc (filter (satisfiesOpt flt) xs)"
proof (cases flt)
  case None
  then show ?thesis using assms by (simp add: getExpenses_def)
next
  case (Some f)
  have c: "\<not> (truthy (searchQuery f) \<and> \<not> described (filter (narrows f) xs))"
    and r: "result = sortArray byDateDesc (filter (keeps f) xs)"
    using assms Some by (auto simp: getExpenses_cases split: if_splits)
  have "filter (keeps f) xs = filter (satisfies f) xs"
  proof (rule filter_cong [OF refl])
    fix e assume e: "e \<in> set xs"
    show "keeps f e = satisfies f e"
    proof (cases "searchQuery f")
      case None
      then show ?thesis by (simp add: keeps_def satisfies_narrows)
    next
      case (Some q)
      show ?thesis
      proof (cases "q = []")
        case True
        then show ?thesis using Some by (simp add: keeps_def satisfies_narrows)
      next
        case False
        then have t: "truthy (searchQuery f)" using Some by simp
        then have d: "described (filter (narrows f) xs)" using c by simp
        show ?thesis
        proof (cases "narrows f e")
          case True
          then have "description e \<noteq> None"
            using d e by (simp add: described_def list_all_iff)
          then show ?thesis
            using True Some False by (simp add: keeps_def satisfies_narrows matchesSearch_hit)
        next
          case False
          then show ?thesis by (simp add: keeps_def satisfies_narrows)
        qed
      qed
    qed
  qed
  then show ?thesis using r Some by (simp add: satisfiesOpt_Some)
qed

section \<open>Facts about the dictionaries\<close>

lemma validDate_hyphen: "validDate d \<Longrightarrow> length d = 10 \<and> d ! 4 = CHR ''-''"
  by (simp add: validDate_def parseDate_def split: if_splits)

lemma validDate_own: "validDate d \<Longrightarrow> d \<notin> set objectPrototype"
  using validDate_hyphen [of d] by (auto simp: objectPrototype_def)

lemma member_length_7: "k \<in> set objectPrototype \<Longrightarrow> length k = 7 \<Longrightarrow> k = ''valueOf''"
  by (auto simp: objectPrototype_def)

lemma validDate_month_own:
  assumes "validDate d"
  shows "take 7 d \<notin> set objectPrototype"
proof
  assume m: "take 7 d \<in> set objectPrototype"
  have l: "length (take 7 d) = 7" and h: "take 7 d ! 4 = CHR ''-''"
    using validDate_hyphen [OF assms] by simp_all
  from m l have "take 7 d = ''valueOf''" by (rule member_length_7)
  then show False using h by simp
qed

lemma isArrayIndex_digit: "isArrayIndex k \<Longrightarrow> n < length k \<Longrightarrow> isDigit (k ! n)"
  by (simp add: isArrayIndex_def list_all_length)

lemma hyphen_no_digit: "\<not> isDigit CHR ''-''"
  by (simp add: isDigit_def less_eq_char_def)

lemma validDate_not_index: "validDate d \<Longrightarrow> \<not> isArrayIndex d"
  using validDate_hyphen [of d] isArrayIndex_digit [of d 4] hyphen_no_digit by auto

lemma validDate_month_not_index: "validDate d \<Longrightarrow> \<not> isArrayIndex (take 7 d)"
  using validDate_hyphen [of d] isArrayIndex_digit [of "take 7 d" 4] hyphen_no_digit by auto

lemma entries_id:
  assumes "\<forall>k\<in>set (map fst obj). \<not> isArrayIndex k"
  shows "entries obj = obj"
proof -
  have "filter (\<lambda>(k, v). isArrayIndex k) obj = []"
    using assms by (auto simp: filter_empty_conv)
  moreover have "filter (\<lambda>(k, v). \<not> isArrayIndex k) obj = obj"
    using assms by (auto simp: filter_id_conv)
  ultimately show ?thesis by (simp add: entries_def)
qed

lemma mset_entries: "mset (entries obj) = mset obj"
proof -
  have "mset (entries obj)
      = filter_mset (\<lambda>(k, v). isArrayIndex k) (mset obj)
        + filter_mset (\<lambda>(k, v). \<not> isArrayIndex k) (mset obj)"
    by (simp add: entries_def)
  also have "\<dots> = mset obj"
    using multiset_partition [of "mset obj" "\<lambda>(k, v). isArrayIndex k"]
    by (simp add: case_prod_beta)
  finally show ?thesis .
qed

lemma set_entries: "set (entries obj) = set obj"
  using mset_entries [of obj] by (metis set_mset_mset)

lemma length_entries: "length (entries obj) = length obj"
  using mset_entries [of obj] by (metis size_mset)

lemma distinct_keys_entries: "distinct (map fst (entries obj)) = distinct (map fst obj)"
proof -
  have "mset (map fst (entries obj)) = mset (map fst obj)"
    by (simp add: mset_entries)
  then show ?thesis by (rule mset_eq_imp_distinct_iff)
qed

lemma sum_list_entries:
  "sum_list (map f (entries obj)) = sum_list (map (f :: string \<times> 'v \<Rightarrow> real) obj)"
proof -
  have "mset (map f (entries obj)) = mset (map f obj)"
    by (simp add: mset_entries)
  then show ?thesis by (metis sum_mset_sum_list)
qed

section \<open>Facts about the grouping loops\<close>

lemma upsert_member: "k \<in> set objectPrototype \<Longrightarrow> upsert obj k z f = obj"
  by (simp add: upsert_def)

lemma upsert_map_of:
  "k \<notin> set objectPrototype \<Longrightarrow>
   map_of (upsert obj k z f) = (map_of obj)(k \<mapsto> f (case map_of obj k of None \<Rightarrow> z | Some v \<Rightarrow> v))"
  by (auto simp: upsert_def Let_def update_conv')

lemma upsert_keys:
  "k \<notin> set objectPrototype \<Longrightarrow>
   map fst (upsert obj k z f) = (if k \<in> set (map fst obj) then map fst obj else map fst obj @ [k])"
  by (auto simp: upsert_def Let_def update_keys dom_update map_of_eq_None_iff)

lemma upsert_dom:
  assumes "k \<notin> set objectPrototype"
  shows "fst ` set (upsert obj k z f) = insert k (fst ` set obj)"
proof -
  have "set (map fst (upsert obj k z f)) = insert k (set (map fst obj))"
    unfolding upsert_keys [OF assms] by auto
  then show ?thesis by simp
qed

lemma grouped_keys:
  "\<forall>x\<in>set xs. key x \<notin> set objectPrototype \<Longrightarrow>
   set (map fst (grouped key z step obj xs)) = set (map fst obj) \<union> key ` set xs"
  unfolding grouped_def
proof (induction xs arbitrary: obj)
  case Nil
  show ?case by simp
next
  case (Cons x xs)
  have "set (map fst (upsert obj (key x) z (step x))) = insert (key x) (set (map fst obj))"
    using upsert_dom [of "key x" obj z "step x"] Cons.prems by simp
  then show ?case using Cons.IH [of "upsert obj (key x) z (step x)"] Cons.prems by auto
qed

lemma grouped_dom:
  "\<forall>x\<in>set xs. key x \<notin> set objectPrototype \<Longrightarrow>
   fst ` set (grouped key z step obj xs) = fst ` set obj \<union> key ` set xs"
  using grouped_keys [of xs key z step obj] by simp

lemma upsert_distinct: "distinct (map fst obj) \<Longrightarrow> distinct (map fst (upsert obj k z f))"
  by (cases "k \<in> set objectPrototype") (auto simp: upsert_member upsert_keys)

lemma grouped_distinct:
  "distinct (map fst obj) \<Longrightarrow> distinct (map fst (grouped key z step obj xs))"
  unfolding grouped_def
  by (induction xs arbitrary: obj) (simp_all add: upsert_distinct)

lemma filter_no_key: "k \<notin> key ` set xs \<Longrightarrow> filter (\<lambda>x. key x = k) xs = []"
  by (auto simp: filter_empty_conv)

lemma grouped_map_of:
  "\<forall>x\<in>set xs. key x \<notin> set objectPrototype \<Longrightarrow>
   map_of (grouped key z step obj xs) k =
     (if k \<in> key ` set xs
      then Some (foldl (\<lambda>v x. step x v) (case map_of obj k of None \<Rightarrow> z | Some v \<Rightarrow> v)
                   (filter (\<lambda>x. key x = k) xs))
      else map_of obj k)"
  unfolding grouped_def
proof (induction xs arbitrary: obj)
  case Nil
  show ?case by simp
next
  case (Cons x xs)
  have own: "key x \<notin> set objectPrototype" and rest: "\<forall>x\<in>set xs. key x \<notin> set objectPrototype"
    using Cons.prems by simp_all
  note ih = Cons.IH [OF rest]
  show ?case
  proof (cases "k \<in> key ` set xs")
    case True
    then show ?thesis by (auto simp: ih upsert_map_of [OF own])
  next
    case False
    then show ?thesis using filter_no_key [OF False]
      by (auto simp: ih upsert_map_of [OF own])
  qed
qed

section \<open>Facts about the summaries\<close>

lemma foldl_amounts: "foldl (\<lambda>sum e. sum + amount e) a xs = a + sum_list (map amount xs)"
  by (induction xs arbitrary: a) simp_all

lemma foldl_pair:
  "foldl (\<lambda>(c, m) e. (F c e, G m e)) (c0, m0) xs = (foldl F c0 xs, foldl G m0 xs)"
  by (induction xs arbitrary: c0 m0) simp_all

lemma orZero_Some: "orZero (Some x) = x"
  by (cases x) (simp_all add: orZero_def)

lemma orZero_None: "orZero None = Val 0"
  by (simp add: orZero_def)

lemma getProp_own: "k \<notin> set objectPrototype \<Longrightarrow> getProp obj k = map_of obj k"
  by (simp add: getProp_def split: option.splits)

lemma own_not_proto: "k \<notin> set objectPrototype \<Longrightarrow> k \<noteq> ''__proto__''"
  by (auto simp: objectPrototype_def)

lemma addTo_own:
  assumes "k \<notin> set objectPrototype"
  shows "addTo obj k v
     = AList.update k (jsPlus (case map_of obj k of None \<Rightarrow> Val 0 | Some x \<Rightarrow> x) v) obj"
proof -
  have "orZero (map_of obj k) = (case map_of obj k of None \<Rightarrow> Val 0 | Some x \<Rightarrow> x)"
    by (cases "map_of obj k") (simp_all add: orZero_None orZero_Some)
  then show ?thesis
    using own_not_proto [OF assms] by (simp add: addTo_def getProp_own [OF assms] Let_def)
qed

lemma addTo_upsert:
  assumes "k \<notin> set objectPrototype"
  shows "addTo obj k v = upsert obj k (Val 0) (\<lambda>x. jsPlus x v)"
proof (cases "map_of obj k")
  case None
  then show ?thesis using assms by (simp add: addTo_own upsert_def update_conv')
next
  case (Some x)
  then show ?thesis using assms by (simp add: addTo_own upsert_def)
qed

lemma totalsBy_grouped:
  assumes "\<forall>x\<in>set xs. key x \<notin> set objectPrototype"
  shows "totalsBy key val obj xs = grouped key (Val 0) (\<lambda>x v. jsPlus v (val x)) obj xs"
  unfolding totalsBy_def grouped_def
  by (rule foldl_cong [OF refl refl]) (simp add: addTo_upsert assms)

lemma foldl_jsPlus:
  "foldl (\<lambda>v x. jsPlus v (val x)) (Val a) xs = Val (a + sum_list (map val xs))"
  by (induction xs arbitrary: a) simp_all

lemma addTo_distinct: "distinct (map fst obj) \<Longrightarrow> distinct (map fst (addTo obj k v))"
  by (simp add: addTo_def Let_def distinct_update)

lemma totalsBy_distinct_from:
  "distinct (map fst obj) \<Longrightarrow> distinct (map fst (totalsBy key val obj xs))"
  unfolding totalsBy_def
  by (induction xs arbitrary: obj) (simp_all add: addTo_distinct)

lemma totalsBy_distinct: "distinct (map fst (totalsBy key val [] xs))"
  by (rule totalsBy_distinct_from) simp

lemma totalsBy_dom:
  "\<forall>x\<in>set xs. key x \<notin> set objectPrototype \<Longrightarrow>
   fst ` set (totalsBy key val [] xs) = key ` set xs"
  by (simp add: totalsBy_grouped grouped_dom)

lemma totalsBy_value:
  assumes "(k, v) \<in> set (totalsBy key val [] xs)"
    and own: "\<forall>x\<in>set xs. key x \<notin> set objectPrototype"
  shows "v = Val (sum_list (map val (filter (\<lambda>x. key x = k) xs)))"
proof -
  have "map_of (totalsBy key val [] xs) k = Some v"
    by (rule map_of_is_SomeI [OF totalsBy_distinct assms(1)])
  then show ?thesis
    unfolding totalsBy_grouped [OF own] grouped_map_of [OF own]
    by (simp add: foldl_jsPlus split: if_splits)
qed

lemma update_numbers:
  assumes "\<forall>p\<in>set obj. \<exists>r. snd p = Val r"
  shows "(\<forall>p\<in>set (AList.update k
              (jsPlus (case map_of obj k of None \<Rightarrow> Val 0 | Some x \<Rightarrow> x) v) obj).
            \<exists>r. snd p = Val r)
       \<and> sum_list (map (\<lambda>p. the (toNumber (snd p)))
            (AList.update k (jsPlus (case map_of obj k of None \<Rightarrow> Val 0 | Some x \<Rightarrow> x) v) obj))
         = sum_list (map (\<lambda>p. the (toNumber (snd p))) obj) + v"
  using assms
proof (induction obj)
  case Nil
  show ?case by simp
next
  case (Cons p obj)
  obtain k' r where p: "p = (k', Val r)" using Cons.prems by (cases p) auto
  have rest: "\<forall>p\<in>set obj. \<exists>r. snd p = Val r" using Cons.prems by simp
  show ?case
  proof (cases "k' = k")
    case True
    then show ?thesis using rest by (simp add: p)
  next
    case False
    then show ?thesis using Cons.IH [OF rest] by (simp add: p)
  qed
qed

lemma sum_totalsBy:
  assumes "\<forall>x\<in>set xs. key x \<notin> set objectPrototype" "\<forall>p\<in>set obj. \<exists>r. snd p = Val r"
  shows "(\<forall>p\<in>set (totalsBy key val obj xs). \<exists>r. snd p = Val r)
       \<and> sum_list (map (\<lambda>p. the (toNumber (snd p))) (totalsBy key val obj xs))
         = sum_list (map (\<lambda>p. the (toNumber (snd p))) obj) + sum_list (map val xs)"
  using assms unfolding totalsBy_def
proof (induction xs arbitrary: obj)
  case Nil
  then show ?case by simp
next
  case (Cons x xs)
  have own: "key x \<notin> set objectPrototype" and rest: "\<forall>x\<in>set xs. key x \<notin> set objectPrototype"
    using Cons.prems(1) by simp_all
  note step = update_numbers [OF Cons.prems(2), of "key x" "val x"]
  have n: "\<forall>p\<in>set (addTo obj (key x) (val x)). \<exists>r. snd p = Val r"
    and s: "sum_list (map (\<lambda>p. the (toNumber (snd p))) (addTo obj (key x) (val x)))
         = sum_list (map (\<lambda>p. the (toNumber (snd p))) obj) + val x"
    using step unfolding addTo_own [OF own] by blast+
  show ?case using Cons.IH [OF rest n] s by simp
qed

lemma totalsBy_sum:
  assumes "\<forall>x\<in>set xs. key x \<notin> set objectPrototype"
  shows "sum_list (map (\<lambda>p. the (toNumber (snd p))) (totalsBy key val [] xs))
     = sum_list (map val xs)"
  using sum_totalsBy [OF assms, of "[]" val] by simp

lemma totalsBy_numbers:
  assumes "\<forall>x\<in>set xs. key x \<notin> set objectPrototype"
  shows "\<forall>p\<in>set (totalsBy key val [] xs). \<exists>r. snd p = Val r"
  using sum_totalsBy [OF assms, of "[]" val] by simp

lemma totalsBy_Nil: "totalsBy key val obj [] = obj"
  by (simp add: totalsBy_def)

lemma getExpenseSummary_Inr:
  assumes "getExpenses expenses flt = Inr filtered"
  shows "getExpenseSummary expenses flt =
     Inr \<lparr>totalExpenses = sum_list (map amount filtered),
          averageExpense = (if filtered = [] then Some 0
             else Some (sum_list (map amount filtered) / real (length filtered))),
          expenseCount = length filtered,
          byCategory = totalsBy category amount [] filtered,
          byMonth = totalsBy (\<lambda>e. take 7 (date e)) amount [] filtered\<rparr>"
  using assms
  by (simp add: getExpenseSummary_def Let_def foldl_amounts foldl_pair totalsBy_def jsDivide_def)

lemma getExpenseSummary_Inl:
  "getExpenses expenses flt = Inl err \<Longrightarrow> getExpenseSummary expenses flt = Inl err"
  by (simp add: getExpenseSummary_def)

lemma getIncomeSummary_eq:
  "getIncomeSummary incomeData flt =
     (let filtered = getIncome incomeData flt in
      \<lparr>totalIncome = sum_list (map amount filtered),
       averageIncome = (if filtered = [] then Some 0
          else Some (sum_list (map amount filtered) / real (length filtered))),
       incomeCount = length filtered,
       bySource = totalsBy (\<lambda>i. sourceName (source i)) amount [] filtered,
       byMonthI = totalsBy (\<lambda>i. take 7 (date i)) amount [] filtered\<rparr>)"
  by (simp add: getIncomeSummary_def Let_def foldl_amounts foldl_pair totalsBy_def jsDivide_def)

lemma getExpenses_empty: "getExpenses [] flt = Inr []"
  by (cases flt) (simp_all add: getExpenses_def narrowExpenses_def sortArray_def Let_def)

lemma getExpenses_total:
  "(\<exists>filtered. getExpenses expenses flt = Inr filtered)
   \<or> (getExpenses expenses flt = Inl TypeError \<and> \<not> described expenses)"
proof (cases "getExpenses expenses flt")
  case (Inl err)
  have "\<not> described expenses"
  proof
    assume "described expenses"
    then show False using Inl by (simp add: getExpenses_described)
  qed
  then show ?thesis using Inl by (cases err) simp
next
  case (Inr filtered)
  then show ?thesis by simp
qed

lemma sum_list_sortArray:
  "sum_list (map f (sortArray cmp xs)) = sum_list (map (f :: 'a \<Rightarrow> real) xs)"
proof -
  have "sum_list (map f (sortArray cmp xs)) = sum_mset (image_mset f (mset (sortArray cmp xs)))"
    by (metis mset_map sum_mset_sum_list)
  also have "\<dots> = sum_mset (image_mset f (mset xs))" by (simp add: mset_sortArray)
  also have "\<dots> = sum_list (map f xs)" by (metis mset_map sum_mset_sum_list)
  finally show ?thesis .
qed

lemma sum_list_percent:
  "sum_list (map (\<lambda>x. f x / t * 100) xs) = sum_list (map f xs) / (t :: real) * 100"
  by (induction xs) (simp_all add: add_divide_distrib distrib_right)

lemma getIncome_empty: "getIncome [] flt = []"
  by (simp add: getIncome_filter sortArray_def)

lemma getSpendingByCategory_Inr:
  assumes "getExpenses expenses flt = Inr filtered"
  shows "getSpendingByCategory expenses flt =
     Inr (sortArray (\<lambda>a b. jsMinus (amountS b) (amountS a))
            (map (\<lambda>(c, a).
                    \<lparr>categoryS = c, amountS = a,
                     percentage = (if sum_list (map amount filtered) > 0
                        then times100 (jsQuotient a (sum_list (map amount filtered)))
                        else Some 0),
                     color = colorOf c\<rparr>)
               (entries (totalsBy category amount [] filtered))))"
  using assms by (simp add: getSpendingByCategory_def getExpenseSummary_Inr Let_def)

lemma percentage_of_entry:
  assumes "getExpenses expenses flt = Inr filtered"
    and "getSpendingByCategory expenses flt = Inr result" "x \<in> set result"
  shows "percentage x = (if sum_list (map amount filtered) > 0
            then times100 (jsQuotient (amountS x) (sum_list (map amount filtered)))
            else Some 0)"
  using assms(2,3) unfolding getSpendingByCategory_Inr [OF assms(1)]
  by (auto simp: set_sortArray)

lemma jsQuotient_Val: "t \<noteq> 0 \<Longrightarrow> times100 (jsQuotient (Val a) t) = Some (a / t * 100)"
  by (simp add: jsQuotient_def jsDivide_def times100_def)

lemma jsQuotient_None: "t \<noteq> 0 \<Longrightarrow> times100 (jsQuotient x t) = None \<longleftrightarrow> toNumber x = None"
  by (cases "toNumber x") (simp_all add: jsQuotient_def jsDivide_def times100_def)

lemma getBalanceSummary_Inr:
  assumes "getExpenses expenses expenseFilter = Inr filtered"
  shows "getBalanceSummary expenses incomeData expenseFilter incomeFilter =
     Inr \<lparr>totalIncomeB = totalIncome (getIncomeSummary incomeData incomeFilter),
          totalExpensesB = sum_list (map amount filtered),
          balance = totalIncome (getIncomeSummary incomeData incomeFilter)
             - sum_list (map amount filtered),
          savingsRate = (if 0 < totalIncome (getIncomeSummary incomeData incomeFilter)
             then Some ((totalIncome (getIncomeSummary incomeData incomeFilter)
                          - sum_list (map amount filtered))
                        / totalIncome (getIncomeSummary incomeData incomeFilter) * 100)
             else Some 0)\<rparr>"
  using assms
  by (simp add: getBalanceSummary_def getExpenseSummary_Inr Let_def jsDivide_def times100_def)

section \<open>Facts about the sort with a comparator\<close>

lemma set_insertSorted: "set (insertSorted cmp x ys) = insert x (set ys)"
  by (induction ys) auto

lemma sorted_wrt_insertSorted:
  assumes total: "\<And>a b. le a b \<or> le b a"
    and trans: "\<And>a b c. le a b \<Longrightarrow> le b c \<Longrightarrow> le a c"
  shows "\<forall>a\<in>insert x (set ys). \<forall>b\<in>insert x (set ys). positive (cmp a b) \<longleftrightarrow> \<not> le a b
     \<Longrightarrow> sorted_wrt le ys \<Longrightarrow> sorted_wrt le (insertSorted cmp x ys)"
proof (induction ys)
  case Nil
  show ?case by simp
next
  case (Cons y ys)
  have p: "\<forall>a\<in>insert x (set ys). \<forall>b\<in>insert x (set ys). positive (cmp a b) \<longleftrightarrow> \<not> le a b"
    using Cons.prems(1) by simp
  have xy: "positive (cmp x y) \<longleftrightarrow> \<not> le x y" using Cons.prems(1) by simp
  have s: "sorted_wrt le ys" using Cons.prems(2) by simp
  show ?case
  proof (cases "positive (cmp x y)")
    case True
    then have "le y x" using xy total by auto
    then show ?thesis using True Cons.IH [OF p s] Cons.prems(2) by (auto simp: set_insertSorted)
  next
    case False
    then have "le x y" using xy by auto
    then have "\<forall>z\<in>set ys. le x z" using Cons.prems(2) trans by auto
    then show ?thesis using False \<open>le x y\<close> Cons.prems(2) by simp
  qed
qed

lemma sorted_wrt_sortArray_on:
  assumes total: "\<And>a b. le a b \<or> le b a"
    and trans: "\<And>a b c. le a b \<Longrightarrow> le b c \<Longrightarrow> le a c"
  shows "\<forall>a\<in>set xs. \<forall>b\<in>set xs. positive (cmp a b) \<longleftrightarrow> \<not> le a b
     \<Longrightarrow> sorted_wrt le (sortArray cmp xs)"
proof (induction xs)
  case Nil
  show ?case by (simp add: sortArray_def)
next
  case (Cons x xs)
  have ih: "sorted_wrt le (sortArray cmp xs)"
    by (rule Cons.IH) (simp add: Cons.prems)
  have q: "\<forall>a\<in>insert x (set (sortArray cmp xs)). \<forall>b\<in>insert x (set (sortArray cmp xs)).
      positive (cmp a b) \<longleftrightarrow> \<not> le a b"
    using Cons.prems by (simp add: set_sortArray)
  have "sorted_wrt le (insertSorted cmp x (sortArray cmp xs))"
  proof (rule sorted_wrt_insertSorted [where le = le])
    show "le a b \<or> le b a" for a b by (rule total)
    show "le a c" if "le a b" "le b c" for a b c using that by (rule trans)
  qed (rule q, rule ih)
  then show ?case by (simp add: sortArray_def)
qed

lemma sorted_wrt_sortArray:
  assumes "\<And>a b. le a b \<or> le b a"
    and "\<And>a b c. le a b \<Longrightarrow> le b c \<Longrightarrow> le a c"
    and "\<And>a b. positive (cmp a b) \<longleftrightarrow> \<not> le a b"
  shows "sorted_wrt le (sortArray cmp xs)"
proof (rule sorted_wrt_sortArray_on [where le = le])
  show "\<forall>a\<in>set xs. \<forall>b\<in>set xs. positive (cmp a b) \<longleftrightarrow> \<not> le a b"
    using assms(3) by blast
qed (rule assms(1), erule assms(2), assumption)

lemma distinct_map_sortArray: "distinct (map f (sortArray cmp xs)) = distinct (map f xs)"
proof -
  have "mset (map f (sortArray cmp xs)) = mset (map f xs)"
    by (simp add: mset_sortArray)
  then show ?thesis by (rule mset_eq_imp_distinct_iff)
qed

lemma sum_filter_sortArray:
  "sum_list (map f (filter P (sortArray cmp xs))) = sum_list (map (f :: 'a \<Rightarrow> real) (filter P xs))"
proof -
  have "mset (filter P (sortArray cmp xs)) = mset (filter P xs)"
    by (simp add: mset_sortArray)
  then have "mset (map f (filter P (sortArray cmp xs))) = mset (map f (filter P xs))"
    by (metis mset_map)
  then show ?thesis by (metis sum_mset_sum_list)
qed

lemma localeCompare_positive: "positive (localeCompare a b) \<longleftrightarrow> \<not> a \<le> b"
  by (auto simp: localeCompare_def)

section \<open>Facts about the trend series\<close>

lemma datesValid_own: "datesValid xs \<Longrightarrow> \<forall>x\<in>set xs. date x \<notin> set objectPrototype"
  by (simp add: datesValid_def list_all_iff validDate_own)

lemma datesValid_month_own: "datesValid xs \<Longrightarrow> \<forall>x\<in>set xs. monthOf x \<notin> set objectPrototype"
  by (simp add: datesValid_def list_all_iff validDate_month_own monthOf_def)

lemma foldl_expenses_side:
  "foldl (\<lambda>v e. (case v of (inc, spent) \<Rightarrow> (inc, spent + amount e))) (i0, e0) es
     = (i0, e0 + sum_list (map amount es))"
  by (induction es arbitrary: e0) simp_all

lemma foldl_income_side:
  "foldl (\<lambda>v i. (case v of (inc, spent) \<Rightarrow> (inc + amount i, spent))) (i0, e0) xs
     = (i0 + sum_list (map amount xs), e0)"
  by (induction xs arbitrary: i0) simp_all

lemma dataByDateOf_distinct: "distinct (map fst (dataByDateOf expenses income))"
  unfolding dataByDateOf_def by (intro grouped_distinct) simp

lemma dataByDateOf_keys:
  assumes "datesValid expenses" "datesValid income"
  shows "set (map fst (dataByDateOf expenses income)) = date ` set expenses \<union> date ` set income"
  unfolding dataByDateOf_def
  by (simp add: grouped_dom [OF datesValid_own [OF assms(1)]]
      grouped_dom [OF datesValid_own [OF assms(2)]] Un_commute)

lemma onDate_absent: "d \<notin> date ` set xs \<Longrightarrow> onDate d xs = 0"
  by (simp add: onDate_def filter_no_key)

lemma dataByDateOf_value:
  assumes "(d, v) \<in> set (dataByDateOf expenses income)"
    and ve: "datesValid expenses" and vi: "datesValid income"
  shows "v = (onDate d income, onDate d expenses)"
proof -
  let ?obj = "grouped date (0, 0) (\<lambda>e (inc, spent). (inc, spent + amount e)) [] expenses"
  note oe = datesValid_own [OF ve] and oi = datesValid_own [OF vi]
  have m: "map_of (dataByDateOf expenses income) d = Some v"
    using assms(1) dataByDateOf_distinct by simp
  have no_i: "d \<notin> date ` set income \<Longrightarrow> onDate d income = 0"
    by (rule onDate_absent)
  have e: "map_of ?obj d
      = (if d \<in> date ` set expenses then Some (0, onDate d expenses) else None)"
    by (simp add: grouped_map_of [OF oe] foldl_expenses_side onDate_def)
  have start: "(case map_of ?obj d of None \<Rightarrow> (0, 0) | Some w \<Rightarrow> w) = (0, onDate d expenses)"
    by (cases "d \<in> date ` set expenses") (simp_all add: e onDate_absent)
  have g: "map_of (grouped date (0, 0) (\<lambda>i (inc, spent). (inc + amount i, spent)) ?obj income) d =
      (if d \<in> date ` set income
       then Some (foldl (\<lambda>v x. (\<lambda>(inc, spent). (inc + amount x, spent)) v)
                    (case map_of ?obj d of None \<Rightarrow> (0, 0) | Some w \<Rightarrow> w)
                    (filter (\<lambda>x. date x = d) income))
       else map_of ?obj d)"
    by (rule grouped_map_of [OF oi])
  have final: "map_of (dataByDateOf expenses income) d =
      (if d \<in> date ` set income
       then Some (onDate d income, onDate d expenses) else map_of ?obj d)"
    unfolding dataByDateOf_def g start
    by (simp add: foldl_income_side onDate_def)
  show ?thesis
  proof (cases "d \<in> date ` set income")
    case True
    then show ?thesis using m final by simp
  next
    case False
    then have "map_of ?obj d = Some v" using m final by simp
    then have "Some v = (if d \<in> date ` set expenses then Some (0, onDate d expenses) else None)"
      unfolding e by (rule sym)
    then show ?thesis using no_i [OF False] by (simp split: if_splits)
  qed
qed

lemma dataByDateOf_entries:
  assumes "datesValid expenses" "datesValid income"
  shows "entries (dataByDateOf expenses income) = dataByDateOf expenses income"
proof (rule entries_id)
  have "\<forall>k\<in>date ` set expenses \<union> date ` set income. \<not> isArrayIndex k"
    using assms by (auto simp: datesValid_def list_all_iff validDate_not_index)
  then show "\<forall>k\<in>set (map fst (dataByDateOf expenses income)). \<not> isArrayIndex k"
    unfolding dataByDateOf_keys [OF assms] .
qed

lemma getSpendingTrends_Inr:
  assumes "getExpenses expenseStore flt = Inr expenses"
  shows "getSpendingTrends expenseStore incomeData flt =
     Inr (sortArray (\<lambda>a b. localeCompare (dateT a) (dateT b))
            (map (\<lambda>(d, (inc, spent)).
                    \<lparr>dateT = d, incomeT = inc, expensesT = spent, balanceT = inc - spent\<rparr>)
               (entries (dataByDateOf expenses (getIncome incomeData flt)))))"
  using assms by (simp add: getSpendingTrends_def Let_def dataByDateOf_def grouped_def)

lemma onDate_sortArray: "onDate d (sortArray cmp xs) = onDate d xs"
  by (simp add: onDate_def sum_filter_sortArray)

section \<open>Facts about the monthly breakdown\<close>

lemma foldl_month_expenses:
  "foldl (\<lambda>v e. (\<lambda>(inc, spent, categories).
        (inc, spent + amount e, addTo categories (category e) (amount e))) v) (i0, s0, c0) es
     = (i0, s0 + sum_list (map amount es), totalsBy category amount c0 es)"
  by (induction es arbitrary: s0 c0) (simp_all add: totalsBy_def)

lemma foldl_month_income:
  "foldl (\<lambda>v i. (\<lambda>(inc, spent, categories). (inc + amount i, spent, categories)) v)
      (i0, s0, c0) xs
     = (i0 + sum_list (map amount xs), s0, c0)"
  by (induction xs arbitrary: i0) simp_all

lemma dataByMonthOf_distinct: "distinct (map fst (dataByMonthOf expenses income))"
  unfolding dataByMonthOf_def by (intro grouped_distinct) simp

lemma dataByMonthOf_keys:
  assumes "datesValid expenses" "datesValid income"
  shows "set (map fst (dataByMonthOf expenses income))
     = monthOf ` set expenses \<union> monthOf ` set income"
  unfolding dataByMonthOf_def
  by (simp add: grouped_dom [OF datesValid_month_own [OF assms(1)]]
      grouped_dom [OF datesValid_month_own [OF assms(2)]] Un_commute)

lemma inMonth_absent: "m \<notin> monthOf ` set xs \<Longrightarrow> inMonth m xs = 0"
  by (simp add: inMonth_def filter_no_key)

lemma dataByMonthOf_value:
  assumes "(m, v) \<in> set (dataByMonthOf expenses income)"
    and ve: "datesValid expenses" and vi: "datesValid income"
  shows "v = (inMonth m income, inMonth m expenses,
              totalsBy category amount [] (filter (\<lambda>e. monthOf e = m) expenses))"
proof -
  let ?E = "\<lambda>e (inc, spent, categories).
      (inc, spent + amount e, addTo categories (category e) (amount (e :: Expense)))"
  let ?I = "\<lambda>i (inc :: real, spent :: real, categories :: real val object).
      (inc + amount (i :: Income), spent, categories)"
  let ?obj = "grouped monthOf (0, 0, []) ?E [] expenses"
  let ?cats = "totalsBy category amount [] (filter (\<lambda>e. monthOf e = m) expenses)"
  note oe = datesValid_month_own [OF ve] and oi = datesValid_month_own [OF vi]
  have mv: "map_of (dataByMonthOf expenses income) m = Some v"
    using assms(1) dataByMonthOf_distinct by simp
  have e: "map_of ?obj m
      = (if m \<in> monthOf ` set expenses then Some (0, inMonth m expenses, ?cats) else None)"
    by (simp add: grouped_map_of [OF oe] foldl_month_expenses inMonth_def)
  have none: "m \<notin> monthOf ` set expenses \<Longrightarrow> ?cats = []"
    by (simp add: filter_no_key totalsBy_def)
  have start: "(case map_of ?obj m of None \<Rightarrow> (0, 0, []) | Some w \<Rightarrow> w)
      = (0, inMonth m expenses, ?cats)"
    by (cases "m \<in> monthOf ` set expenses") (simp_all add: e inMonth_absent none)
  have g: "map_of (grouped monthOf (0, 0, []) ?I ?obj income) m =
      (if m \<in> monthOf ` set income
       then Some (foldl (\<lambda>v x. ?I x v)
                    (case map_of ?obj m of None \<Rightarrow> (0, 0, []) | Some w \<Rightarrow> w)
                    (filter (\<lambda>x. monthOf x = m) income))
       else map_of ?obj m)"
    by (rule grouped_map_of [OF oi])
  have final: "map_of (dataByMonthOf expenses income) m =
      (if m \<in> monthOf ` set income
       then Some (inMonth m income, inMonth m expenses, ?cats) else map_of ?obj m)"
    unfolding dataByMonthOf_def g start
    by (simp add: foldl_month_income foldl_income_side inMonth_def)
  show ?thesis
  proof (cases "m \<in> monthOf ` set income")
    case True
    then show ?thesis using mv final by simp
  next
    case False
    then have "map_of ?obj m = Some v" using mv final by simp
    then have "Some v = (if m \<in> monthOf ` set expenses
        then Some (0, inMonth m expenses, ?cats) else None)"
      unfolding e by (rule sym)
    then show ?thesis using inMonth_absent [OF False] by (simp split: if_splits)
  qed
qed

lemma dataByMonthOf_entries:
  assumes "datesValid expenses" "datesValid income"
  shows "entries (dataByMonthOf expenses income) = dataByMonthOf expenses income"
proof (rule entries_id)
  have "\<forall>k\<in>monthOf ` set expenses \<union> monthOf ` set income. \<not> isArrayIndex k"
    using assms by (auto simp: datesValid_def list_all_iff validDate_month_not_index monthOf_def)
  then show "\<forall>k\<in>set (map fst (dataByMonthOf expenses income)). \<not> isArrayIndex k"
    unfolding dataByMonthOf_keys [OF assms] .
qed

lemma inMonth_sortArray: "inMonth m (sortArray cmp xs) = inMonth m xs"
  by (simp add: inMonth_def sum_filter_sortArray)

lemma getIncome_None: "getIncome incomeData None = sortArray byDateDesc incomeData"
  by (simp add: getIncome_def)

lemma forEachE_own:
  "\<forall>e\<in>set es. key e \<notin> set objectPrototype \<Longrightarrow>
   forEachE (\<lambda>obj e. (let month = key e
                       in if month \<in> set objectPrototype then Inl TypeError
                          else Inr (F obj month e))) obj es
     = Inr (foldl (\<lambda>obj e. F obj (key e) e) obj es)"
  by (induction es arbitrary: obj) (simp_all add: Let_def)

lemma getMonthlyBreakdown_eq:
  assumes "datesValid expenseStore"
  shows "getMonthlyBreakdown expenseStore incomeData monthsArg =
     Inr (slice0 (monthsOrDefault monthsArg)
            (sortArray (\<lambda>a b. localeCompare (month b) (month a))
               (map (\<lambda>(m, (inc, spent, categories)).
                       \<lparr>month = m, incomeM = inc, expensesM = spent,
                        savings = inc - spent, topCategories = topOf categories\<rparr>)
                  (entries (dataByMonthOf (sortArray byDateDesc expenseStore)
                     (sortArray byDateDesc incomeData))))))"
proof -
  have own: "\<forall>e\<in>set (sortArray byDateDesc expenseStore). take 7 (date e) \<notin> set objectPrototype"
    using datesValid_month_own [OF assms] by (simp add: set_sortArray monthOf_def)
  have f: "forEachE
      (\<lambda>obj e.
          if take 7 (date e) \<in> set objectPrototype then Inl TypeError
          else Inr (upsert obj (take 7 (date e)) (0, 0, [])
                     (\<lambda>(inc, spent, categories).
                         (inc, spent + amount e,
                          addTo categories (category e) (amount e)))))
      [] (sortArray byDateDesc expenseStore)
    = Inr (foldl
           (\<lambda>obj e.
               upsert obj (take 7 (date e)) (0, 0, [])
                (\<lambda>(inc, spent, categories).
                    (inc, spent + amount e,
                     addTo categories (category e) (amount e))))
           [] (sortArray byDateDesc expenseStore))"
    using forEachE_own [OF own, where F = "\<lambda>obj month e. upsert obj month (0, 0, [])
            (\<lambda>(inc, spent, categories).
               (inc, spent + amount e, addTo categories (category e) (amount e)))"
          and obj = "[]"]
    by (simp add: Let_def)
  show ?thesis
    unfolding getMonthlyBreakdown_def getExpenses_def getIncome_None Let_def option.case
      sum.case f
    by (simp add: dataByMonthOf_def grouped_def monthOf_def)
qed

lemma topOf_split:
  "\<exists>others. topOf cats @ others
        = sortArray (\<lambda>a b. jsMinus (amountC b) (amountC a))
            (map (\<lambda>(n, a). \<lparr>name = n, amountC = a\<rparr>) (entries cats))
      \<and> length (topOf cats) = min 3 (length cats)"
proof -
  let ?all = "sortArray (\<lambda>a b. jsMinus (amountC b) (amountC a))
      (map (\<lambda>(n, a). \<lparr>name = n, amountC = a\<rparr>) (entries cats))"
  have "topOf cats @ drop 3 ?all = ?all" by (simp add: topOf_def)
  moreover have "length (topOf cats) = min 3 (length cats)"
    by (simp add: topOf_def length_sortArray length_entries min.commute)
  ultimately show ?thesis by blast
qed

lemma topOf_categories:
  assumes "categoriesOwn expenses"
  shows "topCategoriesOf m expenses
     (topOf (totalsBy category amount [] (filter (\<lambda>e. monthOf e = m) (sortArray cmp expenses))))"
proof -
  let ?es = "filter (\<lambda>e. monthOf e = m) (sortArray cmp expenses)"
  let ?cats = "totalsBy category amount [] ?es"
  let ?raw = "map (\<lambda>(n, a). \<lparr>name = n, amountC = a\<rparr>) (entries ?cats)"
  let ?all = "sortArray (\<lambda>a b. jsMinus (amountC b) (amountC a)) ?raw"
  let ?total = "\<lambda>c. inMonthCategory m c expenses"
  have own: "\<forall>e\<in>set ?es. category e \<notin> set objectPrototype"
    using assms by (simp add: categoriesOwn_def list_all_iff set_sortArray)
  from topOf_split [of ?cats] obtain others where
    o: "topOf ?cats @ others = ?all" and l: "length (topOf ?cats) = min 3 (length ?cats)"
    by blast
  have names: "map name ?raw = map fst (entries ?cats)" by (simp add: case_prod_beta)
  have 1: "distinct (map name ?all)"
    unfolding distinct_map_sortArray names distinct_keys_entries by (rule totalsBy_distinct)
  have "set (map name ?all) = set (map name ?raw)" by (simp only: set_map set_sortArray)
  also have "\<dots> = fst ` set ?cats" unfolding names by (simp add: set_entries)
  also have "\<dots> = category ` set ?es" by (rule totalsBy_dom [OF own])
  also have "\<dots> = category ` {e \<in> set expenses. monthOf e = m}"
    by (auto simp: set_sortArray)
  finally have 2: "set (map name ?all) = category ` {e \<in> set expenses. monthOf e = m}" .
  have raw: "amountC t = Val (?total (name t))" if "t \<in> set ?raw" for t
  proof -
    from that obtain c a where ca: "(c, a) \<in> set ?cats" and t: "t = \<lparr>name = c, amountC = a\<rparr>"
      by (auto simp: set_entries)
    have "a = Val (sum_list (map amount (filter (\<lambda>e. category e = c) ?es)))"
      by (rule totalsBy_value [OF ca own])
    also have "sum_list (map amount (filter (\<lambda>e. category e = c) ?es))
        = sum_list (map amount
            (filter (\<lambda>e. monthOf e = m \<and> category e = c) (sortArray cmp expenses)))"
      by (simp add: conj_commute)
    also have "\<dots> = ?total c"
      unfolding inMonthCategory_def by (rule sum_filter_sortArray)
    finally show ?thesis by (simp add: t)
  qed
  have 3: "amountC t = Val (?total (name t))" if "t \<in> set ?all" for t
    using that raw by (simp add: set_sortArray)
  have 4: "sorted_wrt (\<lambda>x y. ?total (name y) \<le> ?total (name x)) ?all"
  proof (rule sorted_wrt_sortArray_on)
    show "\<forall>a\<in>set ?raw. \<forall>b\<in>set ?raw.
        positive (jsMinus (amountC b) (amountC a)) \<longleftrightarrow> \<not> ?total (name b) \<le> ?total (name a)"
      using raw by (auto simp: jsMinus_def)
  qed auto
  have 5: "length (topOf ?cats) = min 3 (length ?all)"
    using l by (simp add: length_sortArray length_entries)
  show ?thesis
    unfolding topCategoriesOf_def
    using 1 2 3 4 5 unfolding o [symmetric] by blast
qed

lemma slice0_take: "0 \<le> n \<Longrightarrow> slice0 n xs = take (nat n) xs"
  by (simp add: slice0_def)

section \<open>Facts about a missing description\<close>

text \<open>
  The API variant with a record that has no description: for a non-empty \<open>searchQuery\<close>
  the record is returned exactly when it passes the other blocks and its category
  contains the query, and the callback answers as for the empty description. The
  mock-store variant returns whenever every stored record has a description.
\<close>

lemma search_missing_description:
  "(truthy (searchQuery f) \<and> description e = None \<longrightarrow>
      (e \<in> set (getExpensesApi (Some expenses) (Some f))
         \<longleftrightarrow> e \<in> set expenses \<and> narrows f e
             \<and> includes' (toLowerCase (category e)) (toLowerCase (the (searchQuery f))))
      \<and> matchesSearchApi (toLowerCase (the (searchQuery f))) e
          = matchesSearchApi (toLowerCase (the (searchQuery f))) (e\<lparr>description := Some []\<rparr>))
   \<and> (described expenses \<longrightarrow> (\<exists>result. getExpenses expenses flt = Inr result))"
proof (intro conjI impI)
  assume h: "truthy (searchQuery f) \<and> description e = None"
  then have q: "toLowerCase (the (searchQuery f)) \<noteq> []"
    by (cases "searchQuery f") (simp_all add: toLowerCase_empty)
  have m: "matchesSearchApi (toLowerCase (the (searchQuery f))) e
      = includes' (toLowerCase (category e)) (toLowerCase (the (searchQuery f)))"
    using h by (simp add: matchesSearchApi_def)
  show "e \<in> set (getExpensesApi (Some expenses) (Some f))
      \<longleftrightarrow> e \<in> set expenses \<and> narrows f e
          \<and> includes' (toLowerCase (category e)) (toLowerCase (the (searchQuery f)))"
    using h m by (auto simp: getExpensesApi_def set_sortArray narrowExpenses_filter)
  show "matchesSearchApi (toLowerCase (the (searchQuery f))) e
      = matchesSearchApi (toLowerCase (the (searchQuery f))) (e\<lparr>description := Some []\<rparr>)"
    using h q by (simp add: matchesSearchApi_def toLowerCase_def)
next
  assume "described expenses"
  then show "\<exists>result. getExpenses expenses flt = Inr result"
    by (simp add: getExpenses_described)
qed

section \<open>Evaluation of the functions on the sample data\<close>

lemma daysBeforeMonth_table:
  "daysBeforeMonth y (Suc 0) = 0"
  "daysBeforeMonth y 1 = 0"
  "daysBeforeMonth y 2 = 31"
  "daysBeforeMonth y 3 = 31 + daysInMonth y 2"
  "daysBeforeMonth y 4 = 62 + daysInMonth y 2"
  "daysBeforeMonth y 5 = 92 + daysInMonth y 2"
  "daysBeforeMonth y 6 = 123 + daysInMonth y 2"
  "daysBeforeMonth y 7 = 153 + daysInMonth y 2"
  "daysBeforeMonth y 8 = 184 + daysInMonth y 2"
  "daysBeforeMonth y 9 = 215 + daysInMonth y 2"
  "daysBeforeMonth y 10 = 245 + daysInMonth y 2"
  "daysBeforeMonth y 11 = 276 + daysInMonth y 2"
  "daysBeforeMonth y 12 = 306 + daysInMonth y 2"
  by (simp_all add: daysBeforeMonth_def daysInMonth_def upt_rec)

lemmas date_eval =
  validDate_def parseDate_def isDigit_def numberOf_def digitValue_def daysInMonth_def
  isLeapYear_def getTime_def MakeDay_def DayFromYear_def daysBeforeMonth_table msPerDay_def
  datesValid_def byDateDesc_def sortArray_def localeCompare_def

lemmas string_eval = toLowerCase_def toLowerChar_def upperCaseLetters_def lowerCaseLetters_def

lemmas sample_eval =
  sampleExpenses_def rentExpense_def groceriesExpense_def uberExpense_def
  electricityExpense_def bulkExpense_def undescribedExpense_def constructorExpense_def
  protoExpense_def cafeExpense_def sampleIncome_def
  salaryIncome_def freelanceIncome_def dividendIncome_def amountUpdate_def sourceUpdate_def
  undefinedDescription_def
  noFilter_def groceriesFilter_def februaryFilter_def billSearch_def cafeFilter_def
  travelFilter_def

lemma datesValid_sampleExpenses: "datesValid sampleExpenses"
  by (simp add: sample_eval date_eval)

lemma datesValid_sampleIncome: "datesValid sampleIncome"
  by (simp add: sample_eval date_eval)

lemma categoriesOwn_sampleExpenses: "categoriesOwn sampleExpenses"
  by (simp add: sample_eval categoriesOwn_def objectPrototype_def)

lemmas object_eval =
  addTo_def orZero_def getProp_def objectPrototype_def upsert_def entries_def isArrayIndex_def
  isDigit_def jsMinus_def jsQuotient_def jsDivide_def times100_def

lemmas summary_eval =
  getBalanceSummary_def getExpenseSummary_def getIncomeSummary_def getExpenses_def getIncome_def
  narrowExpenses_def object_eval Let_def

lemma sortArray_samples:
  "sortArray byDateDesc sampleExpenses
     = [uberExpense, electricityExpense, groceriesExpense, rentExpense, bulkExpense]"
  "sortArray byDateDesc sampleIncome = [freelanceIncome, salaryIncome, dividendIncome]"
  "sortArray byDateDesc [constructorExpense, rentExpense] = [constructorExpense, rentExpense]"
  "sortArray byDateDesc [protoExpense, rentExpense] = [protoExpense, rentExpense]"
  by (simp_all add: sample_eval date_eval)

lemma inherited_category_eval:
  "getExpenses [constructorExpense, rentExpense] None = Inr [constructorExpense, rentExpense]"
  "getExpenses [protoExpense, rentExpense] None = Inr [protoExpense, rentExpense]"
  "totalsBy category amount [] [constructorExpense, rentExpense]
     = [(''constructor'', Concat (Member ''constructor'') 100), (''Rent'', Val 1200)]"
  "totalsBy category amount [] [protoExpense, rentExpense] = [(''Rent'', Val 1200)]"
  "entries [(''constructor'', Concat (Member ''constructor'') 100), (''Rent'', Val (1200 :: real))]
     = [(''constructor'', Concat (Member ''constructor'') 100), (''Rent'', Val 1200)]"
  "entries [(''Rent'', Val (1200 :: real))] = [(''Rent'', Val 1200)]"
  "sum_list (map amount [constructorExpense, rentExpense]) = 1300"
  "sum_list (map amount [protoExpense, rentExpense]) = 1300"
proof -
  show "getExpenses [constructorExpense, rentExpense] None = Inr [constructorExpense, rentExpense]"
    "getExpenses [protoExpense, rentExpense] None = Inr [protoExpense, rentExpense]"
    by (simp_all add: getExpenses_def sortArray_samples)
qed (simp_all add: totalsBy_def object_eval sample_eval)

section \<open>The breakdowns for categories that are not names of \<open>objectPrototype\<close>\<close>

text \<open>
  When no stored expense has a category that \<^verbatim>\<open>Object.prototype\<close> has a property for,
  the dictionaries keyed by category hold numbers, and the two breakdowns are what the
  specification says: the percentages sum to 100 for a positive total and are 0 for the
  total 0; the monthly breakdown has one entry for each month key of a stored record, in
  strictly descending order, cut to the requested count \<open>n \<ge> 0\<close> (6 when the argument is
  left out), each with the sums of the month, \<open>savings\<close> as income minus expenses, and the
  top categories of the month (\<open>topCategoriesOf\<close>).
\<close>

lemma categoriesOwn_filtered:
  assumes "categoriesOwn expenses" "getExpenses expenses flt = Inr filtered"
  shows "\<forall>e\<in>set filtered. category e \<notin> set objectPrototype"
  using assms(1) unfolding getExpenses_Inr [OF assms(2)]
  by (simp add: categoriesOwn_def list_all_iff set_sortArray)

lemma percentages_sum_own:
  assumes own: "categoriesOwn expenses"
    and r: "getSpendingByCategory expenses flt = Inr result"
    and s: "getExpenseSummary expenses flt = Inr s"
  shows "(0 < totalExpenses s \<longrightarrow>
            result \<noteq> [] \<and> (\<exists>ps. map percentage result = map Some ps \<and> sum_list ps = 100))
       \<and> (totalExpenses s = 0 \<longrightarrow> (\<forall>x\<in>set result. percentage x = Some 0))"
proof -
  obtain filtered where f: "getExpenses expenses flt = Inr filtered"
    using s getExpenses_total [of expenses flt] by (auto simp: getExpenseSummary_Inl)
  note o = categoriesOwn_filtered [OF own f]
  define t where "t = sum_list (map amount filtered)"
  have t: "totalExpenses s = t"
    using s by (auto simp: getExpenseSummary_Inr [OF f] t_def)
  define raw where "raw = map (\<lambda>(c, a).
      \<lparr>categoryS = c, amountS = a,
       percentage = (if t > 0 then times100 (jsQuotient a t) else Some 0),
       color = colorOf c\<rparr>) (entries (totalsBy category amount [] filtered))"
  have res: "result = sortArray (\<lambda>a b. jsMinus (amountS b) (amountS a)) raw"
    using r unfolding getSpendingByCategory_Inr [OF f] raw_def t_def by simp
  define number where "number = (\<lambda>x :: SpendingByCategory. the (toNumber (amountS x)))"
  have val: "amountS x = Val (number x)
      \<and> percentage x = (if t > 0 then Some (number x / t * 100) else Some 0)"
    if "x \<in> set result" for x
  proof -
    from that obtain c a where ca: "(c, a) \<in> set (totalsBy category amount [] filtered)"
      and x: "amountS x = a"
        "percentage x = (if t > 0 then times100 (jsQuotient a t) else Some 0)"
      by (auto simp: res raw_def set_sortArray set_entries)
    from totalsBy_numbers [OF o] ca obtain v where "a = Val v" by fastforce
    then show ?thesis using x by (simp add: number_def jsQuotient_Val)
  qed
  have amounts: "sum_list (map number result) = t"
  proof -
    have "map number raw
        = map (\<lambda>p. the (toNumber (snd p))) (entries (totalsBy category amount [] filtered))"
      by (simp add: raw_def number_def case_prod_beta)
    then have "sum_list (map number raw) = t"
      by (simp add: sum_list_entries totalsBy_sum [OF o] t_def)
    then show ?thesis by (simp add: res sum_list_sortArray)
  qed
  have pos: "result \<noteq> [] \<and> (\<exists>ps. map percentage result = map Some ps \<and> sum_list ps = 100)"
    if "0 < t"
  proof -
    have "map percentage result = map Some (map (\<lambda>x. number x / t * 100) result)"
      using val that by simp
    moreover have "sum_list (map (\<lambda>x. number x / t * 100) result) = 100"
    proof -
      have "sum_list (map (\<lambda>x. number x / t * 100) result)
          = sum_list (map number result) / t * 100"
        by (rule sum_list_percent)
      also have "\<dots> = 100" using that amounts by simp
      finally show ?thesis .
    qed
    moreover have "result \<noteq> []" using amounts that by auto
    ultimately show ?thesis by blast
  qed
  have zero: "\<forall>x\<in>set result. percentage x = Some 0" if "t = 0"
    using val that by simp
  show ?thesis unfolding t using pos zero by blast
qed

lemma monthly_breakdown_own:
  assumes "datesValid expenseStore" "datesValid incomeData" "categoriesOwn expenseStore"
    and n: "n = (case monthsArg of None \<Rightarrow> 6 | Some k \<Rightarrow> k)" "0 \<le> n"
  shows "\<exists>result older.
      getMonthlyBreakdown expenseStore incomeData monthsArg = Inr result
    \<and> length result \<le> nat n
    \<and> length result = min (nat n) (length (result @ older))
    \<and> distinct (map month (result @ older))
    \<and> sorted_wrt (\<lambda>a b. month b \<le> month a) (result @ older)
    \<and> set (map month (result @ older)) = monthOf ` set expenseStore \<union> monthOf ` set incomeData
    \<and> (\<forall>b\<in>set (result @ older).
           expensesM b = inMonth (month b) expenseStore
         \<and> incomeM b = inMonth (month b) incomeData
         \<and> savings b = incomeM b - expensesM b
         \<and> topCategoriesOf (month b) expenseStore (topCategories b))"
proof -
  let ?expenses = "sortArray byDateDesc expenseStore"
  let ?income = "sortArray byDateDesc incomeData"
  have ve: "datesValid ?expenses" and vi: "datesValid ?income"
    using assms(1,2) by (simp_all add: datesValid_sort)
  define k where "k = nat n"
  define raw where "raw = map (\<lambda>(m, (inc, spent, categories)).
      \<lparr>month = m, incomeM = inc, expensesM = spent,
       savings = inc - spent, topCategories = topOf categories\<rparr>)
      (dataByMonthOf ?expenses ?income)"
  define full where "full = sortArray (\<lambda>a b. localeCompare (month b) (month a)) raw"
  have m: "monthsOrDefault monthsArg = n" by (simp add: monthsOrDefault_def n(1))
  have r: "getMonthlyBreakdown expenseStore incomeData monthsArg = Inr (take k full)"
    unfolding full_def raw_def k_def getMonthlyBreakdown_eq [OF assms(1)] m
      dataByMonthOf_entries [OF ve vi]
    using n(2) by (simp add: slice0_take)
  have months: "map month raw = map fst (dataByMonthOf ?expenses ?income)"
    by (simp add: raw_def case_prod_beta)
  have 1: "distinct (map month full)"
    unfolding full_def distinct_map_sortArray months by (rule dataByMonthOf_distinct)
  have 2: "sorted_wrt (\<lambda>a b. month b \<le> month a) full"
    unfolding full_def
    by (rule sorted_wrt_sortArray) (auto simp: localeCompare_positive)
  have "set (map month full) = set (map month raw)"
    by (simp only: full_def set_map set_sortArray)
  then have 3: "set (map month full) = monthOf ` set expenseStore \<union> monthOf ` set incomeData"
    unfolding months dataByMonthOf_keys [OF ve vi] by (simp add: set_sortArray)
  have 4: "expensesM b = inMonth (month b) expenseStore
      \<and> incomeM b = inMonth (month b) incomeData
      \<and> savings b = incomeM b - expensesM b
      \<and> topCategoriesOf (month b) expenseStore (topCategories b)"
    if "b \<in> set full" for b
  proof -
    from that have "b \<in> set raw" by (simp add: full_def set_sortArray)
    then obtain m v where mv: "(m, v) \<in> set (dataByMonthOf ?expenses ?income)"
      and b: "b = \<lparr>month = m, incomeM = fst v, expensesM = fst (snd v),
          savings = fst v - fst (snd v), topCategories = topOf (snd (snd v))\<rparr>"
      by (auto simp: raw_def)
    from dataByMonthOf_value [OF mv ve vi] show ?thesis
      by (simp add: b inMonth_sortArray topOf_categories [OF assms(3)])
  qed
  have "getMonthlyBreakdown expenseStore incomeData monthsArg = Inr (take k full)
    \<and> length (take k full) \<le> k
    \<and> length (take k full) = min k (length (take k full @ drop k full))
    \<and> distinct (map month (take k full @ drop k full))
    \<and> sorted_wrt (\<lambda>a b. month b \<le> month a) (take k full @ drop k full)
    \<and> set (map month (take k full @ drop k full))
        = monthOf ` set expenseStore \<union> monthOf ` set incomeData
    \<and> (\<forall>b\<in>set (take k full @ drop k full).
           expensesM b = inMonth (month b) expenseStore
         \<and> incomeM b = inMonth (month b) incomeData
         \<and> savings b = incomeM b - expensesM b
         \<and> topCategoriesOf (month b) expenseStore (topCategories b))"
    using r 1 2 3 4 by (simp add: min.commute)
  then show ?thesis unfolding k_def by blast
qed

text \<open>
  The two breakdowns on the sample data: the categories of February in descending order
  of amount, with percentages that sum to 100, and the latest month of the monthly
  breakdown for the count 1, with the first 3 of its 4 categories.
\<close>

lemma spending_by_category_sample:
  "getSpendingByCategory sampleExpenses (Some februaryFilter)
     = Inr [\<lparr>categoryS = ''Rent'', amountS = Val 1200, percentage = Some (80000 / 967),
             color = Val ''#6366f1''\<rparr>,
            \<lparr>categoryS = ''Utilities'', amountS = Val 120, percentage = Some (8000 / 967),
             color = Val ''#8b5cf6''\<rparr>,
            \<lparr>categoryS = ''Groceries'', amountS = Val (171 / 2), percentage = Some (5700 / 967),
             color = Val ''#10b981''\<rparr>,
            \<lparr>categoryS = ''Transportation'', amountS = Val 45, percentage = Some (3000 / 967),
             color = Val ''#f59e0b''\<rparr>]
   \<and> (\<exists>ps. map percentage (projr (getSpendingByCategory sampleExpenses (Some februaryFilter)))
            = map Some ps \<and> sum_list ps = 100)"
proof -
  have e: "getExpenses sampleExpenses (Some februaryFilter)
      = Inr [uberExpense, electricityExpense, groceriesExpense, rentExpense]"
    by (simp add: getExpenses_def narrowExpenses_def sample_eval date_eval)
  have c: "totalsBy category amount []
        [uberExpense, electricityExpense, groceriesExpense, rentExpense]
      = [(''Transportation'', Val 45), (''Utilities'', Val 120), (''Groceries'', Val (171 / 2)),
         (''Rent'', Val 1200)]"
    by (simp add: totalsBy_def object_eval sample_eval)
  have n: "entries [(''Transportation'', Val (45 :: real)), (''Utilities'', Val 120),
        (''Groceries'', Val (171 / 2)), (''Rent'', Val 1200)]
      = [(''Transportation'', Val 45), (''Utilities'', Val 120), (''Groceries'', Val (171 / 2)),
         (''Rent'', Val 1200)]"
    by (simp add: entries_def isArrayIndex_def isDigit_def)
  have t: "sum_list (map amount [uberExpense, electricityExpense, groceriesExpense, rentExpense])
      = 2901 / 2"
    by (simp add: sample_eval)
  have r: "getSpendingByCategory sampleExpenses (Some februaryFilter)
     = Inr [\<lparr>categoryS = ''Rent'', amountS = Val 1200, percentage = Some (80000 / 967),
             color = Val ''#6366f1''\<rparr>,
            \<lparr>categoryS = ''Utilities'', amountS = Val 120, percentage = Some (8000 / 967),
             color = Val ''#8b5cf6''\<rparr>,
            \<lparr>categoryS = ''Groceries'', amountS = Val (171 / 2), percentage = Some (5700 / 967),
             color = Val ''#10b981''\<rparr>,
            \<lparr>categoryS = ''Transportation'', amountS = Val 45, percentage = Some (3000 / 967),
             color = Val ''#f59e0b''\<rparr>]"
    unfolding getSpendingByCategory_Inr [OF e] c n t
    by (simp add: sortArray_def jsMinus_def jsQuotient_def jsDivide_def times100_def
        colorOf_def categoryColors_def getProp_def objectPrototype_def)
  obtain s where s: "getExpenseSummary sampleExpenses (Some februaryFilter) = Inr s"
    and p: "totalExpenses s = 2901 / 2"
    using getExpenseSummary_Inr [OF e] t by simp
  from percentages_sum_own [OF categoriesOwn_sampleExpenses r s] p
  have "\<exists>ps. map percentage (projr (getSpendingByCategory sampleExpenses (Some februaryFilter)))
            = map Some ps \<and> sum_list ps = 100"
    unfolding r by simp
  then show ?thesis using r by simp
qed

lemma monthly_breakdown_sample:
  "getMonthlyBreakdown sampleExpenses sampleIncome (Some 1)
     = Inr [\<lparr>month = ''2026-02'', incomeM = 6300, expensesM = 2901 / 2, savings = 9699 / 2,
             topCategories = [\<lparr>name = ''Rent'', amountC = Val 1200\<rparr>,
                              \<lparr>name = ''Utilities'', amountC = Val 120\<rparr>,
                              \<lparr>name = ''Groceries'', amountC = Val (171 / 2)\<rparr>]\<rparr>]
   \<and> length (projr (getMonthlyBreakdown sampleExpenses sampleIncome None)) = 2"
proof -
  have d: "dataByMonthOf
        [uberExpense, electricityExpense, groceriesExpense, rentExpense, bulkExpense]
        [freelanceIncome, salaryIncome, dividendIncome]
      = [(''2026-02'', 6300, 2901 / 2,
          [(''Transportation'', Val 45), (''Utilities'', Val 120), (''Groceries'', Val (171 / 2)),
           (''Rent'', Val 1200)]),
         (''2026-01'', 250, 75, [(''Groceries'', Val 75)])]"
    by (simp add: dataByMonthOf_def grouped_def monthOf_def object_eval sample_eval)
  have n: "entries [(''2026-02'', 6300 :: real, 2901 / 2 :: real,
          [(''Transportation'', Val (45 :: real)), (''Utilities'', Val 120),
           (''Groceries'', Val (171 / 2)), (''Rent'', Val 1200)]),
         (''2026-01'', 250, 75, [(''Groceries'', Val 75)])]
      = [(''2026-02'', 6300, 2901 / 2,
          [(''Transportation'', Val 45), (''Utilities'', Val 120), (''Groceries'', Val (171 / 2)),
           (''Rent'', Val 1200)]),
         (''2026-01'', 250, 75, [(''Groceries'', Val 75)])]"
    by (simp add: entries_def isArrayIndex_def isDigit_def)
  have t: "topOf [(''Transportation'', Val 45), (''Utilities'', Val 120),
        (''Groceries'', Val (171 / 2)), (''Rent'', Val 1200)]
      = [\<lparr>name = ''Rent'', amountC = Val 1200\<rparr>, \<lparr>name = ''Utilities'', amountC = Val 120\<rparr>,
         \<lparr>name = ''Groceries'', amountC = Val (171 / 2)\<rparr>]"
    by (simp add: topOf_def entries_def isArrayIndex_def isDigit_def sortArray_def jsMinus_def)
  have a: "getMonthlyBreakdown sampleExpenses sampleIncome (Some 1)
     = Inr [\<lparr>month = ''2026-02'', incomeM = 6300, expensesM = 2901 / 2, savings = 9699 / 2,
             topCategories = [\<lparr>name = ''Rent'', amountC = Val 1200\<rparr>,
                              \<lparr>name = ''Utilities'', amountC = Val 120\<rparr>,
                              \<lparr>name = ''Groceries'', amountC = Val (171 / 2)\<rparr>]\<rparr>]"
    unfolding getMonthlyBreakdown_eq [OF datesValid_sampleExpenses] sortArray_samples d n
    by (simp add: t slice0_def localeCompare_def sortArray_def monthsOrDefault_def)
  have b: "length (projr (getMonthlyBreakdown sampleExpenses sampleIncome None)) = 2"
    unfolding getMonthlyBreakdown_eq [OF datesValid_sampleExpenses] sortArray_samples d n
    by (simp add: slice0_def localeCompare_def sortArray_def monthsOrDefault_def)
  show ?thesis using a b by simp
qed

text \<open>
  The count that is left out: of seven months the call returns six, the latest ones.
\<close>

lemma default_count_sample:
  "map month (projr (getMonthlyBreakdown [] sevenSalaries None))
     = [''2026-07'', ''2026-06'', ''2026-05'', ''2026-04'', ''2026-03'', ''2026-02'']"
proof -
  have v: "datesValid ([] :: Expense list)" by (simp add: datesValid_def)
  have e: "sortArray byDateDesc ([] :: Expense list) = []" by (simp add: sortArray_def)
  have s: "sortArray byDateDesc sevenSalaries
      = [salaryOn ''37'' ''2026-07-01'', salaryOn ''36'' ''2026-06-01'',
         salaryOn ''35'' ''2026-05-01'', salaryOn ''34'' ''2026-04-01'',
         salaryOn ''33'' ''2026-03-01'', salaryOn ''32'' ''2026-02-01'',
         salaryOn ''31'' ''2026-01-01'']"
    by (simp add: sevenSalaries_def salaryOn_def date_eval)
  have d: "dataByMonthOf []
        [salaryOn ''37'' ''2026-07-01'', salaryOn ''36'' ''2026-06-01'',
         salaryOn ''35'' ''2026-05-01'', salaryOn ''34'' ''2026-04-01'',
         salaryOn ''33'' ''2026-03-01'', salaryOn ''32'' ''2026-02-01'',
         salaryOn ''31'' ''2026-01-01'']
      = [(''2026-07'', 5500, 0, []), (''2026-06'', 5500, 0, []), (''2026-05'', 5500, 0, []),
         (''2026-04'', 5500, 0, []), (''2026-03'', 5500, 0, []), (''2026-02'', 5500, 0, []),
         (''2026-01'', 5500, 0, [])]"
    by (simp add: dataByMonthOf_def grouped_def monthOf_def upsert_def objectPrototype_def
        salaryOn_def)
  have n: "entries [(''2026-07'', 5500 :: real, 0 :: real, [] :: real val object),
         (''2026-06'', 5500, 0, []), (''2026-05'', 5500, 0, []),
         (''2026-04'', 5500, 0, []), (''2026-03'', 5500, 0, []), (''2026-02'', 5500, 0, []),
         (''2026-01'', 5500, 0, [])]
      = [(''2026-07'', 5500, 0, []), (''2026-06'', 5500, 0, []), (''2026-05'', 5500, 0, []),
         (''2026-04'', 5500, 0, []), (''2026-03'', 5500, 0, []), (''2026-02'', 5500, 0, []),
         (''2026-01'', 5500, 0, [])]"
    by (simp add: entries_def isArrayIndex_def isDigit_def)
  show ?thesis
    unfolding getMonthlyBreakdown_eq [OF v] e s d n
    by (simp add: slice0_def localeCompare_def sortArray_def monthsOrDefault_def)
qed

section \<open>Claims about the store operations\<close>

text \<open>
  Claim C9 (ids are unique after every sequence of \<open>addExpense\<close>, respectively
  \<open>addIncome\<close>, calls) fails on the code: the id is the decimal rendering of the clock
  reading alone, so two calls that read the same millisecond store two records with the
  same id. The theorem evaluates two such calls on stores of mock records.
\<close>

theorem addExpense_same_millisecond_same_id:
  "\<not> distinct (map id' (addExpenses
        [(1770000000000, rentExpense), (1770000000000, groceriesExpense)] sampleExpenses))
   \<and> \<not> distinct (map id' (addIncomes
        [(1770000000000, salaryIncome), (1770000000000, freelanceIncome)] sampleIncome))"
  by (simp add: addExpense_def addIncome_def Let_def)

text \<open>
  Claim C10. When no stored record has the id \<open>i\<close>, \<open>updateExpense\<close> returns \<^verbatim>\<open>null\<close> and
  \<open>deleteExpense\<close> returns \<^verbatim>\<open>false\<close>, likewise \<open>updateIncome\<close> and \<open>deleteIncome\<close>, and the
  store is returned as it was. When a stored record has the id \<open>i\<close>, \<open>deleteExpense\<close>
  (and \<open>deleteIncome\<close>) returns \<^verbatim>\<open>true\<close> and removes one record, the first one with that
  id: the records before and after it stay, in their order.
\<close>

theorem update_delete_by_id:
  "((\<forall>e\<in>set expenses. id' e \<noteq> i) \<longrightarrow>
       updateExpense i u expenses = (None, expenses)
     \<and> deleteExpense i expenses = (False, expenses))
   \<and> ((\<forall>x\<in>set incomeData. id' x \<noteq> i) \<longrightarrow>
       updateIncome i v incomeData = (None, incomeData)
     \<and> deleteIncome i incomeData = (False, incomeData))
   \<and> ((\<exists>e\<in>set expenses. id' e = i) \<longrightarrow>
       (\<exists>pre r post. expenses = pre @ r # post \<and> id' r = i \<and> (\<forall>e\<in>set pre. id' e \<noteq> i)
          \<and> deleteExpense i expenses = (True, pre @ post)))
   \<and> ((\<exists>x\<in>set incomeData. id' x = i) \<longrightarrow>
       (\<exists>pre r post. incomeData = pre @ r # post \<and> id' r = i \<and> (\<forall>x\<in>set pre. id' x \<noteq> i)
          \<and> deleteIncome i incomeData = (True, pre @ post)))"
  using updateExpense_absent [of expenses i u] deleteExpense_absent [of expenses i]
    updateIncome_absent [of incomeData i v] deleteIncome_absent [of incomeData i]
    deleteExpense_present [of expenses i] deleteIncome_present [of incomeData i]
  by blast

theorem update_delete_by_id_witness:
  "updateExpense ''9'' amountUpdate [rentExpense, groceriesExpense] = (None, [rentExpense, groceriesExpense])
   \<and> deleteExpense ''9'' [rentExpense, groceriesExpense] = (False, [rentExpense, groceriesExpense])
   \<and> updateIncome ''9'' sourceUpdate [salaryIncome, freelanceIncome] = (None, [salaryIncome, freelanceIncome])
   \<and> deleteIncome ''9'' [salaryIncome, freelanceIncome] = (False, [salaryIncome, freelanceIncome])
   \<and> (\<exists>pre r post. [rentExpense, groceriesExpense] = pre @ r # post \<and> id' r = ''2''
        \<and> (\<forall>e\<in>set pre. id' e \<noteq> ''2'')
        \<and> deleteExpense ''2'' [rentExpense, groceriesExpense] = (True, pre @ post))
   \<and> (\<exists>pre r post. [salaryIncome, freelanceIncome] = pre @ r # post \<and> id' r = ''2''
        \<and> (\<forall>x\<in>set pre. id' x \<noteq> ''2'')
        \<and> deleteIncome ''2'' [salaryIncome, freelanceIncome] = (True, pre @ post))"
  using update_delete_by_id [of "[rentExpense, groceriesExpense]" "''9''" amountUpdate
      "[salaryIncome, freelanceIncome]" sourceUpdate]
    update_delete_by_id [of "[rentExpense, groceriesExpense]" "''2''" amountUpdate
      "[salaryIncome, freelanceIncome]" sourceUpdate]
  by (simp add: rentExpense_def groceriesExpense_def salaryIncome_def freelanceIncome_def)

section \<open>Claims about the filter\<close>

text \<open>
  Claim C1. For a store whose records have dates of the form \<^verbatim>\<open>YYYY-MM-DD\<close> and for
  every filter (or none), \<open>getExpenses\<close> returns unless the filter has a \<open>searchQuery\<close>
  and a stored record has no description, and its result holds exactly the stored
  records that satisfy every present property of the filter (\<open>satisfies\<close>): \<open>startDate\<close>
  and \<open>endDate\<close> as inclusive bounds in the order of the strings, \<open>categoryF\<close> as equality
  of the lower-cased names, \<open>minAmount\<close> and \<open>maxAmount\<close> as inclusive bounds,
  \<open>searchQuery\<close> as a lower-cased substring of the description or the category. Each
  record is there as often as in the store. The result is sorted by date, latest first,
  and the records of one date come in the order they have in the store.
\<close>

theorem getExpenses_filters_and_sorts:
  assumes "datesValid expenses"
  shows "(case getExpenses expenses flt of
      Inl err \<Rightarrow> (\<exists>f. flt = Some f \<and> truthy (searchQuery f)) \<and> \<not> described expenses
    | Inr result \<Rightarrow>
        mset result = mset (filter (satisfiesOpt flt) expenses)
      \<and> (\<forall>d. filter (\<lambda>e. date e = d) result
               = filter (\<lambda>e. date e = d) (filter (satisfiesOpt flt) expenses))
      \<and> sorted_wrt (\<lambda>a b. date b \<le> date a) result)"
proof (cases "getExpenses expenses flt")
  case (Inl err)
  have "\<not> described expenses"
    using getExpenses_total [of expenses flt] Inl by auto
  moreover have "\<exists>f. flt = Some f \<and> truthy (searchQuery f)"
  proof (cases flt)
    case None
    then show ?thesis using Inl by (simp add: getExpenses_def)
  next
    case (Some f)
    then show ?thesis using Inl by (auto simp: getExpenses_cases split: if_splits)
  qed
  ultimately show ?thesis using Inl by simp
next
  case (Inr result)
  let ?kept = "filter (satisfiesOpt flt) expenses"
  have v: "datesValid ?kept" using assms by (rule datesValid_filter)
  have r: "result = sortArray byDateDesc ?kept" using Inr by (rule getExpenses_Inr)
  have "mset (sortArray byDateDesc ?kept) = mset ?kept"
    by (rule mset_sortArray)
  moreover have "\<forall>d. filter (\<lambda>e. date e = d) (sortArray byDateDesc ?kept)
      = filter (\<lambda>e. date e = d) ?kept"
    using sortArray_stable [OF v] by simp
  moreover have "sorted_wrt (\<lambda>a b. date b \<le> date a) (sortArray byDateDesc ?kept)"
    using v by (rule sortArray_sorted)
  ultimately show ?thesis using Inr r by simp
qed

theorem getExpenses_filters_and_sorts_witness:
  "datesValid sampleExpenses
   \<and> getExpenses sampleExpenses (Some groceriesFilter) = Inr [groceriesExpense, bulkExpense]
   \<and> mset [groceriesExpense, bulkExpense]
       = mset (filter (satisfiesOpt (Some groceriesFilter)) sampleExpenses)
   \<and> sorted_wrt (\<lambda>a b. date b \<le> date a) [groceriesExpense, bulkExpense]
   \<and> getExpenses [cafeExpense, rentExpense] (Some cafeFilter) = Inr [cafeExpense]
   \<and> getExpenses sampleExpenses (Some billSearch) = Inr [electricityExpense]
   \<and> mset [electricityExpense] = mset (filter (satisfiesOpt (Some billSearch)) sampleExpenses)"
proof -
  have v: "datesValid sampleExpenses" by (rule datesValid_sampleExpenses)
  have b: "getExpenses sampleExpenses (Some billSearch) = Inr [electricityExpense]"
    by (simp add: getExpenses_def narrowExpenses_def matchesSearch_def sample_eval date_eval
        string_eval)
  have e: "getExpenses sampleExpenses (Some groceriesFilter) = Inr [groceriesExpense, bulkExpense]"
    by (simp add: getExpenses_def narrowExpenses_def sample_eval date_eval string_eval)
  have c: "getExpenses [cafeExpense, rentExpense] (Some cafeFilter) = Inr [cafeExpense]"
    by (simp add: getExpenses_def narrowExpenses_def sample_eval date_eval string_eval)
  have 1: "mset [groceriesExpense, bulkExpense]
       = mset (filter (satisfiesOpt (Some groceriesFilter)) sampleExpenses)
     \<and> sorted_wrt (\<lambda>a b. date b \<le> date a) [groceriesExpense, bulkExpense]"
    using getExpenses_filters_and_sorts [OF v, of "Some groceriesFilter"] by (simp add: e)
  have 2: "mset [electricityExpense] = mset (filter (satisfiesOpt (Some billSearch)) sampleExpenses)"
    using getExpenses_filters_and_sorts [OF v, of "Some billSearch"] by (simp add: b)
  show ?thesis using v e c b 1 2 by blast
qed

text \<open>
  Claim C8. Filtering is idempotent: for a store of records with dates of the form
  \<^verbatim>\<open>YYYY-MM-DD\<close> and for every filter (or none), running \<open>getExpenses\<close> on its own result
  with the same filter gives that result again; when the first call throws, so does the
  composition.
\<close>

theorem getExpenses_idempotent:
  assumes "datesValid expenses"
  shows "(case getExpenses expenses flt of
            Inl err \<Rightarrow> Inl err
          | Inr result \<Rightarrow> getExpenses result flt) = getExpenses expenses flt"
proof (cases flt)
  case None
  then show ?thesis using assms by (simp add: getExpenses_def sortArray_idem)
next
  case (Some f)
  show ?thesis
  proof (cases "truthy (searchQuery f) \<and> \<not> described (filter (narrows f) expenses)")
    case True
    then show ?thesis using Some by (simp add: getExpenses_cases)
  next
    case False
    let ?r = "sortArray byDateDesc (filter (keeps f) expenses)"
    have first: "getExpenses expenses flt = Inr ?r"
      using False Some by (simp add: getExpenses_cases)
    have v: "datesValid (filter (keeps f) expenses)" using assms by (rule datesValid_filter)
    have sub: "filter (narrows f) (filter (keeps f) expenses) = filter (keeps f) expenses"
      unfolding filter_filter by (intro filter_cong) (auto simp: keeps_def)
    have "filter (narrows f) ?r = sortArray byDateDesc (filter (keeps f) expenses)"
      using v sub by (simp add: sortArray_filter)
    moreover have "truthy (searchQuery f) \<Longrightarrow> described ?r"
      by (simp add: described_sort keeps_described)
    moreover have "filter (keeps f) ?r = ?r"
      using v by (simp add: sortArray_filter)
    ultimately have "getExpenses ?r flt = Inr (sortArray byDateDesc ?r)"
      using Some by (auto simp: getExpenses_cases)
    then show ?thesis using first v by (simp add: sortArray_idem)
  qed
qed

theorem getExpenses_idempotent_witness:
  "datesValid sampleExpenses
   \<and> (case getExpenses sampleExpenses (Some billSearch) of
         Inl err \<Rightarrow> Inl err
       | Inr result \<Rightarrow> getExpenses result (Some billSearch))
       = getExpenses sampleExpenses (Some billSearch)"
proof -
  have v: "datesValid sampleExpenses" by (rule datesValid_sampleExpenses)
  show ?thesis using v getExpenses_idempotent [OF v, of "Some billSearch"] by simp
qed

text \<open>
  Claim C7 (with a \<open>searchQuery\<close>, \<open>getExpenses\<close> never throws even when a record has
  no description) holds for the API variant (\<open>search_missing_description\<close>) and fails
  on the mock-store variant, which reads \<^verbatim>\<open>e.description.toLowerCase()\<close> without the
  guard of the API variant. The theorem evaluates the mock-store variant on a store
  that holds a record without description, and on the store that \<open>updateExpense\<close>
  leaves when the update carries \<^verbatim>\<open>description: undefined\<close>: both calls throw.
\<close>

theorem getExpenses_missing_description_throws:
  "getExpenses [undescribedExpense, rentExpense] (Some billSearch) = Inl TypeError
   \<and> getExpenses (snd (updateExpense ''1'' undefinedDescription sampleExpenses))
         (Some billSearch) = Inl TypeError"
  by (simp add: getExpenses_def narrowExpenses_def matchesSearch_def updateExpense_def
      spreadExpense_def sample_eval)

section \<open>Claims about the summaries\<close>

text \<open>
  Claim C2. For every pair of an expense filter and an income filter,
  \<open>getBalanceSummary\<close> either throws, which it does only when a stored expense has no
  description, or returns a result whose totals are those of the two summaries, each
  with its own filter, whose \<open>balance\<close> is the total income minus the total expenses, and
  whose \<open>savingsRate\<close> is that difference divided by the total income, times 100, when
  the total income is positive, and 0 when the total income is 0.
\<close>

theorem balance_identity:
  "(case getBalanceSummary expenses incomeData expenseFilter incomeFilter of
      Inl err \<Rightarrow> \<not> described expenses
    | Inr r \<Rightarrow>
        getExpenseSummary expenses expenseFilter \<noteq> Inl TypeError
        \<and> totalExpensesB r = totalExpenses (projr (getExpenseSummary expenses expenseFilter))
        \<and> totalIncomeB r = totalIncome (getIncomeSummary incomeData incomeFilter)
        \<and> balance r = totalIncomeB r - totalExpensesB r
        \<and> (0 < totalIncomeB r \<longrightarrow>
             savingsRate r = Some ((totalIncomeB r - totalExpensesB r) / totalIncomeB r * 100))
        \<and> (totalIncomeB r = 0 \<longrightarrow> savingsRate r = Some 0))"
proof -
  from getExpenses_total [of expenses expenseFilter] show ?thesis
  proof
    assume "\<exists>filtered. getExpenses expenses expenseFilter = Inr filtered"
    then obtain filtered where "getExpenses expenses expenseFilter = Inr filtered" by blast
    then show ?thesis
      by (simp add: getBalanceSummary_def getExpenseSummary_Inr Let_def jsDivide_def times100_def)
  next
    assume "getExpenses expenses expenseFilter = Inl TypeError \<and> \<not> described expenses"
    then show ?thesis
      by (simp add: getBalanceSummary_def getExpenseSummary_Inl)
  qed
qed

theorem balance_identity_witness:
  "\<exists>r. getBalanceSummary sampleExpenses sampleIncome (Some februaryFilter) (Some februaryFilter)
         = Inr r
       \<and> 0 < totalIncomeB r
       \<and> balance r = totalIncomeB r - totalExpensesB r
       \<and> savingsRate r = Some ((totalIncomeB r - totalExpensesB r) / totalIncomeB r * 100)"
proof -
  have e: "getBalanceSummary sampleExpenses sampleIncome (Some februaryFilter) (Some februaryFilter)
     = Inr \<lparr>totalIncomeB = 6300, totalExpensesB = 2901 / 2, balance = 9699 / 2,
            savingsRate = Some (3233 / 42)\<rparr>"
    by (simp add: summary_eval sample_eval date_eval)
  show ?thesis
    using balance_identity [where expenses = sampleExpenses and incomeData = sampleIncome
        and expenseFilter = "Some februaryFilter" and incomeFilter = "Some februaryFilter"]
    by (simp add: e)
qed

text \<open>
  Claim C6. The summary of an empty record set is all zero and empty: this is the
  result for an empty store, and for every store and filter whose filtered set has
  count 0. No division of the services has a zero divisor: \<open>averageExpense\<close> and
  \<open>averageIncome\<close> are always numbers and are 0 when the count is 0; \<open>savingsRate\<close> is
  always a number and is 0 when the total income is 0; every \<open>percentage\<close> is 0 when the
  total is 0, and a \<open>percentage\<close> that is no number comes from an amount that is no
  number, never from the division.
\<close>

theorem division_by_zero_safe:
  "getExpenseSummary [] flt
     = Inr \<lparr>totalExpenses = 0, averageExpense = Some 0, expenseCount = 0,
            byCategory = [], byMonth = []\<rparr>
   \<and> getIncomeSummary [] incomeFilter
     = \<lparr>totalIncome = 0, averageIncome = Some 0, incomeCount = 0, bySource = [], byMonthI = []\<rparr>
   \<and> (\<forall>s. getExpenseSummary expenses flt = Inr s \<longrightarrow>
          averageExpense s \<noteq> None
          \<and> (expenseCount s = 0 \<longrightarrow>
                s = \<lparr>totalExpenses = 0, averageExpense = Some 0, expenseCount = 0,
                      byCategory = [], byMonth = []\<rparr>))
   \<and> averageIncome (getIncomeSummary incomeData incomeFilter) \<noteq> None
   \<and> (incomeCount (getIncomeSummary incomeData incomeFilter) = 0 \<longrightarrow>
         getIncomeSummary incomeData incomeFilter
           = \<lparr>totalIncome = 0, averageIncome = Some 0, incomeCount = 0,
               bySource = [], byMonthI = []\<rparr>)
   \<and> (\<forall>r. getBalanceSummary expenses incomeData flt incomeFilter = Inr r \<longrightarrow>
          savingsRate r \<noteq> None \<and> (totalIncomeB r = 0 \<longrightarrow> savingsRate r = Some 0))
   \<and> (\<forall>s result. getExpenseSummary expenses flt = Inr s
          \<and> getSpendingByCategory expenses flt = Inr result \<longrightarrow>
          (\<forall>x\<in>set result.
              (totalExpenses s = 0 \<longrightarrow> percentage x = Some 0)
            \<and> (percentage x = None \<longrightarrow> toNumber (amountS x) = None)))"
proof (intro conjI allI impI ballI)
  show "getExpenseSummary [] flt
     = Inr \<lparr>totalExpenses = 0, averageExpense = Some 0, expenseCount = 0,
            byCategory = [], byMonth = []\<rparr>"
    by (simp add: getExpenseSummary_Inr [OF getExpenses_empty] totalsBy_Nil)
  show "getIncomeSummary [] incomeFilter
     = \<lparr>totalIncome = 0, averageIncome = Some 0, incomeCount = 0, bySource = [], byMonthI = []\<rparr>"
    by (simp add: getIncomeSummary_eq getIncome_empty totalsBy_Nil)
  show "averageIncome (getIncomeSummary incomeData incomeFilter) \<noteq> None"
    by (simp add: getIncomeSummary_eq Let_def)
  show "getIncomeSummary incomeData incomeFilter
           = \<lparr>totalIncome = 0, averageIncome = Some 0, incomeCount = 0,
               bySource = [], byMonthI = []\<rparr>"
    if "incomeCount (getIncomeSummary incomeData incomeFilter) = 0"
    using that by (simp add: getIncomeSummary_eq Let_def totalsBy_Nil)
next
  fix s assume s: "getExpenseSummary expenses flt = Inr s"
  then obtain filtered where f: "getExpenses expenses flt = Inr filtered"
    using getExpenses_total [of expenses flt] by (auto simp: getExpenseSummary_Inl)
  show "averageExpense s \<noteq> None"
    using s by (auto simp: getExpenseSummary_Inr [OF f])
  show "s = \<lparr>totalExpenses = 0, averageExpense = Some 0, expenseCount = 0,
              byCategory = [], byMonth = []\<rparr>" if "expenseCount s = 0"
    using s that by (auto simp: getExpenseSummary_Inr [OF f] totalsBy_Nil)
next
  fix r assume r: "getBalanceSummary expenses incomeData flt incomeFilter = Inr r"
  then obtain filtered where f: "getExpenses expenses flt = Inr filtered"
    using getExpenses_total [of expenses flt]
    by (auto simp: getBalanceSummary_def getExpenseSummary_Inl)
  show "savingsRate r \<noteq> None"
    using r by (auto simp: getBalanceSummary_Inr [OF f])
  show "savingsRate r = Some 0" if "totalIncomeB r = 0"
    using r that by (auto simp: getBalanceSummary_Inr [OF f])
next
  fix s result x
  assume h: "getExpenseSummary expenses flt = Inr s
      \<and> getSpendingByCategory expenses flt = Inr result"
    and x: "x \<in> set result"
  then obtain filtered where f: "getExpenses expenses flt = Inr filtered"
    using getExpenses_total [of expenses flt] by (auto simp: getExpenseSummary_Inl)
  have t: "totalExpenses s = sum_list (map amount filtered)"
    using h by (auto simp: getExpenseSummary_Inr [OF f])
  have p: "percentage x = (if totalExpenses s > 0
      then times100 (jsQuotient (amountS x) (totalExpenses s)) else Some 0)"
    unfolding t using f _ x by (rule percentage_of_entry) (simp add: h)
  show "percentage x = Some 0" if "totalExpenses s = 0"
    using p that by simp
  show "toNumber (amountS x) = None" if "percentage x = None"
  proof (cases "totalExpenses s > 0")
    case True
    then show ?thesis using p that jsQuotient_None [of "totalExpenses s" "amountS x"] by simp
  next
    case False
    then show ?thesis using p that by simp
  qed
qed

theorem division_by_zero_safe_witness:
  "getExpenseSummary sampleExpenses (Some travelFilter)
     = Inr \<lparr>totalExpenses = 0, averageExpense = Some 0, expenseCount = 0,
            byCategory = [], byMonth = []\<rparr>
   \<and> averageIncome (getIncomeSummary sampleIncome None) \<noteq> None
   \<and> (\<exists>r. getBalanceSummary sampleExpenses [] None None = Inr r
         \<and> totalIncomeB r = 0 \<and> savingsRate r = Some 0)
   \<and> getSpendingByCategory sampleExpenses (Some travelFilter) = Inr []
   \<and> (\<exists>s result x. getExpenseSummary [constructorExpense, rentExpense] None = Inr s
         \<and> getSpendingByCategory [constructorExpense, rentExpense] None = Inr result
         \<and> x \<in> set result \<and> percentage x = None \<and> toNumber (amountS x) = None)"
proof -
  have a: "getExpenseSummary sampleExpenses (Some travelFilter)
     = Inr \<lparr>totalExpenses = 0, averageExpense = Some 0, expenseCount = 0,
            byCategory = [], byMonth = []\<rparr>"
    by (simp add: summary_eval sample_eval date_eval travelFilter_def string_eval)
  have b: "getBalanceSummary sampleExpenses [] None None
     = Inr \<lparr>totalIncomeB = 0, totalExpensesB = 3051 / 2, balance = - (3051 / 2),
            savingsRate = Some 0\<rparr>"
    by (simp add: summary_eval sample_eval date_eval)
  have c: "getSpendingByCategory sampleExpenses (Some travelFilter) = Inr []"
    by (simp add: getSpendingByCategory_def a sortArray_def entries_def)
  note g = inherited_category_eval(1)
  obtain s where s: "getExpenseSummary [constructorExpense, rentExpense] None = Inr s"
    using getExpenseSummary_Inr [OF g] by blast
  have "\<exists>first rest.
      getSpendingByCategory [constructorExpense, rentExpense] None = Inr (first # rest)
      \<and> percentage first = None"
    unfolding getSpendingByCategory_Inr [OF g] inherited_category_eval
    by (simp add: sortArray_def jsMinus_def jsQuotient_def jsDivide_def times100_def)
  then obtain first rest where
    d: "getSpendingByCategory [constructorExpense, rentExpense] None = Inr (first # rest)"
    and n: "percentage first = None"
    by blast
  note w1 = division_by_zero_safe [where expenses = sampleExpenses
      and flt = "Some travelFilter" and incomeData = sampleIncome and incomeFilter = None]
  note w2 = division_by_zero_safe [where expenses = sampleExpenses and flt = None
      and incomeData = "[]" and incomeFilter = None]
  note w3 = division_by_zero_safe [where expenses = "[constructorExpense, rentExpense]"
      and flt = None and incomeData = "[]" and incomeFilter = None]
  have 1: "averageIncome (getIncomeSummary sampleIncome None) \<noteq> None"
    using w1 by blast
  have "\<forall>r. getBalanceSummary sampleExpenses [] None None = Inr r \<longrightarrow>
          savingsRate r \<noteq> None \<and> (totalIncomeB r = 0 \<longrightarrow> savingsRate r = Some 0)"
    using w2 by blast
  then have 2: "\<exists>r. getBalanceSummary sampleExpenses [] None None = Inr r
         \<and> totalIncomeB r = 0 \<and> savingsRate r = Some 0"
    using b by simp
  have "\<forall>x\<in>set (first # rest). percentage x = None \<longrightarrow> toNumber (amountS x) = None"
    using w3 s d by blast
  then have "toNumber (amountS first) = None" using n by simp
  then have 3: "\<exists>s result x. getExpenseSummary [constructorExpense, rentExpense] None = Inr s
         \<and> getSpendingByCategory [constructorExpense, rentExpense] None = Inr result
         \<and> x \<in> set result \<and> percentage x = None \<and> toNumber (amountS x) = None"
    using s d n by (intro exI [of _ s] exI [of _ "first # rest"] exI [of _ first]) simp
  show ?thesis using a 1 2 c 3 by blast
qed

text \<open>
  Claim C3 (the percentages of \<open>getSpendingByCategory\<close> sum to 100 when the total is
  positive) fails on the code for a category that is the name of a property of
  \<^verbatim>\<open>Object.prototype\<close>. \<^verbatim>\<open>byCategory[c] || 0\<close> guards against a category that is not
  there yet, but for the category \<^verbatim>\<open>constructor\<close> it reads the inherited function: the
  entry becomes a string, its percentage \<^verbatim>\<open>NaN\<close> and its colour that function. For the
  category \<^verbatim>\<open>__proto__\<close> the assignment is ignored: the amount is in the total and in
  no entry, and the percentages sum to less than 100. The theorem evaluates both on a
  store of two records. For every other category the claim holds
  (\<open>percentages_sum_own\<close>).
\<close>

theorem getSpendingByCategory_inherited_category:
  "getSpendingByCategory [constructorExpense, rentExpense] None
     = Inr [\<lparr>categoryS = ''constructor'', amountS = Concat (Member ''constructor'') 100,
             percentage = None, color = Member ''constructor''\<rparr>,
            \<lparr>categoryS = ''Rent'', amountS = Val 1200, percentage = Some (1200 / 13),
             color = Val ''#6366f1''\<rparr>]
   \<and> getSpendingByCategory [protoExpense, rentExpense] None
     = Inr [\<lparr>categoryS = ''Rent'', amountS = Val 1200, percentage = Some (1200 / 13),
             color = Val ''#6366f1''\<rparr>]"
  unfolding getSpendingByCategory_Inr [OF inherited_category_eval(1)]
    getSpendingByCategory_Inr [OF inherited_category_eval(2)] inherited_category_eval
  by (simp add: sortArray_def jsMinus_def jsQuotient_def jsDivide_def times100_def
      colorOf_def categoryColors_def getProp_def objectPrototype_def)

section \<open>Claims about the trend series and the monthly breakdown\<close>

text \<open>
  Claim C4. For stores whose records have dates of the form \<^verbatim>\<open>YYYY-MM-DD\<close> and for every
  filter (or none), \<open>getSpendingTrends\<close> either throws, which it does only when a stored
  expense has no description, or returns points such that: the dates of the points are
  pairwise distinct and are exactly the dates of the stored expenses that satisfy the
  filter (\<open>satisfies\<close>) and of the stored income records that satisfy it
  (\<open>satisfiesIncome\<close>); at each point \<open>expensesT\<close> and \<open>incomeT\<close> are the sums of the
  amounts of those expenses and of those income records on that date, 0 when that side
  has no record on the date; \<open>balanceT\<close> is \<open>incomeT\<close> minus \<open>expensesT\<close>; and the points
  are in ascending order of the date strings.
\<close>

theorem trends_by_date:
  assumes "datesValid expenseStore" "datesValid incomeData"
  shows "(case getSpendingTrends expenseStore incomeData flt of
      Inl err \<Rightarrow> \<not> described expenseStore
    | Inr points \<Rightarrow>
          distinct (map dateT points)
        \<and> sorted (map dateT points)
        \<and> set (map dateT points)
            = date ` {e \<in> set expenseStore. satisfiesOpt flt e}
              \<union> date ` {i \<in> set incomeData. satisfiesIncomeOpt flt i}
        \<and> (\<forall>p\<in>set points.
              expensesT p = onDate (dateT p) (filter (satisfiesOpt flt) expenseStore)
            \<and> incomeT p = onDate (dateT p) (filter (satisfiesIncomeOpt flt) incomeData)
            \<and> balanceT p = incomeT p - expensesT p
            \<and> (dateT p \<notin> date ` {e \<in> set expenseStore. satisfiesOpt flt e}
                  \<longrightarrow> expensesT p = 0)
            \<and> (dateT p \<notin> date ` {i \<in> set incomeData. satisfiesIncomeOpt flt i}
                  \<longrightarrow> incomeT p = 0)))"
proof -
  from getExpenses_total [of expenseStore flt] show ?thesis
  proof
    assume "getExpenses expenseStore flt = Inl TypeError \<and> \<not> described expenseStore"
    then show ?thesis by (simp add: getSpendingTrends_def)
  next
    assume "\<exists>filtered. getExpenses expenseStore flt = Inr filtered"
    then obtain expenses where f: "getExpenses expenseStore flt = Inr expenses" by blast
    let ?keptE = "filter (satisfiesOpt flt) expenseStore"
    let ?keptI = "filter (satisfiesIncomeOpt flt) incomeData"
    define income where "income = getIncome incomeData flt"
    have e: "expenses = sortArray byDateDesc ?keptE" using f by (rule getExpenses_Inr)
    have i: "income = sortArray byDateDesc ?keptI" by (simp add: income_def getIncome_filter)
    have ve: "datesValid expenses"
      unfolding e by (intro datesValid_sort datesValid_filter assms)
    have vi: "datesValid income"
      unfolding i by (intro datesValid_sort datesValid_filter assms)
    have se: "date ` set expenses = date ` {e \<in> set expenseStore. satisfiesOpt flt e}"
      by (simp add: e set_sortArray)
    have si: "date ` set income = date ` {i \<in> set incomeData. satisfiesIncomeOpt flt i}"
      by (simp add: i set_sortArray)
    have oe: "onDate d expenses = onDate d ?keptE" for d
      by (simp add: e onDate_sortArray)
    have oi: "onDate d income = onDate d ?keptI" for d
      by (simp add: i onDate_sortArray)
    define raw where "raw = map (\<lambda>(d, (inc, spent)).
        \<lparr>dateT = d, incomeT = inc, expensesT = spent, balanceT = inc - spent\<rparr>)
        (dataByDateOf expenses income)"
    define points where "points = sortArray (\<lambda>a b. localeCompare (dateT a) (dateT b)) raw"
    have r: "getSpendingTrends expenseStore incomeData flt = Inr points"
      unfolding points_def raw_def income_def getSpendingTrends_Inr [OF f]
      using dataByDateOf_entries [OF ve vi] by (simp add: income_def)
    have dates: "map dateT raw = map fst (dataByDateOf expenses income)"
      by (simp add: raw_def case_prod_beta)
    have 1: "distinct (map dateT points)"
      unfolding points_def distinct_map_sortArray dates by (rule dataByDateOf_distinct)
    have "sorted_wrt (\<lambda>a b. dateT a \<le> dateT b) points"
      unfolding points_def
      by (rule sorted_wrt_sortArray) (auto simp: localeCompare_positive)
    then have 2: "sorted (map dateT points)" by (simp add: sorted_wrt_map)
    have "set (map dateT points) = set (map dateT raw)"
      by (simp add: points_def set_sortArray)
    then have 3: "set (map dateT points) = date ` set expenses \<union> date ` set income"
      unfolding dates dataByDateOf_keys [OF ve vi] .
    have 4: "expensesT p = onDate (dateT p) expenses \<and> incomeT p = onDate (dateT p) income
        \<and> balanceT p = incomeT p - expensesT p
        \<and> (dateT p \<notin> date ` set expenses \<longrightarrow> expensesT p = 0)
        \<and> (dateT p \<notin> date ` set income \<longrightarrow> incomeT p = 0)"
      if "p \<in> set points" for p
    proof -
      from that have "p \<in> set raw" by (simp add: points_def set_sortArray)
      then obtain d v where dv: "(d, v) \<in> set (dataByDateOf expenses income)"
        and p: "p = \<lparr>dateT = d, incomeT = fst v, expensesT = snd v, balanceT = fst v - snd v\<rparr>"
        by (auto simp: raw_def)
      from dataByDateOf_value [OF dv ve vi] show ?thesis
        by (simp add: p onDate_absent)
    qed
    show ?thesis
      unfolding r sum.case using 1 2 3 4 unfolding se si oe oi by blast
  qed
qed

theorem trends_by_date_witness:
  "datesValid sampleExpenses \<and> datesValid sampleIncome
   \<and> getSpendingTrends sampleExpenses sampleIncome (Some februaryFilter)
       = Inr [\<lparr>dateT = ''2026-02-01'', incomeT = 5500, expensesT = 1200, balanceT = 4300\<rparr>,
              \<lparr>dateT = ''2026-02-02'', incomeT = 0, expensesT = 171 / 2, balanceT = - (171 / 2)\<rparr>,
              \<lparr>dateT = ''2026-02-03'', incomeT = 0, expensesT = 165, balanceT = - 165\<rparr>,
              \<lparr>dateT = ''2026-02-05'', incomeT = 800, expensesT = 0, balanceT = 800\<rparr>]
   \<and> {''2026-02-01'', ''2026-02-02'', ''2026-02-03'', ''2026-02-05''}
       = date ` {e \<in> set sampleExpenses. satisfiesOpt (Some februaryFilter) e}
         \<union> date ` {i \<in> set sampleIncome. satisfiesIncomeOpt (Some februaryFilter) i}
   \<and> onDate ''2026-02-03'' (filter (satisfiesOpt (Some februaryFilter)) sampleExpenses) = 165
   \<and> onDate ''2026-02-05'' (filter (satisfiesIncomeOpt (Some februaryFilter)) sampleIncome) = 800"
proof -
  have e: "getExpenses sampleExpenses (Some februaryFilter)
      = Inr [uberExpense, electricityExpense, groceriesExpense, rentExpense]"
    by (simp add: getExpenses_def narrowExpenses_def sample_eval date_eval)
  have i: "getIncome sampleIncome (Some februaryFilter) = [freelanceIncome, salaryIncome]"
    by (simp add: getIncome_def sample_eval date_eval)
  have d: "dataByDateOf [uberExpense, electricityExpense, groceriesExpense, rentExpense]
        [freelanceIncome, salaryIncome]
      = [(''2026-02-03'', 0, 165), (''2026-02-02'', 0, 171 / 2), (''2026-02-01'', 5500, 1200),
         (''2026-02-05'', 800, 0)]"
    by (simp add: dataByDateOf_def grouped_def upsert_def objectPrototype_def sample_eval)
  have n: "entries [(''2026-02-03'', 0 :: real, 165 :: real), (''2026-02-02'', 0, 171 / 2),
        (''2026-02-01'', 5500, 1200), (''2026-02-05'', 800, 0)]
      = [(''2026-02-03'', 0, 165), (''2026-02-02'', 0, 171 / 2), (''2026-02-01'', 5500, 1200),
         (''2026-02-05'', 800, 0)]"
    by (simp add: entries_def isArrayIndex_def isDigit_def)
  have t: "getSpendingTrends sampleExpenses sampleIncome (Some februaryFilter)
       = Inr [\<lparr>dateT = ''2026-02-01'', incomeT = 5500, expensesT = 1200, balanceT = 4300\<rparr>,
              \<lparr>dateT = ''2026-02-02'', incomeT = 0, expensesT = 171 / 2, balanceT = - (171 / 2)\<rparr>,
              \<lparr>dateT = ''2026-02-03'', incomeT = 0, expensesT = 165, balanceT = - 165\<rparr>,
              \<lparr>dateT = ''2026-02-05'', incomeT = 800, expensesT = 0, balanceT = 800\<rparr>]"
    unfolding getSpendingTrends_Inr [OF e] i d n
    by (simp add: sortArray_def localeCompare_def)
  note w = trends_by_date [OF datesValid_sampleExpenses datesValid_sampleIncome,
      of "Some februaryFilter"]
  have s: "{''2026-02-01'', ''2026-02-02'', ''2026-02-03'', ''2026-02-05''}
       = date ` {e \<in> set sampleExpenses. satisfiesOpt (Some februaryFilter) e}
         \<union> date ` {i \<in> set sampleIncome. satisfiesIncomeOpt (Some februaryFilter) i}"
    using w unfolding t by simp
  have o1: "onDate ''2026-02-03'' (filter (satisfiesOpt (Some februaryFilter)) sampleExpenses) = 165"
    using w unfolding t by simp
  have o2: "onDate ''2026-02-05'' (filter (satisfiesIncomeOpt (Some februaryFilter)) sampleIncome)
      = 800"
    using w unfolding t by simp
  show ?thesis
    using datesValid_sampleExpenses datesValid_sampleIncome t s o1 o2 by blast
qed

text \<open>
  Claim C5 (\<open>getMonthlyBreakdown\<close> reports as \<^verbatim>\<open>topCategories\<close> the highest-amount
  categories of the month in descending order of amount) fails on the code for a
  category that is the name of a property of \<^verbatim>\<open>Object.prototype\<close>, by the same
  \<^verbatim>\<open>categories[c] || 0\<close> as in Claim C3: for a month with 100 under \<^verbatim>\<open>constructor\<close> and
  1200 under \<^verbatim>\<open>Rent\<close> the first entry is \<^verbatim>\<open>constructor\<close> with a string as amount, where
  the claim has \<^verbatim>\<open>Rent\<close> with 1200 first and \<^verbatim>\<open>constructor\<close> with 100 second. The theorem
  evaluates the call, with the count left out. For every other category the claim
  holds, with 6 as the count that is left out (\<open>monthly_breakdown_own\<close>,
  \<open>default_count_sample\<close>).
\<close>

theorem getMonthlyBreakdown_inherited_category:
  "getMonthlyBreakdown [constructorExpense, rentExpense] [] None
     = Inr [\<lparr>month = ''2026-02'', incomeM = 0, expensesM = 1300, savings = - 1300,
             topCategories =
               [\<lparr>name = ''constructor'', amountC = Concat (Member ''constructor'') 100\<rparr>,
                \<lparr>name = ''Rent'', amountC = Val 1200\<rparr>]\<rparr>]"
proof -
  have v: "datesValid [constructorExpense, rentExpense]"
    by (simp add: sample_eval date_eval)
  have s: "sortArray byDateDesc ([] :: Income list) = []" by (simp add: sortArray_def)
  have m: "dataByMonthOf [constructorExpense, rentExpense] []
      = [(''2026-02'', 0, 1300,
          [(''constructor'', Concat (Member ''constructor'') 100), (''Rent'', Val 1200)])]"
    by (simp add: dataByMonthOf_def grouped_def monthOf_def object_eval sample_eval)
  have e: "entries [(''2026-02'', 0 :: real, 1300 :: real,
          [(''constructor'', Concat (Member ''constructor'') 100), (''Rent'', Val (1200 :: real))])]
      = [(''2026-02'', 0, 1300,
          [(''constructor'', Concat (Member ''constructor'') 100), (''Rent'', Val 1200)])]"
    by (simp add: entries_def isArrayIndex_def isDigit_def)
  have t: "topOf [(''constructor'', Concat (Member ''constructor'') 100), (''Rent'', Val 1200)]
      = [\<lparr>name = ''constructor'', amountC = Concat (Member ''constructor'') 100\<rparr>,
         \<lparr>name = ''Rent'', amountC = Val 1200\<rparr>]"
    by (simp add: topOf_def entries_def isArrayIndex_def isDigit_def sortArray_def jsMinus_def)
  show ?thesis
    unfolding getMonthlyBreakdown_eq [OF v] sortArray_samples s m e
    by (simp add: t slice0_def monthsOrDefault_def sortArray_def)
qed
end
